(* ===== verification/Prelude.thy ===== *)
theory Prelude
  imports Main "HOL-Library.Word" "HOL-Library.AList" "HOL-Library.Sublist"
    "HOL-Library.Char_ord" "HOL-Library.List_Lexorder"
begin

text \<open>
  Shared vocabulary of the development: the types Rust's strings, byte vectors and machine
  integers are read at, the \<open>Result\<close>/\<open>Option\<close> combinators the code chains with \<open>?\<close>,
  decimal formatting, and the generic lemmas on lists and association lists the component
  theories use.  \<open>result_simps\<close> collects the equations of the combinators,
  \<open>wf_intros\<close> the preservation lemmas of the structural invariants.
\<close>

named_theorems result_simps "equations of the Result and Option combinators"
named_theorems wf_intros "preservation lemmas of the structural invariants"

section \<open>Types\<close>

text \<open>
  A Rust \<open>String\<close> is a byte vector that holds valid UTF-8, so both strings and byte
  vectors are lists of bytes; \<open>char\<close> is Isabelle's 8-bit character.  Validity is the predicate
  \<open>utf8\<close> of theory Utf8.
\<close>

type_synonym bytes = "char list"
type_synonym str = "char list"
type_synonym u64 = "64 word"
type_synonym i64 = "64 word"
type_synonym usize = "64 word"

text \<open>
  \<open>as i64\<close> and \<open>as u64\<close> between the two 64-bit types keep the bits and change how they are
  read: \<open>unat\<close> for the unsigned type, \<open>sint\<close> for the signed one.
\<close>

definition as_i64 :: "u64 \<Rightarrow> i64" where
  "as_i64 x = x"

definition as_u64 :: "i64 \<Rightarrow> u64" where
  "as_u64 x = x"

definition len_usize :: "'a list \<Rightarrow> usize" where
  "len_usize xs = word_of_nat (length xs)"

datatype level = TRACE | DEBUG | INFO | WARN | ERROR

type_synonym log_line = "level \<times> str"

section \<open>Result and Option combinators\<close>

text \<open>\<open>Result<T, E>\<close> is \<open>'e + 'a\<close>, the error on the left.\<close>

fun and_then :: "'e + 'a \<Rightarrow> ('a \<Rightarrow> 'e + 'b) \<Rightarrow> 'e + 'b" where
  "and_then (Inl e) f = Inl e"
| "and_then (Inr x) f = f x"

fun map_err :: "('e \<Rightarrow> 'f) \<Rightarrow> 'e + 'a \<Rightarrow> 'f + 'a" where
  "map_err f (Inl e) = Inl (f e)"
| "map_err f (Inr x) = Inr x"

fun map_ok :: "('a \<Rightarrow> 'b) \<Rightarrow> 'e + 'a \<Rightarrow> 'e + 'b" where
  "map_ok f (Inl e) = Inl e"
| "map_ok f (Inr x) = Inr (f x)"

fun ok_or :: "'a option \<Rightarrow> 'e \<Rightarrow> 'e + 'a" where
  "ok_or None e = Inl e"
| "ok_or (Some x) e = Inr x"

fun ok :: "'e + 'a \<Rightarrow> 'a option" where
  "ok (Inl e) = None"
| "ok (Inr x) = Some x"

fun unwrap_or :: "'a option \<Rightarrow> 'a \<Rightarrow> 'a" where
  "unwrap_or None d = d"
| "unwrap_or (Some x) d = x"

fun opt_filter :: "('a \<Rightarrow> bool) \<Rightarrow> 'a option \<Rightarrow> 'a option" where
  "opt_filter P None = None"
| "opt_filter P (Some x) = (if P x then Some x else None)"

abbreviation is_ok :: "'e + 'a \<Rightarrow> bool" where
  "is_ok r \<equiv> \<not> isl r"

section \<open>Decimal formatting\<close>

text \<open>\<open>format!("{}", n)\<close> on an unsigned integer, and \<open>{:03}\<close>, which pads with zeros.\<close>

definition digit :: "nat \<Rightarrow> char" where
  "digit d = char_of (48 + d)"

fun dec :: "nat \<Rightarrow> str" where
  "dec n = (if n < 10 then [digit n] else dec (n div 10) @ [digit (n mod 10)])"

declare dec.simps [simp del]

definition dec3 :: "nat \<Rightarrow> str" where
  "dec3 n = replicate (3 - length (dec n)) (CHR ''0'') @ dec n"

definition is_ascii_digit :: "char \<Rightarrow> bool" where
  "is_ascii_digit c \<longleftrightarrow> (let b = (of_char c :: nat) in 48 \<le> b \<and> b \<le> 57)"

section \<open>Lemmas\<close>

declare and_then.simps [result_simps] map_err.simps [result_simps] map_ok.simps [result_simps]
  ok_or.simps [result_simps]

lemma and_then_Inr_iff: "and_then r f = Inr y \<longleftrightarrow> (\<exists>x. r = Inr x \<and> f x = Inr y)"
  by (cases r) auto

lemma map_err_Inr_iff [simp]: "map_err f r = Inr x \<longleftrightarrow> r = Inr x"
  by (cases r) auto

lemma ok_or_Inr_iff [simp]: "ok_or v e = Inr x \<longleftrightarrow> v = Some x"
  by (cases v) auto

lemma ok_or_Inl_iff [simp]: "ok_or v e = Inl e' \<longleftrightarrow> v = None \<and> e' = e"
  by (cases v) auto

lemma as_i64_as_u64 [simp]: "as_u64 (as_i64 x) = x" "as_i64 (as_u64 y) = y"
  by (simp_all add: as_i64_def as_u64_def)

lemma sint_as_i64:
  assumes "unat x < 2 ^ 63"
  shows "sint (as_i64 x) = int (unat x)"
proof -
  have "int (unat x) < int (2 ^ 63)"
    using assms by (simp only: of_nat_less_iff)
  then have "uint x < 2 ^ 63" by (simp only: uint_nat of_nat_power of_nat_numeral)
  moreover have "- (2 ^ 63) \<le> uint x" by (rule order_trans [of _ 0]) simp_all
  ultimately have "signed_take_bit 63 (uint x) = uint x"
    by (intro signed_take_bit_int_eq_self)
  then show ?thesis by (simp add: as_i64_def sint_uint)
qed

end
