(* ===== verification/Containers.thy ===== *)
theory Containers
  imports Prelude
begin

text \<open>
  The keyed tables of the program behind one interface.  \<open>HashMap<String, V>\<close> and the keyed
  tables of \<open>chat.db\<close> (\<open>chats\<close>, \<open>settings\<close>) are association lists
  with distinct keys; a hash map's iteration order is unspecified in Rust, the model fixes one, and
  properties of listings are stated up to it.  The locale \<open>keyed_table\<close> is the contract the
  clients use; the lemmas about runs of updates are proved once in it.
\<close>

section \<open>The interface\<close>

locale keyed_table =
  fixes get :: "'t \<Rightarrow> 'k \<Rightarrow> 'v option"
    and put :: "'k \<Rightarrow> 'v \<Rightarrow> 't \<Rightarrow> 't"
    and del :: "'k \<Rightarrow> 't \<Rightarrow> 't"
    and wf :: "'t \<Rightarrow> bool"
  assumes get_put: "wf t \<Longrightarrow> get (put k v t) k' = (if k' = k then Some v else get t k')"
    and get_del: "wf t \<Longrightarrow> get (del k t) k' = (if k' = k then None else get t k')"
    and wf_put: "wf t \<Longrightarrow> wf (put k v t)"
    and wf_del: "wf t \<Longrightarrow> wf (del k t)"
begin

text \<open>Two tables show the same entries.\<close>

definition same :: "'t \<Rightarrow> 't \<Rightarrow> bool" where
  "same t u \<longleftrightarrow> (\<forall>k. get t k = get u k)"

lemma same_refl [simp]: "same t t"
  by (simp add: same_def)

lemma put_put: "wf t \<Longrightarrow> same (put k v (put k w t)) (put k v t)"
  by (simp add: same_def get_put wf_put)

lemma put_commute: "wf t \<Longrightarrow> j \<noteq> k \<Longrightarrow> same (put j v (put k w t)) (put k w (put j v t))"
  by (simp add: same_def get_put wf_put)

lemma del_put: "wf t \<Longrightarrow> same (del k (put k v t)) (del k t)"
  by (simp add: same_def get_put get_del wf_put)

text \<open>A run of insertions, as a loop over rows makes: the last value of a key wins.\<close>

definition put_all :: "('k \<times> 'v) list \<Rightarrow> 't \<Rightarrow> 't" where
  "put_all kvs t = fold (\<lambda>(k, v). put k v) kvs t"

lemma wf_put_all: "wf t \<Longrightarrow> wf (put_all kvs t)"
  unfolding put_all_def by (induction kvs arbitrary: t) (auto simp: wf_put)

lemma get_put_all:
  "wf t \<Longrightarrow> get (put_all kvs t) k =
     (case map_of (rev kvs) k of None \<Rightarrow> get t k | Some v \<Rightarrow> Some v)"
  unfolding put_all_def
  by (induction kvs arbitrary: t)
    (auto simp: wf_put get_put map_add_def split: option.splits)

lemma get_put_all_distinct:
  "wf t \<Longrightarrow> distinct (map fst kvs) \<Longrightarrow>
     get (put_all kvs t) k = (case map_of kvs k of None \<Rightarrow> get t k | Some v \<Rightarrow> Some v)"
  unfolding put_all_def
proof (induction kvs arbitrary: t)
  case (Cons kv kvs)
  then have "map_of kvs (fst kv) = None"
    by (simp add: map_of_eq_None_iff)
  with Cons show ?case
    by (cases kv) (auto simp: wf_put get_put split: option.split)
qed simp

end

section \<open>Hash maps and tables as association lists\<close>

type_synonym 'v hash_map = "(str \<times> 'v) list"

definition hm_get :: "'v hash_map \<Rightarrow> str \<Rightarrow> 'v option" where
  "hm_get m k = map_of m k"

definition hm_insert :: "str \<Rightarrow> 'v \<Rightarrow> 'v hash_map \<Rightarrow> 'v hash_map" where
  "hm_insert k v m = AList.update k v m"

definition hm_remove :: "str \<Rightarrow> 'v hash_map \<Rightarrow> 'v hash_map" where
  "hm_remove k m = AList.delete k m"

definition hm_contains :: "'v hash_map \<Rightarrow> str \<Rightarrow> bool" where
  "hm_contains m k \<longleftrightarrow> hm_get m k \<noteq> None"

definition hm_wf :: "'v hash_map \<Rightarrow> bool" where
  "hm_wf m \<longleftrightarrow> distinct (map fst m)"

definition hm_values :: "'v hash_map \<Rightarrow> 'v list" where
  "hm_values m = map snd m"

text \<open>\<open>for v in m.values_mut()\<close>.\<close>

definition hm_map_values :: "('v \<Rightarrow> 'v) \<Rightarrow> 'v hash_map \<Rightarrow> 'v hash_map" where
  "hm_map_values f m = map (\<lambda>(k, v). (k, f v)) m"

interpretation hm: keyed_table hm_get hm_insert hm_remove hm_wf
  by unfold_locales
    (auto simp: hm_get_def hm_insert_def hm_remove_def hm_wf_def update_conv' delete_conv'
      distinct_update distinct_delete)

lemmas hm_simps = hm.get_put hm.get_del hm.wf_put hm.wf_del

lemmas [wf_intros] = hm.wf_put hm.wf_del

lemma hm_get_insert [simp]: "hm_get (hm_insert k v m) k' = (if k' = k then Some v else hm_get m k')"
  by (simp add: hm_get_def hm_insert_def update_conv')

lemma hm_get_remove [simp]: "hm_get (hm_remove k m) k' = (if k' = k then None else hm_get m k')"
  by (simp add: hm_get_def hm_remove_def delete_conv')

lemma hm_get_Nil [simp]: "hm_get [] k = None"
  by (simp add: hm_get_def)

lemma hm_wf_Nil [simp]: "hm_wf []"
  by (simp add: hm_wf_def)

lemma hm_get_Some_in: "hm_get m k = Some v \<Longrightarrow> (k, v) \<in> set m"
  by (simp add: hm_get_def map_of_SomeD)

lemma hm_get_iff_in: "hm_wf m \<Longrightarrow> hm_get m k = Some v \<longleftrightarrow> (k, v) \<in> set m"
  by (simp add: hm_get_def hm_wf_def)

lemma hm_get_map_values [simp]: "hm_get (hm_map_values f m) k = map_option f (hm_get m k)"
  by (simp add: hm_get_def hm_map_values_def map_of_map comp_def)

lemma hm_wf_map_values [simp, wf_intros]: "hm_wf m \<Longrightarrow> hm_wf (hm_map_values f m)"
  by (simp add: hm_wf_def hm_map_values_def comp_def case_prod_unfold)

lemma set_hm_values: "hm_wf m \<Longrightarrow> v \<in> set (hm_values m) \<longleftrightarrow> (\<exists>k. hm_get m k = Some v)"
  by (force simp: hm_values_def hm_get_iff_in)

lemma card_hm: "hm_wf m \<Longrightarrow> length m = card {k. hm_get m k \<noteq> None}"
proof -
  assume "hm_wf m"
  then have "length m = card (fst ` set m)"
    by (metis distinct_card hm_wf_def length_map set_map)
  also have "fst ` set m = {k. hm_get m k \<noteq> None}"
    by (auto simp: hm_get_def map_of_eq_None_iff)
  finally show ?thesis .
qed

end
