(* ===== verification/Utf8.thy ===== *)
theory Utf8
  imports Prelude
begin

text \<open>
  The part of Rust's \<open>str\<close> that the module uses: the characters of a UTF-8 string,
  \<open>char_indices\<close>, slicing at a byte index with its boundary check, and
  \<open>String::from_utf8_lossy\<close>.  A Rust \<open>char\<close> is kept as the byte sequence that encodes it.
\<close>

section \<open>Scanning one character\<close>

definition byte :: "char \<Rightarrow> nat" where
  "byte c = of_char c"

definition cont :: "char \<Rightarrow> bool" where
  "cont c \<longleftrightarrow> 128 \<le> byte c \<and> byte c \<le> 191"

definition char_width :: "char \<Rightarrow> nat" where
  "char_width c = (let b = byte c in
     if b < 128 then 1 else if 194 \<le> b \<and> b \<le> 223 then 2
     else if 224 \<le> b \<and> b \<le> 239 then 3 else if 240 \<le> b \<and> b \<le> 244 then 4 else 0)"

text \<open>The second byte rules out overlong forms, surrogates and values past U+10FFFF.\<close>

definition second_ok :: "char \<Rightarrow> char \<Rightarrow> bool" where
  "second_ok c d \<longleftrightarrow> cont d \<and>
     (let b = byte c; x = byte d in
       (b = 224 \<longrightarrow> 160 \<le> x) \<and> (b = 237 \<longrightarrow> x \<le> 159) \<and>
       (b = 240 \<longrightarrow> 144 \<le> x) \<and> (b = 244 \<longrightarrow> x \<le> 143))"

text \<open>
  One step of the decoder on a non-empty input: whether a whole character stands at the front,
  and how many bytes it takes, or how many bytes the ill-formed sequence spans.
\<close>

definition scan :: "bytes \<Rightarrow> bool \<times> nat" where
  "scan bs = (case bs of [] \<Rightarrow> (False, 0) | b # r1 \<Rightarrow>
     if char_width b = 1 then (True, 1)
     else if char_width b = 0 then (False, 1)
     else (case r1 of [] \<Rightarrow> (False, 1) | c # r2 \<Rightarrow>
       if \<not> second_ok b c then (False, 1)
       else if char_width b = 2 then (True, 2)
       else (case r2 of [] \<Rightarrow> (False, 2) | d # r3 \<Rightarrow>
         if \<not> cont d then (False, 2)
         else if char_width b = 3 then (True, 3)
         else (case r3 of [] \<Rightarrow> (False, 3) | e # r4 \<Rightarrow>
           if cont e then (True, 4) else (False, 3)))))"

lemma scan_pos: "bs \<noteq> [] \<Longrightarrow> 0 < snd (scan bs)"
  by (auto simp: scan_def split: list.split)

lemma scan_len: "snd (scan bs) \<le> length bs"
  by (auto simp: scan_def split: list.split)

lemma char_width_le: "char_width b \<le> 4"
  by (simp add: char_width_def Let_def)

text \<open>The four shapes of a well-formed character.\<close>

lemma scan_True_iff:
  "scan bs = (True, n) \<longleftrightarrow>
     (n = 1 \<and> (\<exists>b r. bs = b # r \<and> char_width b = 1)) \<or>
     (n = 2 \<and> (\<exists>b c r. bs = b # c # r \<and> char_width b = 2 \<and> second_ok b c)) \<or>
     (n = 3 \<and> (\<exists>b c d r. bs = b # c # d # r \<and> char_width b = 3 \<and> second_ok b c \<and> cont d)) \<or>
     (n = 4 \<and> (\<exists>b c d e r. bs = b # c # d # e # r \<and> char_width b = 4 \<and> second_ok b c
                    \<and> cont d \<and> cont e))"
proof (cases bs)
  case (Cons b r)
  have "char_width b = 0 \<or> char_width b = 1 \<or> char_width b = 2 \<or> char_width b = 3 \<or> char_width b = 4"
    using char_width_le [of b] by linarith
  then show ?thesis unfolding Cons
    by (elim disjE) (simp_all add: scan_def split: list.split, auto)
qed (simp add: scan_def)

lemma scan_append: "scan bs = (True, n) \<Longrightarrow> scan (bs @ cs) = (True, n)"
  by (auto simp: scan_True_iff)

lemma scan_take: "scan bs = (True, n) \<Longrightarrow> scan (take n bs @ cs) = (True, n)"
  by (auto simp: scan_True_iff)

text \<open>A character never starts with a continuation byte.\<close>

lemma scan_head: "scan bs = (True, n) \<Longrightarrow> \<not> cont (hd bs)"
  by (auto simp: scan_True_iff cont_def char_width_def Let_def split: if_splits)

section \<open>Strings, characters, slices\<close>

text \<open>Valid UTF-8: every step of the decoder finds a character.\<close>

function utf8 :: "bytes \<Rightarrow> bool" where
  "utf8 bs = (if bs = [] then True else let (good, n) = scan bs in good \<and> utf8 (drop n bs))"
  by pat_completeness auto
termination
proof (relation "measure length", goal_cases)
  case (2 bs x good n)
  then have "scan bs = (good, n)" by simp
  with 2 have "0 < n" "bs \<noteq> []" using scan_pos [of bs] by auto
  then show ?case by simp
qed simp

declare utf8.simps [simp del]

text \<open>\<open>str::chars\<close>, each character as its bytes.\<close>

function chars :: "str \<Rightarrow> bytes list" where
  "chars bs = (if bs = [] then [] else let n = snd (scan bs) in take n bs # chars (drop n bs))"
  by pat_completeness auto
termination
proof (relation "measure length", goal_cases)
  case (2 bs n)
  then show ?case using scan_pos [of bs] by simp
qed simp

declare chars.simps [simp del]

text \<open>\<open>str::char_indices\<close>: the byte offset of every character.\<close>

fun char_offsets :: "nat \<Rightarrow> bytes list \<Rightarrow> nat list" where
  "char_offsets k [] = []"
| "char_offsets k (c # cs) = k # char_offsets (k + length c) cs"

definition char_indices :: "str \<Rightarrow> nat list" where
  "char_indices s = char_offsets 0 (chars s)"

text \<open>\<open>Iterator::nth\<close>.\<close>

definition nth_opt :: "'a list \<Rightarrow> nat \<Rightarrow> 'a option" where
  "nth_opt xs n = (if n < length xs then Some (xs ! n) else None)"

text \<open>\<open>&s[..i]\<close>: \<open>None\<close> is the panic on an index that is no character boundary.\<close>

definition is_char_boundary :: "str \<Rightarrow> nat \<Rightarrow> bool" where
  "is_char_boundary s i \<longleftrightarrow> i = 0 \<or> i = length s \<or> (i < length s \<and> \<not> cont (s ! i))"

definition slice_to :: "str \<Rightarrow> nat \<Rightarrow> str option" where
  "slice_to s i = (if is_char_boundary s i then Some (take i s) else None)"

text \<open>\<open>String::from_utf8_lossy\<close>: every ill-formed sequence becomes one U+FFFD.\<close>

definition replacement :: bytes where
  "replacement = [char_of (239 :: nat), char_of (191 :: nat), char_of (189 :: nat)]"

function from_utf8_lossy :: "bytes \<Rightarrow> str" where
  "from_utf8_lossy bs = (if bs = [] then []
     else let (good, n) = scan bs
          in (if good then take n bs else replacement) @ from_utf8_lossy (drop n bs))"
  by pat_completeness auto
termination
proof (relation "measure length", goal_cases)
  case (2 bs x good n)
  then have "scan bs = (good, n)" by simp
  with 2 have "0 < n" "bs \<noteq> []" using scan_pos [of bs] by auto
  then show ?case by simp
qed simp

declare from_utf8_lossy.simps [simp del]

section \<open>Lemmas\<close>

lemma utf8_Nil [simp]: "utf8 []"
  by (subst utf8.simps) simp

lemma chars_Nil [simp]: "chars [] = []"
  by (subst chars.simps) simp

lemma from_utf8_lossy_Nil [simp]: "from_utf8_lossy [] = []"
  by (subst from_utf8_lossy.simps) simp

lemma utf8_step: "scan bs = (True, n) \<Longrightarrow> utf8 bs \<longleftrightarrow> utf8 (drop n bs)"
  by (cases "bs = []") (simp_all add: utf8.simps [of bs])

lemma utf8_scan: "utf8 bs \<Longrightarrow> bs \<noteq> [] \<Longrightarrow> \<exists>n. scan bs = (True, n) \<and> 0 < n \<and> n \<le> length bs \<and> utf8 (drop n bs)"
  using scan_pos [of bs] scan_len [of bs] utf8.simps [of bs] by (cases "scan bs") auto

text \<open>Induction over the characters of a valid string.\<close>

lemma utf8_induct [consumes 1, case_names Nil Char]:
  assumes "utf8 s"
    and "P []"
    and "\<And>s n. scan s = (True, n) \<Longrightarrow> 0 < n \<Longrightarrow> n \<le> length s \<Longrightarrow> utf8 (drop n s) \<Longrightarrow> P (drop n s) \<Longrightarrow> P s"
  shows "P s"
  using assms(1)
proof (induction s rule: length_induct)
  case (1 s)
  show ?case
  proof (cases "s = []")
    case False
    with 1 obtain n where n: "scan s = (True, n)" "0 < n" "n \<le> length s" "utf8 (drop n s)"
      using utf8_scan by blast
    moreover from n have "length (drop n s) < length s" by simp
    ultimately show ?thesis using 1 assms(3) by blast
  qed (simp add: assms(2))
qed

lemma from_utf8_lossy_valid: "utf8 s \<Longrightarrow> from_utf8_lossy s = s"
proof (induction rule: utf8_induct)
  case (Char s n)
  then show ?case by (subst from_utf8_lossy.simps) auto
qed simp

lemma utf8_append: "utf8 s \<Longrightarrow> utf8 t \<Longrightarrow> utf8 (s @ t)"
proof (induction rule: utf8_induct)
  case (Char s n)
  then have "utf8 (s @ t) \<longleftrightarrow> utf8 (drop n (s @ t))"
    by (intro utf8_step scan_append)
  with Char show ?case by simp
qed simp

lemma utf8_replacement: "utf8 replacement"
proof -
  have "scan replacement = (True, 3)"
    by (simp add: replacement_def scan_True_iff char_width_def byte_def second_ok_def cont_def)
  then show ?thesis by (simp add: utf8_step replacement_def)
qed

lemma utf8_take_scan:
  assumes "scan bs = (True, n)"
  shows "utf8 (take n bs)"
proof -
  have "scan (take n bs) = (True, n)" using scan_take [OF assms, of "[]"] by simp
  then show ?thesis by (simp add: utf8_step)
qed

lemma utf8_from_utf8_lossy: "utf8 (from_utf8_lossy bs)"
proof (induction bs rule: from_utf8_lossy.induct)
  case (1 bs)
  show ?case
  proof (cases "bs = []")
    case False
    obtain good n where sc: "scan bs = (good, n)" by (cases "scan bs")
    with 1 False have "utf8 (from_utf8_lossy (drop n bs))" by simp
    moreover have "utf8 (if good then take n bs else replacement)"
      using sc utf8_take_scan utf8_replacement by auto
    ultimately show ?thesis
      using sc False by (subst from_utf8_lossy.simps) (simp add: utf8_append del: if_split)
  qed simp
qed

lemma concat_chars: "concat (chars s) = s"
proof (induction s rule: chars.induct)
  case (1 bs)
  then show ?case by (subst chars.simps) (simp add: Let_def)
qed

lemma chars_ne: "c \<in> set (chars s) \<Longrightarrow> c \<noteq> []"
proof (induction s arbitrary: c rule: chars.induct)
  case (1 bs)
  show ?case
  proof (cases "bs = []")
    case False
    with 1 scan_pos [of bs] show ?thesis by (subst (asm) chars.simps) (auto simp: Let_def)
  qed (use 1 in simp)
qed

lemma length_chars: "length (chars s) \<le> length s"
proof (induction s rule: chars.induct)
  case (1 bs)
  show ?case
  proof (cases "bs = []")
    case False
    with 1 have "length (chars (drop (snd (scan bs)) bs)) \<le> length bs - snd (scan bs)" by simp
    moreover have "0 < snd (scan bs)" "snd (scan bs) \<le> length bs"
      using False scan_pos scan_len by auto
    ultimately show ?thesis using False by (subst chars.simps) (simp add: Let_def)
  qed simp
qed

lemma char_offsets_nth:
  "i < length cs \<Longrightarrow> char_offsets k cs ! i = k + length (concat (take i cs))"
  by (induction cs arbitrary: i k) (auto simp: nth_Cons' take_Cons')

lemma length_char_offsets [simp]: "length (char_offsets k cs) = length cs"
  by (induction cs arbitrary: k) auto

lemma take_concat: "take (length (concat (take i xs))) (concat xs) = concat (take i xs)"
  by (metis append_eq_conv_conj append_take_drop_id concat_append)

lemma utf8_chars_boundary:
  "utf8 s \<Longrightarrow> is_char_boundary s (length (concat (take i (chars s))))"
proof (induction arbitrary: i rule: utf8_induct)
  case (Char s n)
  from Char.hyps have ne: "s \<noteq> []" by auto
  with Char.hyps have ch: "chars s = take n s # chars (drop n s)"
    by (subst chars.simps) simp
  show ?case
  proof (cases i)
    case (Suc j)
    let ?m = "length (concat (take j (chars (drop n s))))"
    have len: "length (concat (take i (chars s))) = n + ?m"
      using Char.hyps Suc ch by (simp add: min_def del: length_concat)
    have "is_char_boundary (drop n s) ?m" by (rule Char.IH)
    moreover have "n < length s \<Longrightarrow> \<not> cont (s ! n)"
      using utf8_scan [OF Char.hyps(4)] scan_head [of "drop n s"] by (auto simp: hd_drop_conv_nth)
    ultimately show ?thesis
      using Char.hyps(2,3) unfolding is_char_boundary_def len by (cases "?m = 0") (auto simp del: length_concat length_0_conv)
  qed (simp add: is_char_boundary_def)
qed (simp add: is_char_boundary_def)

lemma utf8_take_chars: "utf8 s \<Longrightarrow> utf8 (concat (take i (chars s)))"
proof (induction arbitrary: i rule: utf8_induct)
  case (Char s n)
  from Char.hyps have ch: "chars s = take n s # chars (drop n s)"
    by (subst chars.simps) auto
  show ?case
  proof (cases i)
    case (Suc j)
    with ch Char.IH [of j] utf8_take_scan [OF Char.hyps(1)] show ?thesis by (simp add: utf8_append)
  qed simp
qed simp

lemma chars_append: "utf8 s \<Longrightarrow> chars (s @ t) = chars s @ chars t"
proof (induction rule: utf8_induct)
  case (Char s n)
  then have "s \<noteq> []" "scan (s @ t) = (True, n)" by (auto intro: scan_append)
  with Char show ?case by (subst chars.simps, subst (2) chars.simps) simp
qed simp

lemma take_chars:
  assumes "utf8 s"
  shows "chars (concat (take i (chars s))) = take i (chars s)"
  using assms
proof (induction arbitrary: i rule: utf8_induct)
  case (Char s n)
  from Char.hyps have ch: "chars s = take n s # chars (drop n s)"
    by (subst chars.simps) auto
  show ?case
  proof (cases i)
    case (Suc j)
    have sc: "scan (take n s) = (True, n)" using scan_take [OF Char.hyps(1), of "[]"] by simp
    then have "chars (take n s) = [take n s]"
      using Char.hyps by (subst chars.simps) auto
    with ch Suc Char.IH [of j] utf8_take_scan [OF Char.hyps(1)] show ?thesis
      by (simp add: chars_append)
  qed simp
qed simp

text \<open>ASCII text is valid UTF-8, one byte per character.\<close>

definition ascii :: "bytes \<Rightarrow> bool" where
  "ascii bs \<longleftrightarrow> (\<forall>b \<in> set bs. byte b < 128)"

lemma scan_ascii: "byte c < 128 \<Longrightarrow> scan (c # s) = (True, 1)"
  by (simp add: scan_True_iff char_width_def)

lemma ascii_utf8: "ascii s \<Longrightarrow> utf8 s"
  by (induction s) (simp_all add: ascii_def utf8_step [OF scan_ascii])

lemma ascii_chars: "ascii s \<Longrightarrow> chars s = map (\<lambda>c. [c]) s"
  by (induction s) (simp_all add: ascii_def scan_ascii chars.simps [of "_ # _"])

end
