(* ===== verification/Persistence.thy ===== *)
theory Persistence
  imports Containers Utf8
begin

text \<open>
  \<open>rust-lib/src/persistence.rs\<close>: the module's tables in \<open>chat.db\<close>, the state read back from
  them at init, and the writes each mutation makes.

  The SQL statements of the source act on the tables of \<open>migrations/001_app_state.sql\<close>; every
  statement may fail, which statement does is a parameter (\<open>fault\<close>), and a transaction that is
  not committed leaves the tables as they were.  The \<open>message_store\<close> crate, which keeps the
  messages, is a parameter (\<open>store_api\<close>) over an abstract state; \<open>store_laws\<close> states what the
  module relies on.
\<close>

section \<open>Data\<close>

text \<open>\<open>message_store::Message\<close>, as far as the module builds and reads it.\<close>

datatype direction = Sent | Received

record message =
  m_chat_id :: str
  m_convo_id :: str
  m_direction :: direction
  m_sender_account :: "str option"
  m_sender_installation :: "str option"
  m_message_id :: "str option"
  m_timestamp_ms :: i64
  m_content :: bytes

record shown_message =
  dm_from_self :: bool
  dm_content :: str
  dm_timestamp_ms :: u64
  dm_sender :: "str option"

datatype conversation_kind = Direct | Group

text \<open>\<open>ConversationKind::default\<close>, \<open>as_str\<close>, and the SQL column conversions.\<close>

definition default_kind :: conversation_kind where
  "default_kind = Direct"

fun kind_as_str :: "conversation_kind \<Rightarrow> str" where
  "kind_as_str Direct = ''direct''"
| "kind_as_str Group = ''group''"

datatype sql_error = Driver str | Unknown_kind str

definition kind_to_sql :: "conversation_kind \<Rightarrow> str" where
  "kind_to_sql k = kind_as_str k"

definition kind_column_result :: "str \<Rightarrow> sql_error + conversation_kind" where
  "kind_column_result v =
     (if v = ''direct'' then Inr Direct
      else if v = ''group'' then Inr Group
      else Inl (Unknown_kind v))"

record chat_session =
  cs_chat_id :: str
  cs_nickname :: "str option"
  cs_kind :: conversation_kind
  cs_name :: "str option"
  cs_description :: "str option"
  cs_peer :: "str option"
  cs_messages :: "shown_message list"
  cs_older_messages :: usize
  cs_history_only :: bool

record app_state =
  as_chats :: "chat_session hash_map"
  as_installation_name :: "str option"
  as_deleted :: "str set"

definition default_app_state :: app_state where
  "default_app_state = \<lparr>as_chats = [], as_installation_name = None, as_deleted = {}\<rparr>"

text \<open>A row of table \<open>chats\<close> besides its primary key, and the tables of a connection.\<close>

record chat_row =
  r_kind :: str
  r_nickname :: "str option"
  r_name :: "str option"
  r_description :: "str option"
  r_peer :: "str option"

record 'ms connection =
  t_chats :: "chat_row hash_map"
  t_deleted :: "str list"
  t_settings :: "str hash_map"
  t_messages :: 'ms

section \<open>What the module calls\<close>

text \<open>The statements the module executes.\<close>

datatype stmt =
    Begin_tx | Commit_tx | Upsert_chat | Delete_chat_row | Insert_tombstone
  | Upsert_setting | Delete_setting | Select_chats | Select_deleted | Select_setting

type_synonym fault = "stmt \<Rightarrow> sql_error option"

definition no_fault :: fault where
  "no_fault = (\<lambda>_. None)"

record 'ms store_api =
  st_record :: "message \<Rightarrow> 'ms \<Rightarrow> sql_error + 'ms"
  st_delete_chat :: "str \<Rightarrow> 'ms \<Rightarrow> sql_error + 'ms"
  st_messages :: "'ms \<Rightarrow> str \<Rightarrow> nat \<Rightarrow> sql_error + message list"
  st_count :: "'ms \<Rightarrow> str \<Rightarrow> sql_error + usize"

text \<open>Opening the file: the driver's calls, in the order \<open>open\<close> makes them.\<close>

record 'ms driver_api =
  dr_open :: "str \<Rightarrow> sql_error + 'ms connection"
  dr_pragma_update :: "str \<Rightarrow> str \<Rightarrow> 'ms connection \<Rightarrow> sql_error + 'ms connection"
  dr_to_latest :: "'ms connection \<Rightarrow> sql_error + 'ms connection"
  dr_migrate_store :: "'ms connection \<Rightarrow> sql_error + 'ms connection"

definition run_stmt :: "fault \<Rightarrow> stmt \<Rightarrow> 'a \<Rightarrow> sql_error + 'a" where
  "run_stmt flt st x = (case flt st of None \<Rightarrow> Inr x | Some e \<Rightarrow> Inl e)"

text \<open>
  \<open>conn.transaction()\<close>, a body of statements, \<open>tx.commit()\<close>: an error on the way drops the
  transaction, which rolls it back.
\<close>

definition in_tx ::
  "fault \<Rightarrow> ('ms connection \<Rightarrow> sql_error + 'ms connection) \<Rightarrow> 'ms connection \<Rightarrow>
     (sql_error + unit) \<times> 'ms connection" where
  "in_tx flt body conn =
     (case and_then (run_stmt flt Begin_tx conn) (\<lambda>tx. and_then (body tx) (run_stmt flt Commit_tx)) of
        Inl e \<Rightarrow> (Inl e, conn)
      | Inr conn' \<Rightarrow> (Inr (), conn'))"

section \<open>Operations\<close>

definition LOADED_PER_CHAT :: nat where
  "LOADED_PER_CHAT = 500"

text \<open>A stored message as \<open>get_messages\<close> shows it.\<close>

definition display_message :: "message \<Rightarrow> shown_message" where
  "display_message m =
     \<lparr>dm_from_self = (m_direction m = Sent),
      dm_content = from_utf8_lossy (m_content m),
      dm_timestamp_ms = as_u64 (m_timestamp_ms m),
      dm_sender = m_sender_account m\<rparr>"

definition open_db :: "'ms driver_api \<Rightarrow> str \<Rightarrow> str \<Rightarrow> sql_error + 'ms connection" where
  "open_db dr path key =
     and_then (dr_open dr path) (\<lambda>conn.
     and_then (dr_pragma_update dr ''key'' key conn) (\<lambda>conn.
     and_then (dr_pragma_update dr ''journal_mode'' ''WAL'' conn) (\<lambda>conn.
     and_then (dr_to_latest dr conn) (\<lambda>conn.
     dr_migrate_store dr conn))))"

text \<open>\<open>SELECT ... FROM chats\<close>, row by row: its kind, its newest messages, their count.\<close>

definition session_of_row :: "str \<Rightarrow> chat_row \<Rightarrow> sql_error + chat_session" where
  "session_of_row cid row = and_then (kind_column_result (r_kind row)) (\<lambda>kind. Inr
     \<lparr>cs_chat_id = cid, cs_nickname = r_nickname row, cs_kind = kind, cs_name = r_name row,
      cs_description = r_description row, cs_peer = r_peer row, cs_messages = [],
      cs_older_messages = 0, cs_history_only = False\<rparr>)"

fun load_rows ::
  "'ms store_api \<Rightarrow> 'ms \<Rightarrow> (str \<times> chat_row) list \<Rightarrow> chat_session hash_map \<Rightarrow>
     sql_error + chat_session hash_map" where
  "load_rows api ms [] chats = Inr chats"
| "load_rows api ms ((cid, row) # rows) chats =
     and_then (session_of_row cid row) (\<lambda>session.
     and_then (st_messages api ms cid LOADED_PER_CHAT) (\<lambda>stored.
     and_then (st_count api ms cid) (\<lambda>total.
       let messages = map display_message stored;
           session = session\<lparr>cs_messages := messages,
                             cs_older_messages := total - len_usize messages\<rparr>
       in load_rows api ms rows (hm_insert cid session chats))))"

definition load_state :: "'ms store_api \<Rightarrow> fault \<Rightarrow> 'ms connection \<Rightarrow> sql_error + app_state" where
  "load_state api flt conn =
     and_then (run_stmt flt Select_chats (t_chats conn)) (\<lambda>rows.
     and_then (load_rows api (t_messages conn) rows []) (\<lambda>chats.
     and_then (run_stmt flt Select_deleted (t_deleted conn)) (\<lambda>ids.
     and_then (run_stmt flt Select_setting (hm_get (t_settings conn) ''installation_name'')) (\<lambda>name.
       Inr \<lparr>as_chats = chats, as_installation_name = name, as_deleted = set ids\<rparr>))))"

definition row_of_session :: "chat_session \<Rightarrow> chat_row" where
  "row_of_session s =
     \<lparr>r_kind = kind_to_sql (cs_kind s), r_nickname = cs_nickname s, r_name = cs_name s,
      r_description = cs_description s, r_peer = cs_peer s\<rparr>"

text \<open>\<open>CHECK (kind IN ('direct', 'group'))\<close> of the table.\<close>

definition row_check :: "chat_row \<Rightarrow> bool" where
  "row_check row \<longleftrightarrow> r_kind row \<in> {''direct'', ''group''}"

text \<open>\<open>INSERT ... ON CONFLICT (chat_id) DO UPDATE\<close> writes every column of the row.\<close>

definition save_chat :: "fault \<Rightarrow> 'ms connection \<Rightarrow> chat_session \<Rightarrow> sql_error + 'ms connection" where
  "save_chat flt conn session =
     (if row_check (row_of_session session)
      then run_stmt flt Upsert_chat
             (conn\<lparr>t_chats := hm_insert (cs_chat_id session) (row_of_session session) (t_chats conn)\<rparr>)
      else Inl (Driver ''CHECK constraint failed''))"

definition record_message ::
  "'ms store_api \<Rightarrow> fault \<Rightarrow> 'ms connection \<Rightarrow> chat_session option \<Rightarrow> message \<Rightarrow>
     (sql_error + unit) \<times> 'ms connection" where
  "record_message api flt conn session msg =
     in_tx flt (\<lambda>tx.
       and_then (case session of None \<Rightarrow> Inr tx | Some s \<Rightarrow> save_chat flt tx s) (\<lambda>tx.
       and_then (st_record api msg (t_messages tx)) (\<lambda>ms.
         Inr (tx\<lparr>t_messages := ms\<rparr>)))) conn"

text \<open>\<open>INSERT OR IGNORE\<close> keeps the tombstone that is there.\<close>

definition insert_or_ignore :: "str \<Rightarrow> str list \<Rightarrow> str list" where
  "insert_or_ignore k ks = (if k \<in> set ks then ks else ks @ [k])"

definition delete_chat ::
  "'ms store_api \<Rightarrow> fault \<Rightarrow> 'ms connection \<Rightarrow> str \<Rightarrow> (sql_error + unit) \<times> 'ms connection" where
  "delete_chat api flt conn cid =
     in_tx flt (\<lambda>tx.
       and_then (st_delete_chat api cid (t_messages tx)) (\<lambda>ms.
       and_then (run_stmt flt Delete_chat_row
                   (tx\<lparr>t_messages := ms, t_chats := hm_remove cid (t_chats tx)\<rparr>)) (\<lambda>tx.
       run_stmt flt Insert_tombstone (tx\<lparr>t_deleted := insert_or_ignore cid (t_deleted tx)\<rparr>)))) conn"

definition save_installation_name ::
  "fault \<Rightarrow> 'ms connection \<Rightarrow> str option \<Rightarrow> sql_error + 'ms connection" where
  "save_installation_name flt conn name =
     (case name of
        Some n \<Rightarrow> run_stmt flt Upsert_setting
                    (conn\<lparr>t_settings := hm_insert ''installation_name'' n (t_settings conn)\<rparr>)
      | None \<Rightarrow> run_stmt flt Delete_setting
                    (conn\<lparr>t_settings := hm_remove ''installation_name'' (t_settings conn)\<rparr>))"

section \<open>The contract of the message store\<close>

text \<open>The newest \<open>n\<close> entries of a list kept oldest first.\<close>

definition last_n :: "nat \<Rightarrow> 'a list \<Rightarrow> 'a list" where
  "last_n n xs = drop (length xs - n) xs"

definition of_chat :: "str \<Rightarrow> message list \<Rightarrow> message list" where
  "of_chat cid ms = filter (\<lambda>m. m_chat_id m = cid) ms"

text \<open>
  What the module relies on, over the list \<open>log\<close> of all recorded messages, oldest first: a record
  appends, a delete removes one chat's messages, a page is the chat's newest messages, oldest
  first, and a count counts them.
\<close>

definition store_laws :: "'ms store_api \<Rightarrow> ('ms \<Rightarrow> message list) \<Rightarrow> bool" where
  "store_laws api log \<longleftrightarrow>
     (\<forall>m s s'. st_record api m s = Inr s' \<longrightarrow> log s' = log s @ [m]) \<and>
     (\<forall>c s s'. st_delete_chat api c s = Inr s' \<longrightarrow> log s' = filter (\<lambda>m. m_chat_id m \<noteq> c) (log s)) \<and>
     (\<forall>s c n ms. st_messages api s c n = Inr ms \<longrightarrow> ms = last_n n (of_chat c (log s))) \<and>
     (\<forall>s c k. st_count api s c = Inr k \<longrightarrow> k = len_usize (of_chat c (log s)))"

text \<open>The store answers: no call on it fails.\<close>

definition store_up :: "'ms store_api \<Rightarrow> bool" where
  "store_up api \<longleftrightarrow>
     (\<forall>m s. is_ok (st_record api m s)) \<and> (\<forall>c s. is_ok (st_delete_chat api c s)) \<and>
     (\<forall>s c n. is_ok (st_messages api s c n)) \<and> (\<forall>s c. is_ok (st_count api s c))"

text \<open>A message store that keeps the list itself, for the witnesses.\<close>

definition list_store :: "message list store_api" where
  "list_store =
     \<lparr>st_record = (\<lambda>m s. Inr (s @ [m])),
      st_delete_chat = (\<lambda>c s. Inr (filter (\<lambda>m. m_chat_id m \<noteq> c) s)),
      st_messages = (\<lambda>s c n. Inr (last_n n (of_chat c s))),
      st_count = (\<lambda>s c. Inr (len_usize (of_chat c s)))\<rparr>"

section \<open>What the file holds of the state in memory\<close>

definition stored_of :: "('ms \<Rightarrow> message list) \<Rightarrow> 'ms \<Rightarrow> str \<Rightarrow> shown_message list" where
  "stored_of log ms cid = map display_message (of_chat cid (log ms))"

text \<open>
  A session shows a suffix of its stored messages and counts the rest; what it leaves out, init
  left out because a full page was loaded.
\<close>

definition history_ok :: "shown_message list \<Rightarrow> chat_session \<Rightarrow> bool" where
  "history_ok stored s \<longleftrightarrow>
     (\<exists>older. stored = older @ cs_messages s \<and> cs_older_messages s = len_usize older \<and>
        (older \<noteq> [] \<longrightarrow> LOADED_PER_CHAT \<le> length (cs_messages s)))"

definition persisted :: "('ms \<Rightarrow> message list) \<Rightarrow> 'ms connection \<Rightarrow> app_state \<Rightarrow> bool" where
  "persisted log conn st \<longleftrightarrow>
     hm_wf (t_chats conn) \<and> hm_wf (t_settings conn) \<and> hm_wf (as_chats st) \<and>
     (\<forall>cid. hm_get (t_chats conn) cid = map_option row_of_session (hm_get (as_chats st) cid)) \<and>
     (\<forall>cid s. hm_get (as_chats st) cid = Some s \<longrightarrow>
        cs_chat_id s = cid \<and> history_ok (stored_of log (t_messages conn) cid) s) \<and>
     (\<forall>m \<in> set (log (t_messages conn)). hm_contains (as_chats st) (m_chat_id m)) \<and>
     set (t_deleted conn) = as_deleted st \<and>
     hm_get (t_settings conn) ''installation_name'' = as_installation_name st"

text \<open>What a restart makes of a session: its newest page, the rest counted, no longer live.\<close>

definition reload :: "chat_session \<Rightarrow> chat_session" where
  "reload s = (let k = length (cs_messages s) - LOADED_PER_CHAT in
     s\<lparr>cs_messages := drop k (cs_messages s),
       cs_older_messages := cs_older_messages s + word_of_nat k,
       cs_history_only := False\<rparr>)"

section \<open>Lemmas\<close>

lemma run_stmt_Inr_iff: "run_stmt flt st x = Inr y \<longleftrightarrow> flt st = None \<and> y = x"
  by (auto simp: run_stmt_def split: option.splits)

lemma run_stmt_no_fault [simp]: "run_stmt no_fault st x = Inr x"
  by (simp add: run_stmt_def no_fault_def)

lemma row_check_row [simp]: "row_check (row_of_session s)"
  by (cases "cs_kind s") (simp_all add: row_check_def row_of_session_def kind_to_sql_def)

lemma save_chat_Inr_iff:
  "save_chat flt conn s = Inr conn' \<longleftrightarrow> flt Upsert_chat = None \<and>
     conn' = conn\<lparr>t_chats := hm_insert (cs_chat_id s) (row_of_session s) (t_chats conn)\<rparr>"
  by (simp add: save_chat_def run_stmt_Inr_iff)

lemma in_tx_cases:
  "in_tx flt body conn = (r, conn') \<Longrightarrow>
     (\<exists>e. r = Inl e \<and> conn' = conn) \<or> (r = Inr () \<and> body conn = Inr conn')"
  by (auto simp: in_tx_def and_then_Inr_iff run_stmt_Inr_iff split: sum.splits)

lemma in_tx_Inr: "in_tx flt body conn = (Inr u, conn') \<Longrightarrow> body conn = Inr conn'"
  by (auto dest: in_tx_cases)

lemma in_tx_Inl: "in_tx flt body conn = (Inl e, conn') \<Longrightarrow> conn' = conn"
  by (auto dest: in_tx_cases)

lemma kind_roundtrip [simp]: "kind_column_result (kind_to_sql k) = Inr k"
  by (cases k) (simp_all add: kind_column_result_def kind_to_sql_def)

lemma session_of_row_of_session:
  "cs_chat_id s = cid \<Longrightarrow> session_of_row cid (row_of_session s) =
     Inr (s\<lparr>cs_messages := [], cs_older_messages := 0, cs_history_only := False\<rparr>)"
  by (simp add: session_of_row_def row_of_session_def)

lemma of_chat_Nil [simp]: "of_chat cid [] = []"
  by (simp add: of_chat_def)

lemma of_chat_append [simp]: "of_chat cid (xs @ ys) = of_chat cid xs @ of_chat cid ys"
  by (simp add: of_chat_def)

lemma of_chat_other: "c \<noteq> cid \<Longrightarrow> of_chat cid (filter (\<lambda>m. m_chat_id m \<noteq> c) ms) = of_chat cid ms"
  by (auto simp: of_chat_def intro: filter_cong)

lemma last_n_map: "last_n n (map f xs) = map f (last_n n xs)"
  by (simp add: last_n_def drop_map)

lemma length_last_n [simp]: "length (last_n n xs) = min n (length xs)"
  by (simp add: last_n_def)

lemma take_last_n: "take (length xs - n) xs @ last_n n xs = xs"
  by (simp add: last_n_def)

lemma len_usize_append: "len_usize (xs @ ys) = len_usize xs + len_usize ys"
  by (simp add: len_usize_def)

lemma len_usize_map [simp]: "len_usize (map f xs) = len_usize xs"
  by (simp add: len_usize_def)

lemma list_store_laws: "store_laws list_store (\<lambda>s. s)" "store_up list_store"
  by (simp_all add: store_laws_def store_up_def list_store_def)

lemma store_record: "store_laws api log \<Longrightarrow> st_record api m s = Inr s' \<Longrightarrow> log s' = log s @ [m]"
  by (simp add: store_laws_def)

lemma store_delete: "store_laws api log \<Longrightarrow> st_delete_chat api c s = Inr s' \<Longrightarrow>
    log s' = filter (\<lambda>m. m_chat_id m \<noteq> c) (log s)"
  by (simp add: store_laws_def)

lemma store_page:
  assumes "store_laws api log" and "store_up api"
  shows "st_messages api s c n = Inr (last_n n (of_chat c (log s)))"
    and "st_count api s c = Inr (len_usize (of_chat c (log s)))"
proof -
  from assms(2) obtain ms k where "st_messages api s c n = Inr ms" "st_count api s c = Inr k"
    by (metis isl_def store_up_def sum.exhaust_sel)
  with assms(1) show "st_messages api s c n = Inr (last_n n (of_chat c (log s)))"
    and "st_count api s c = Inr (len_usize (of_chat c (log s)))"
    by (simp_all add: store_laws_def)
qed

lemma store_upD:
  assumes "store_up api"
  shows "\<exists>s'. st_record api m s = Inr s'" and "\<exists>s'. st_delete_chat api c s = Inr s'"
  using assms by (metis isl_def store_up_def sum.exhaust_sel)+

subsection \<open>Reading the state back\<close>

lemma reload_history:
  assumes "history_ok stored s"
  shows "cs_messages (reload s) = last_n LOADED_PER_CHAT stored"
    and "cs_older_messages (reload s) = len_usize stored - len_usize (last_n LOADED_PER_CHAT stored)"
proof -
  from assms obtain older where st: "stored = older @ cs_messages s"
    and old: "cs_older_messages s = len_usize older"
    and full: "older \<noteq> [] \<longrightarrow> LOADED_PER_CHAT \<le> length (cs_messages s)"
    by (auto simp: history_ok_def)
  show *: "cs_messages (reload s) = last_n LOADED_PER_CHAT stored"
    using full by (cases "older = []") (auto simp: reload_def last_n_def st Let_def)
  have "cs_messages s = take (length (cs_messages s) - LOADED_PER_CHAT) (cs_messages s)
      @ cs_messages (reload s)"
    by (simp add: reload_def Let_def)
  then have "stored = (older @ take (length (cs_messages s) - LOADED_PER_CHAT) (cs_messages s))
      @ last_n LOADED_PER_CHAT stored"
    using st * by simp
  then have "len_usize stored = len_usize (older @ take (length (cs_messages s) - LOADED_PER_CHAT)
      (cs_messages s)) + len_usize (last_n LOADED_PER_CHAT stored)"
    by (metis len_usize_append)
  then have "len_usize stored = cs_older_messages s
      + word_of_nat (length (cs_messages s) - LOADED_PER_CHAT) + len_usize (last_n LOADED_PER_CHAT stored)"
    by (simp add: len_usize_def old)
  then show "cs_older_messages (reload s) = len_usize stored - len_usize (last_n LOADED_PER_CHAT stored)"
    by (simp add: reload_def Let_def)
qed

lemma reload_fields [simp]:
  "cs_chat_id (reload s) = cs_chat_id s" "cs_nickname (reload s) = cs_nickname s"
  "cs_kind (reload s) = cs_kind s" "cs_name (reload s) = cs_name s"
  "cs_description (reload s) = cs_description s" "cs_peer (reload s) = cs_peer s"
  "\<not> cs_history_only (reload s)"
  by (simp_all add: reload_def Let_def)

lemma row_of_session_reload [simp]: "row_of_session (reload s) = row_of_session s"
  by (simp add: row_of_session_def)

lemma reload_history_ok: "history_ok stored s \<Longrightarrow> history_ok stored (reload s)"
proof -
  assume h: "history_ok stored s"
  let ?k = "length stored - LOADED_PER_CHAT"
  have "stored = take ?k stored @ cs_messages (reload s)"
    by (simp add: reload_history [OF h] take_last_n)
  moreover have "cs_older_messages (reload s) = len_usize (take ?k stored)"
  proof -
    have "len_usize stored = len_usize (take ?k stored) + len_usize (last_n LOADED_PER_CHAT stored)"
      by (metis len_usize_append take_last_n)
    then show ?thesis by (simp add: reload_history [OF h])
  qed
  moreover have "take ?k stored \<noteq> [] \<longrightarrow> LOADED_PER_CHAT \<le> length (cs_messages (reload s))"
    by (auto simp: reload_history [OF h])
  ultimately show ?thesis unfolding history_ok_def by blast
qed

lemma load_rows_ok:
  assumes laws: "store_laws api log" "store_up api"
    and rows: "\<And>cid row. (cid, row) \<in> set rows \<Longrightarrow> \<exists>s. chats cid = Some s \<and> cs_chat_id s = cid \<and>
      row = row_of_session s \<and> history_ok (stored_of log ms cid) s"
  shows "load_rows api ms rows acc =
    Inr (hm.put_all (map (\<lambda>(cid, _). (cid, reload (the (chats cid)))) rows) acc)"
  using rows
proof (induction rows arbitrary: acc)
  case (Cons r rows)
  obtain cid row where r: "r = (cid, row)" by (cases r)
  with Cons.prems obtain s where s: "chats cid = Some s" "cs_chat_id s = cid"
    "row = row_of_session s" "history_ok (stored_of log ms cid) s"
    by auto
  let ?stored = "stored_of log ms cid"
  have "map display_message (last_n LOADED_PER_CHAT (of_chat cid (log ms)))
      = last_n LOADED_PER_CHAT ?stored"
    by (simp add: stored_of_def last_n_map)
  moreover have "len_usize (of_chat cid (log ms)) = len_usize ?stored"
    "len_usize (last_n LOADED_PER_CHAT (of_chat cid (log ms))) = len_usize (last_n LOADED_PER_CHAT ?stored)"
    by (simp_all add: stored_of_def last_n_map)
  moreover have "reload s = s\<lparr>cs_history_only := False,
       cs_messages := last_n LOADED_PER_CHAT ?stored,
       cs_older_messages := len_usize ?stored - len_usize (last_n LOADED_PER_CHAT ?stored)\<rparr>"
    by (rule chat_session.equality) (simp_all add: reload_history [OF s(4)])
  ultimately have "load_rows api ms (r # rows) acc = load_rows api ms rows (hm_insert cid (reload s) acc)"
    by (simp add: r session_of_row_of_session [OF s(2)] s(3) store_page [OF laws] Let_def)
  also have "\<dots> = Inr (hm.put_all (map (\<lambda>(cid, _). (cid, reload (the (chats cid)))) rows)
                        (hm_insert cid (reload s) acc))"
    using Cons.prems by (intro Cons.IH) auto
  finally show ?case by (simp add: r s hm.put_all_def)
qed (simp add: hm.put_all_def)

lemma persistedD:
  assumes "persisted log conn st"
  shows "hm_wf (t_chats conn)" "hm_wf (t_settings conn)" "hm_wf (as_chats st)"
    and "hm_get (t_chats conn) cid = map_option row_of_session (hm_get (as_chats st) cid)"
    and "hm_get (as_chats st) cid = Some s \<Longrightarrow> cs_chat_id s = cid"
    and "hm_get (as_chats st) cid = Some s \<Longrightarrow> history_ok (stored_of log (t_messages conn) cid) s"
    and "m \<in> set (log (t_messages conn)) \<Longrightarrow> hm_contains (as_chats st) (m_chat_id m)"
    and "set (t_deleted conn) = as_deleted st"
    and "hm_get (t_settings conn) ''installation_name'' = as_installation_name st"
  using assms by (auto simp: persisted_def)

lemma map_of_keyed:
  "map_of (map (\<lambda>(k, _). (k, f k)) rows) k = map_option (\<lambda>_. f k) (map_of rows k)"
  by (induction rows) auto

text \<open>The state a restart reads back: every chat reloaded, tombstones and name as they were.\<close>

lemma load_state_persisted:
  assumes laws: "store_laws api log" "store_up api" and p: "persisted log conn st"
  shows "\<exists>st'. load_state api no_fault conn = Inr st' \<and> persisted log conn st' \<and>
    (\<forall>cid. hm_get (as_chats st') cid = map_option reload (hm_get (as_chats st) cid)) \<and>
    as_deleted st' = as_deleted st \<and> as_installation_name st' = as_installation_name st"
proof -
  let ?kvs = "map (\<lambda>(cid, _). (cid, reload (the (hm_get (as_chats st) cid)))) (t_chats conn)"
  let ?chats = "hm.put_all ?kvs []"
  have "load_rows api (t_messages conn) (t_chats conn) [] = Inr ?chats"
  proof (rule load_rows_ok [OF laws])
    fix cid row assume "(cid, row) \<in> set (t_chats conn)"
    then have "hm_get (t_chats conn) cid = Some row"
      using persistedD(1) [OF p] by (simp add: hm_get_iff_in)
    then show "\<exists>s. hm_get (as_chats st) cid = Some s \<and> cs_chat_id s = cid \<and>
        row = row_of_session s \<and> history_ok (stored_of log (t_messages conn) cid) s"
      using persistedD(4-6) [OF p, of cid] by auto
  qed
  moreover have get: "hm_get ?chats cid = map_option reload (hm_get (as_chats st) cid)" for cid
  proof -
    have "map_of ?kvs cid = map_option (\<lambda>_. reload (the (hm_get (as_chats st) cid))) (map_of (t_chats conn) cid)"
      by (rule map_of_keyed)
    moreover have "distinct (map fst ?kvs)"
      using persistedD(1) [OF p] by (simp add: hm_wf_def comp_def case_prod_unfold)
    ultimately have "hm_get ?chats cid =
        map_option (\<lambda>_. reload (the (hm_get (as_chats st) cid))) (hm_get (t_chats conn) cid)"
      by (simp add: hm.get_put_all_distinct hm_get_def [of "t_chats conn"] split: option.split)
    then show ?thesis using persistedD(4) [OF p, of cid] by (simp add: option.map_comp comp_def)
      (cases "hm_get (as_chats st) cid", simp_all)
  qed
  ultimately have "load_state api no_fault conn =
      Inr \<lparr>as_chats = ?chats, as_installation_name = as_installation_name st, as_deleted = as_deleted st\<rparr>"
    (is "_ = Inr ?st'")
    using persistedD(8,9) [OF p] by (simp add: load_state_def)
  moreover have "persisted log conn ?st'"
    using p get by (auto simp: persisted_def hm.wf_put_all option.map_comp comp_def
        hm_contains_def reload_history_ok)
  ultimately show ?thesis using get by auto
qed

subsection \<open>The writes\<close>

lemma history_ok_append:
  "history_ok stored s \<Longrightarrow> history_ok (stored @ [x]) (s\<lparr>cs_messages := cs_messages s @ [x]\<rparr>)"
  by (auto simp: history_ok_def)

lemma history_ok_cong:
  "cs_messages s' = cs_messages s \<Longrightarrow> cs_older_messages s' = cs_older_messages s \<Longrightarrow>
     history_ok stored s' = history_ok stored s"
  by (simp add: history_ok_def)

lemma history_ok_empty: "cs_messages s = [] \<Longrightarrow> cs_older_messages s = 0 \<Longrightarrow> history_ok [] s"
  by (simp add: history_ok_def len_usize_def)

text \<open>An unknown chat has no stored messages.\<close>

lemma stored_of_unknown:
  "persisted log conn st \<Longrightarrow> hm_get (as_chats st) cid = None \<Longrightarrow> stored_of log (t_messages conn) cid = []"
  by (force simp: stored_of_def of_chat_def filter_empty_conv hm_contains_def dest: persistedD(7))

lemma persisted_put:
  assumes p: "persisted log conn st" and s: "cs_chat_id s = cid"
    and h: "history_ok (stored_of log (t_messages conn) cid) s"
  shows "persisted log (conn\<lparr>t_chats := hm_insert cid (row_of_session s) (t_chats conn)\<rparr>)
    (st\<lparr>as_chats := hm_insert cid s (as_chats st)\<rparr>)"
  using p s h by (auto simp: persisted_def hm_simps hm_contains_def)

lemma persisted_history_only:
  assumes p: "persisted log conn st" and s: "hm_get (as_chats st) cid = Some s"
  shows "persisted log conn
    (st\<lparr>as_chats := hm_insert cid (s\<lparr>cs_history_only := b\<rparr>) (as_chats st)\<rparr>)"
proof -
  have "row_of_session (s\<lparr>cs_history_only := b\<rparr>) = row_of_session s"
    by (simp add: row_of_session_def)
  moreover have "history_ok stored (s\<lparr>cs_history_only := b\<rparr>) = history_ok stored s" for stored
    by (rule history_ok_cong) simp_all
  ultimately show ?thesis
    using p s by (auto simp: persisted_def hm_simps hm_contains_def)
qed

lemma persisted_history_flags:
  assumes p: "persisted log conn st"
  shows "persisted log conn
    (st\<lparr>as_chats := hm_map_values (\<lambda>s. s\<lparr>cs_history_only := b s\<rparr>) (as_chats st)\<rparr>)"
proof -
  have "row_of_session (s\<lparr>cs_history_only := x\<rparr>) = row_of_session s" for s x
    by (simp add: row_of_session_def)
  moreover have "history_ok stored (s\<lparr>cs_history_only := x\<rparr>) = history_ok stored s" for stored s x
    by (rule history_ok_cong) simp_all
  ultimately show ?thesis
    using p by (auto simp: persisted_def hm_contains_def option.map_comp comp_def)
qed

lemma persisted_message:
  assumes p: "persisted log conn st" and s: "hm_get (as_chats st) (m_chat_id m) = Some s"
    and l: "log ms' = log (t_messages conn) @ [m]"
  shows "persisted log (conn\<lparr>t_messages := ms'\<rparr>)
    (st\<lparr>as_chats := hm_insert (m_chat_id m)
        (s\<lparr>cs_messages := cs_messages s @ [display_message m]\<rparr>) (as_chats st)\<rparr>)"
proof -
  let ?s = "s\<lparr>cs_messages := cs_messages s @ [display_message m]\<rparr>"
  have "row_of_session ?s = row_of_session s" by (simp add: row_of_session_def)
  moreover have "stored_of log ms' cid = stored_of log (t_messages conn) cid
      @ (if cid = m_chat_id m then [display_message m] else [])" for cid
    by (auto simp: stored_of_def l of_chat_def)
  ultimately show ?thesis
    using p s l by (auto simp: persisted_def hm_simps hm_contains_def history_ok_append)
qed

lemma persisted_delete:
  assumes p: "persisted log conn st"
    and l: "log ms' = filter (\<lambda>m. m_chat_id m \<noteq> cid) (log (t_messages conn))"
  shows "persisted log
    (conn\<lparr>t_messages := ms', t_chats := hm_remove cid (t_chats conn),
          t_deleted := insert_or_ignore cid (t_deleted conn)\<rparr>)
    (st\<lparr>as_chats := hm_remove cid (as_chats st), as_deleted := insert cid (as_deleted st)\<rparr>)"
proof -
  have "stored_of log ms' c = stored_of log (t_messages conn) c" if "c \<noteq> cid" for c
    using that by (simp add: stored_of_def l of_chat_other)
  then show ?thesis
    using p l by (auto simp: persisted_def hm_simps hm_contains_def insert_or_ignore_def)
qed

lemma persisted_name:
  assumes p: "persisted log conn st" and w: "save_installation_name flt conn name = Inr conn'"
  shows "persisted log conn' (st\<lparr>as_installation_name := name\<rparr>)"
  using p w by (auto simp: persisted_def save_installation_name_def run_stmt_Inr_iff hm_simps
      split: option.splits)

text \<open>The tables after a successful \<open>record_message\<close> and \<open>delete_chat\<close>.\<close>

lemma record_message_Inr:
  assumes "store_laws api log" and "record_message api flt conn session m = (Inr u, conn')"
  shows "\<exists>ms'. log ms' = log (t_messages conn) @ [m] \<and>
    conn' = (case session of None \<Rightarrow> conn
      | Some s \<Rightarrow> conn\<lparr>t_chats := hm_insert (cs_chat_id s) (row_of_session s) (t_chats conn)\<rparr>)
        \<lparr>t_messages := ms'\<rparr>"
proof -
  from in_tx_Inr [OF assms(2) [unfolded record_message_def]] obtain tx ms' where
    "(case session of None \<Rightarrow> Inr conn | Some s \<Rightarrow> save_chat flt conn s) = Inr tx"
    "st_record api m (t_messages tx) = Inr ms'" "conn' = tx\<lparr>t_messages := ms'\<rparr>"
    by (auto simp: and_then_Inr_iff)
  moreover from this have "log ms' = log (t_messages conn) @ [m]"
    using store_record [OF assms(1)] by (auto simp: save_chat_Inr_iff split: option.splits)
  ultimately show ?thesis
    by (intro exI [of _ ms']) (auto simp: save_chat_Inr_iff split: option.splits)
qed

lemma delete_chat_Inr:
  assumes "store_laws api log" and "delete_chat api flt conn cid = (Inr u, conn')"
  shows "\<exists>ms'. log ms' = filter (\<lambda>m. m_chat_id m \<noteq> cid) (log (t_messages conn)) \<and>
    conn' = conn\<lparr>t_messages := ms', t_chats := hm_remove cid (t_chats conn),
          t_deleted := insert_or_ignore cid (t_deleted conn)\<rparr>"
proof -
  from in_tx_Inr [OF assms(2) [unfolded delete_chat_def]] obtain ms' where
    "st_delete_chat api cid (t_messages conn) = Inr ms'"
    "conn' = conn\<lparr>t_messages := ms', t_chats := hm_remove cid (t_chats conn),
          t_deleted := insert_or_ignore cid (t_deleted conn)\<rparr>"
    by (auto simp: and_then_Inr_iff run_stmt_Inr_iff)
  then show ?thesis using store_delete [OF assms(1)] by blast
qed

text \<open>With a store that answers and no failing statement, the writes succeed.\<close>

lemma record_message_up: "store_up api \<Longrightarrow> fst (record_message api no_fault conn session m) = Inr ()"
  using store_upD(1) [of api m "t_messages conn"]
  by (auto simp: record_message_def in_tx_def save_chat_def split: option.split)

lemma delete_chat_up: "store_up api \<Longrightarrow> fst (delete_chat api no_fault conn cid) = Inr ()"
  using store_upD(2) [of api cid "t_messages conn"] by (auto simp: delete_chat_def in_tx_def)

end
