(* ===== verification/Delivery.thy ===== *)
theory Delivery
  imports Prelude
begin

text \<open>
  \<open>rust-lib/src/delivery.rs\<close>: the content-topic scheme, the verdict of a delivery_module call,
  and the \<open>DeliveryService\<close>/\<open>Transport\<close> implementations that bridge the client to
  delivery_module.  The trait \<open>DeliveryService\<close> is the locale \<open>delivery_service\<close>, interpreted
  for both implementors.  How a JSON value prints (\<open>serde_json\<close>) is a parameter.
\<close>

section \<open>JSON values\<close>

datatype json = JNull | JBool bool | JNum int | JStr str | JArr "json list" | JObj "(str \<times> json) list"

text \<open>\<open>Value::get\<close> with a string key, \<open>as_bool\<close>, \<open>as_str\<close>; \<open>take\<close> with a default is null.\<close>

fun json_get :: "json \<Rightarrow> str \<Rightarrow> json option" where
  "json_get (JObj kvs) k = map_of kvs k"
| "json_get _ k = None"

fun as_bool :: "json \<Rightarrow> bool option" where
  "as_bool (JBool b) = Some b"
| "as_bool _ = None"

fun as_str :: "json \<Rightarrow> str option" where
  "as_str (JStr s) = Some s"
| "as_str _ = None"

section \<open>Topics and verdicts\<close>

definition TOPIC_PREFIX :: str where
  "TOPIC_PREFIX = ''/logos-chat/1/''"

definition content_topic_for :: "str \<Rightarrow> str" where
  "content_topic_for delivery_address = TOPIC_PREFIX @ delivery_address @ ''/proto''"

definition delivery_outcome :: "(json \<Rightarrow> str) \<Rightarrow> str + json \<Rightarrow> str + json" where
  "delivery_outcome render res = and_then res (\<lambda>envelope.
     case Option.bind (json_get envelope ''success'') as_bool of
       Some True \<Rightarrow> Inr (unwrap_or (json_get envelope ''value'') JNull)
     | Some False \<Rightarrow> Inl (unwrap_or
         (opt_filter (\<lambda>reason. reason \<noteq> [])
           (Option.bind (json_get envelope ''error'') as_str)) ''no reason given'')
     | None \<Rightarrow> Inl (''not a result envelope: '' @ render envelope))"

section \<open>The transport\<close>

text \<open>
  A crossbeam channel: the queued items, and whether the receiver still exists.  \<open>send\<close> fails
  only when it does not.
\<close>

record 'a channel =
  ch_queue :: "'a list"
  ch_receiver :: bool

definition unbounded :: "'a channel" where
  "unbounded = \<lparr>ch_queue = [], ch_receiver = True\<rparr>"

definition channel_send :: "'a \<Rightarrow> 'a channel \<Rightarrow> (str + unit) \<times> 'a channel" where
  "channel_send x ch =
     (if ch_receiver ch then (Inr (), ch\<lparr>ch_queue := ch_queue ch @ [x]\<rparr>)
      else (Inl ''sending on a disconnected channel'', ch))"

record addressed_envelope =
  ae_delivery_address :: str
  ae_data :: bytes

text \<open>
  What publishing acts on: the subscription channel to the inbound worker, and the asynchronous
  \<open>send\<close> calls handed to delivery_module, oldest first.
\<close>

record sdk_publisher =
  sp_subscribe_tx :: "str channel"
  sp_sends :: "(str \<times> bytes) list"

definition publisher_publish ::
  "addressed_envelope \<Rightarrow> sdk_publisher \<Rightarrow> (str + unit) \<times> sdk_publisher" where
  "publisher_publish envelope p =
     (let topic = content_topic_for (ae_delivery_address envelope)
      in (Inr (), p\<lparr>sp_sends := sp_sends p @ [(topic, ae_data envelope)]\<rparr>))"

definition publisher_subscribe :: "str \<Rightarrow> sdk_publisher \<Rightarrow> (str + unit) \<times> sdk_publisher" where
  "publisher_subscribe delivery_address p =
     (let (r, ch) = channel_send (content_topic_for delivery_address) (sp_subscribe_tx p)
      in (r, p\<lparr>sp_subscribe_tx := ch\<rparr>))"

text \<open>\<open>SdkDelivery\<close>: the publisher and the inbound receiver, which is handed out once.\<close>

record 'rx sdk_delivery =
  sd_inbound_rx :: "'rx option"
  sd_publisher :: sdk_publisher

definition sdk_delivery_new :: "'rx \<Rightarrow> str channel \<Rightarrow> 'rx sdk_delivery" where
  "sdk_delivery_new inbound_rx subscribe_tx =
     \<lparr>sd_inbound_rx = Some inbound_rx,
      sd_publisher = \<lparr>sp_subscribe_tx = subscribe_tx, sp_sends = []\<rparr>\<rparr>"

definition sdk_delivery_publisher :: "'rx sdk_delivery \<Rightarrow> sdk_publisher" where
  "sdk_delivery_publisher d = sd_publisher d"

definition delivery_publish ::
  "addressed_envelope \<Rightarrow> 'rx sdk_delivery \<Rightarrow> (str + unit) \<times> 'rx sdk_delivery" where
  "delivery_publish envelope d =
     (let (r, p) = publisher_publish envelope (sd_publisher d) in (r, d\<lparr>sd_publisher := p\<rparr>))"

definition delivery_subscribe :: "str \<Rightarrow> 'rx sdk_delivery \<Rightarrow> (str + unit) \<times> 'rx sdk_delivery" where
  "delivery_subscribe delivery_address d =
     (let (r, p) = publisher_subscribe delivery_address (sd_publisher d) in (r, d\<lparr>sd_publisher := p\<rparr>))"

text \<open>\<open>Transport::inbound\<close>: \<open>None\<close> is the panic of its second call.\<close>

definition delivery_inbound :: "'rx sdk_delivery \<Rightarrow> ('rx \<times> 'rx sdk_delivery) option" where
  "delivery_inbound d = map_option (\<lambda>rx. (rx, d\<lparr>sd_inbound_rx := None\<rparr>)) (sd_inbound_rx d)"

section \<open>The delivery boundary as an interface\<close>

text \<open>The calls the client makes on its transport.\<close>

datatype transport_call = Publish addressed_envelope | Subscribe_to str

fun published :: "transport_call \<Rightarrow> (str \<times> bytes) list" where
  "published (Publish e) = [(content_topic_for (ae_delivery_address e), ae_data e)]"
| "published (Subscribe_to a) = []"

fun requested :: "transport_call \<Rightarrow> str list" where
  "requested (Publish e) = []"
| "requested (Subscribe_to a) = [content_topic_for a]"

locale delivery_service =
  fixes publish :: "addressed_envelope \<Rightarrow> 's \<Rightarrow> (str + unit) \<times> 's"
    and subscribe :: "str \<Rightarrow> 's \<Rightarrow> (str + unit) \<times> 's"
    and sends :: "'s \<Rightarrow> (str \<times> bytes) list"
    and queued :: "'s \<Rightarrow> str list"
    and listening :: "'s \<Rightarrow> bool"
  assumes publish_ok: "fst (publish e s) = Inr ()"
    and publish_sends: "sends (snd (publish e s)) = sends s @ published (Publish e)"
    and publish_frame: "queued (snd (publish e s)) = queued s" "listening (snd (publish e s)) = listening s"
    and subscribe_ok: "listening s \<Longrightarrow> fst (subscribe a s) = Inr ()"
    and subscribe_err: "\<not> listening s \<Longrightarrow> isl (fst (subscribe a s))"
    and subscribe_queued: "queued (snd (subscribe a s)) =
          queued s @ (if listening s then requested (Subscribe_to a) else [])"
    and subscribe_frame: "sends (snd (subscribe a s)) = sends s"
          "listening (snd (subscribe a s)) = listening s"
begin

text \<open>The state after one call, and after a run of calls.\<close>

fun call :: "'s \<Rightarrow> transport_call \<Rightarrow> 's" where
  "call s (Publish e) = snd (publish e s)"
| "call s (Subscribe_to a) = snd (subscribe a s)"

definition calls :: "transport_call list \<Rightarrow> 's \<Rightarrow> 's" where
  "calls cs s = foldl call s cs"

lemma listening_calls [simp]: "listening (calls cs s) = listening s"
  unfolding calls_def
proof (induction cs arbitrary: s)
  case (Cons c cs)
  then show ?case by (cases c) (simp_all add: publish_frame subscribe_frame)
qed simp

lemma sends_calls: "sends (calls cs s) = sends s @ concat (map published cs)"
  unfolding calls_def
proof (induction cs arbitrary: s)
  case (Cons c cs)
  then show ?case by (cases c) (simp_all add: publish_sends subscribe_frame)
qed simp

lemma queued_calls:
  "queued (calls cs s) = queued s @ (if listening s then concat (map requested cs) else [])"
  unfolding calls_def
proof (induction cs arbitrary: s)
  case (Cons c cs)
  then show ?case by (cases c) (simp_all add: publish_frame subscribe_frame subscribe_queued)
qed simp

end

interpretation publisher: delivery_service publisher_publish publisher_subscribe sp_sends
  "\<lambda>p. ch_queue (sp_subscribe_tx p)" "\<lambda>p. ch_receiver (sp_subscribe_tx p)"
  by unfold_locales
    (simp_all add: publisher_publish_def publisher_subscribe_def channel_send_def Let_def)

interpretation sdk: delivery_service delivery_publish delivery_subscribe
  "\<lambda>d. sp_sends (sd_publisher d)" "\<lambda>d. ch_queue (sp_subscribe_tx (sd_publisher d))"
  "\<lambda>d. ch_receiver (sp_subscribe_tx (sd_publisher d))"
  by unfold_locales
    (simp_all add: delivery_publish_def delivery_subscribe_def publisher_publish_def
      publisher_subscribe_def channel_send_def Let_def)

section \<open>Lemmas\<close>

lemma prefix_content_topic [simp]: "prefix TOPIC_PREFIX (content_topic_for a)"
  by (simp add: content_topic_for_def)

lemma content_topic_for_inject [simp]: "content_topic_for a = content_topic_for b \<longleftrightarrow> a = b"
  by (simp add: content_topic_for_def)

lemma outcome_call_failed [simp]: "delivery_outcome render (Inl e) = Inl e"
  by (simp add: delivery_outcome_def)

text \<open>The envelope delivery_module answers with.\<close>

definition envelope :: "bool \<Rightarrow> json \<Rightarrow> json \<Rightarrow> json" where
  "envelope success v err = JObj [(''success'', JBool success), (''value'', v), (''error'', err)]"

lemma outcome_success [simp]: "delivery_outcome render (Inr (envelope True v err)) = Inr v"
  by (simp add: delivery_outcome_def envelope_def)

lemma outcome_refused:
  "delivery_outcome render (Inr (envelope False v err)) =
     Inl (case err of JStr r \<Rightarrow> if r = [] then ''no reason given'' else r | _ \<Rightarrow> ''no reason given'')"
  by (cases err) (simp_all add: delivery_outcome_def envelope_def)

end
