(* ===== verification/Inbound_State.thy ===== *)
theory Inbound_State
  imports Delivery
begin

text \<open>
  The state of the bridge worker of \<open>rust-lib/src/inbound.rs\<close>: the set of recently forwarded
  message hashes (\<open>SeenMessages\<close>), the event subscriptions it polls, and the ends of the two
  channels it serves.  The workers themselves are in theory Inbound.
\<close>

section \<open>Recently seen messages\<close>

definition SEEN_CAPACITY :: nat where
  "SEEN_CAPACITY = 10000"

record seen_messages =
  sm_hashes :: "str set"
  sm_order :: "str list"

definition seen_default :: seen_messages where
  "seen_default = \<lparr>sm_hashes = {}, sm_order = []\<rparr>"

definition first_sighting :: "str \<Rightarrow> seen_messages \<Rightarrow> bool \<times> seen_messages" where
  "first_sighting hash s =
     (if hash \<in> sm_hashes s then (False, s)
      else let s = (if length (sm_order s) = SEEN_CAPACITY then
                      (case sm_order s of
                         [] \<Rightarrow> s
                       | oldest # rest \<Rightarrow>
                           s\<lparr>sm_order := rest, sm_hashes := sm_hashes s - {oldest}\<rparr>)
                    else s)
           in (True, s\<lparr>sm_hashes := insert hash (sm_hashes s), sm_order := sm_order s @ [hash]\<rparr>))"

section \<open>Subscriptions and the bridge\<close>

text \<open>
  An event of delivery_module as the SDK hands it over: a name and its JSON arguments.  A
  subscription is an mpsc receiver: the events waiting in it, and whether its sender still exists.
\<close>

record event_data =
  ev_name :: str
  ev_args :: json

record subscription =
  sub_queue :: "event_data list"
  sub_connected :: bool

datatype 'a recv_outcome = Received_item 'a | Empty | Disconnected

definition try_recv :: "subscription \<Rightarrow> event_data recv_outcome \<times> subscription" where
  "try_recv sub = (case sub_queue sub of
     x # rest \<Rightarrow> (Received_item x, sub\<lparr>sub_queue := rest\<rparr>)
   | [] \<Rightarrow> (if sub_connected sub then Empty else Disconnected, sub))"

record bridge =
  b_stop :: bool
  b_messages :: subscription
  b_node_started :: "subscription option"
  b_conn :: "subscription option"
  b_seen :: seen_messages
  b_inbound_tx :: "bytes channel"
  b_subscribe_rx :: "str channel"

text \<open>\<open>spawn_bridge\<close>: the state the worker's loop starts from.\<close>

definition spawn_bridge ::
  "subscription \<Rightarrow> subscription \<Rightarrow> subscription option \<Rightarrow> bytes channel \<Rightarrow> str channel \<Rightarrow> bridge" where
  "spawn_bridge messages node_started conn inbound_tx subscribe_rx =
     \<lparr>b_stop = False, b_messages = messages, b_node_started = Some node_started, b_conn = conn,
      b_seen = seen_default, b_inbound_tx = inbound_tx, b_subscribe_rx = subscribe_rx\<rparr>"

section \<open>The duplicate filter as an interface\<close>

text \<open>
  What \<open>forward_message\<close> needs of the filter: it remembers a window of hashes, says yes exactly to
  a hash outside it, and then has it inside.  The locale shows what any client can conclude about
  a run of messages.
\<close>

locale duplicate_filter =
  fixes sight :: "'h \<Rightarrow> 's \<Rightarrow> bool \<times> 's"
    and window :: "'s \<Rightarrow> 'h list"
    and inv :: "'s \<Rightarrow> bool"
    and capacity :: nat
  assumes capacity_pos: "0 < capacity"
    and sight_verdict: "inv s \<Longrightarrow> fst (sight h s) \<longleftrightarrow> h \<notin> set (window s)"
    and sight_repeat: "inv s \<Longrightarrow> h \<in> set (window s) \<Longrightarrow> snd (sight h s) = s"
    and sight_first: "inv s \<Longrightarrow> h \<notin> set (window s) \<Longrightarrow>
          window (snd (sight h s)) =
            (if length (window s) = capacity then tl (window s) else window s) @ [h]"
    and inv_sight: "inv s \<Longrightarrow> inv (snd (sight h s))"
    and inv_window: "inv s \<Longrightarrow> distinct (window s) \<and> length (window s) \<le> capacity"
begin

text \<open>The hashes of a run that pass, and the state after it.\<close>

fun passed :: "'h list \<Rightarrow> 's \<Rightarrow> 'h list" where
  "passed [] s = []"
| "passed (h # hs) s = (let (first, s') = sight h s in (if first then [h] else []) @ passed hs s')"

fun after :: "'h list \<Rightarrow> 's \<Rightarrow> 's" where
  "after [] s = s"
| "after (h # hs) s = after hs (snd (sight h s))"

lemma inv_after: "inv s \<Longrightarrow> inv (after hs s)"
  by (induction hs arbitrary: s) (auto simp: inv_sight)

text \<open>Dropping the oldest hash does not change what the last \<open>capacity\<close> of a longer run are.\<close>

lemma slide:
  "drop (length (((if length w = capacity then tl w else w) @ [g]) @ xs) - capacity)
        (((if length w = capacity then tl w else w) @ [g]) @ xs)
   = drop (length (w @ g # xs) - capacity) (w @ g # xs)"
proof (cases "length w = capacity")
  case True
  then obtain x v where "w = x # v" using capacity_pos by (cases w) auto
  with True show ?thesis by (simp add: Suc_diff_le flip: True)
qed simp

text \<open>The window holds the last \<open>capacity\<close> hashes that passed.\<close>

lemma window_after:
  "inv s \<Longrightarrow> window (after hs s) =
     (let all = window s @ passed hs s in drop (length all - capacity) all)"
proof (induction hs arbitrary: s)
  case Nil
  then show ?case using inv_window [of s] by simp
next
  case (Cons h hs)
  let ?s' = "snd (sight h s)"
  show ?case
  proof (cases "h \<in> set (window s)")
    case True
    with Cons show ?thesis by (simp add: sight_verdict sight_repeat case_prod_unfold)
  next
    case False
    have IH: "window (after hs ?s') =
        (let all = window ?s' @ passed hs ?s' in drop (length all - capacity) all)"
      by (rule Cons.IH) (rule inv_sight [OF Cons.prems])
    have w: "window ?s' = (if length (window s) = capacity then tl (window s) else window s) @ [h]"
      by (rule sight_first [OF Cons.prems False])
    from False Cons.prems have "passed (h # hs) s = h # passed hs ?s'"
      by (simp add: sight_verdict case_prod_unfold)
    with IH show ?thesis
      using slide [of "window s" h "passed hs ?s'"] by (simp only: Let_def w after.simps)
  qed
qed

text \<open>Every hash of a run is in the window at its start or passes.\<close>

lemma set_passed: "inv s \<Longrightarrow> set (window s) \<union> set (passed hs s) = set (window s) \<union> set hs"
proof (induction hs arbitrary: s)
  case (Cons h hs)
  show ?case
  proof (cases "h \<in> set (window s)")
    case True
    with Cons show ?thesis by (auto simp: sight_verdict sight_repeat case_prod_unfold)
  next
    case False
    let ?s' = "snd (sight h s)"
    have "set (window ?s') \<union> set (passed hs ?s') = set (window ?s') \<union> set hs"
      by (rule Cons.IH) (rule inv_sight [OF Cons.prems])
    moreover have "set (window ?s') \<subseteq> insert h (set (window s))"
      using sight_first [OF Cons.prems False] by (cases "window s") auto
    ultimately show ?thesis
      using False Cons.prems by (auto simp: sight_verdict case_prod_unfold)
  qed
qed simp

text \<open>A hash that passes is none of the last \<open>capacity\<close> that passed before it.\<close>

lemma passed_fresh:
  assumes "inv s" and "passed hs s = xs @ h # ys"
  shows "h \<notin> set (let all = window s @ xs in drop (length all - capacity) all)"
  using assms
proof (induction hs arbitrary: s xs)
  case (Cons g hs)
  let ?s' = "snd (sight g s)"
  have inv': "inv ?s'" by (rule inv_sight [OF Cons.prems(1)])
  show ?case
  proof (cases "g \<in> set (window s)")
    case True
    with Cons show ?thesis by (simp add: sight_verdict sight_repeat case_prod_unfold)
  next
    case False
    then have p: "passed (g # hs) s = g # passed hs ?s'"
      using Cons.prems(1) by (simp add: sight_verdict case_prod_unfold)
    show ?thesis
    proof (cases xs)
      case Nil
      with p Cons.prems False inv_window [OF Cons.prems(1)] show ?thesis by simp
    next
      case (Cons x xs')
      with p Cons.prems have g: "x = g" and r: "passed hs ?s' = xs' @ h # ys" by auto
      have "h \<notin> set (let all = window ?s' @ xs' in drop (length all - capacity) all)"
        by (rule Cons.IH [OF inv' r])
      moreover have "window ?s' = (if length (window s) = capacity then tl (window s) else window s) @ [g]"
        by (rule sight_first [OF Cons.prems(1) False])
      ultimately show ?thesis
        using slide [of "window s" g xs'] Cons g by (simp only: Let_def simp_thms)
    qed
  qed
qed simp

end

definition seen_inv :: "seen_messages \<Rightarrow> bool" where
  "seen_inv s \<longleftrightarrow> sm_hashes s = set (sm_order s) \<and> distinct (sm_order s) \<and>
     length (sm_order s) \<le> SEEN_CAPACITY"

lemma seen_inv_default [simp]: "seen_inv seen_default"
  by (simp add: seen_inv_def seen_default_def)

lemma seen_inv_first_sighting: "seen_inv s \<Longrightarrow> seen_inv (snd (first_sighting h s))"
  by (auto simp: seen_inv_def first_sighting_def Let_def SEEN_CAPACITY_def split: list.split)

interpretation seen: duplicate_filter first_sighting sm_order seen_inv SEEN_CAPACITY
proof (unfold_locales, goal_cases)
  case (5 s h)
  then show ?case by (rule seen_inv_first_sighting)
qed (auto simp: seen_inv_def first_sighting_def Let_def SEEN_CAPACITY_def split: list.split)

end
