(* ===== verification/Module_State.thy ===== *)
theory Module_State
  imports Persistence Inbound_State
begin

text \<open>
  \<open>rust-lib/src/module.rs\<close>: the delivery state, the two pieces of shared state behind their
  locks (the module handle with the client, the display), and the pure helpers.  The record
  \<open>world\<close> gathers everything a handler reads or writes: both lock-guarded states, the static
  \<open>OWN_NODE_PRESET\<close> of \<open>actions.rs\<close>, the asynchronous delivery_module calls whose callback has
  not run yet, the events emitted over IPC and the lines logged through \<open>tracing\<close>, oldest first.
\<close>

section \<open>Delivery state\<close>

datatype delivery_state_kind = Initialising | Online | Error | Stopped

fun state_as_str :: "delivery_state_kind \<Rightarrow> str" where
  "state_as_str Initialising = ''initialising''"
| "state_as_str Online = ''online''"
| "state_as_str Error = ''error''"
| "state_as_str Stopped = ''stopped''"

record delivery_state =
  ds_state :: delivery_state_kind
  ds_detail :: str
  ds_starting :: bool
  ds_started :: bool
  ds_adopted :: bool

definition ds_initialising :: delivery_state where
  "ds_initialising =
     \<lparr>ds_state = Initialising, ds_detail = [], ds_starting = False, ds_started = False,
      ds_adopted = False\<rparr>"

definition ds_stopped :: delivery_state where
  "ds_stopped =
     \<lparr>ds_state = Stopped, ds_detail = [], ds_starting = False, ds_started = False,
      ds_adopted = False\<rparr>"

section \<open>Module state (client lock)\<close>

text \<open>
  \<open>'c\<close> is the state of libchat's client.  A worker handle is present until it is joined; the
  bridge's handle carries the state of its thread.
\<close>

record 'c module_state =
  ms_client :: 'c
  ms_inbound_thread :: "bridge option"
  ms_event_thread :: "unit option"

datatype lock_poisoned = LockPoisoned

text \<open>\<open>Mutex<Option<ModuleState>>\<close>: locking fails when a holder panicked.\<close>

record 'c module_handle =
  mh_poisoned :: bool
  mh_inner :: "'c module_state option"

definition module_handle_new :: "'c module_handle" where
  "module_handle_new = \<lparr>mh_poisoned = False, mh_inner = None\<rparr>"

datatype install_outcome = Installed | AlreadyInstalled

section \<open>Display (display lock)\<close>

record 'ms display =
  d_state :: app_state
  d_chat_db :: "'ms connection option"
  d_delivery_state :: delivery_state
  d_intrinsic_name :: str
  d_address :: str

definition default_display :: "'ms display" where
  "default_display =
     \<lparr>d_state = default_app_state, d_chat_db = None, d_delivery_state = ds_stopped,
      d_intrinsic_name = [], d_address = []\<rparr>"

section \<open>What leaves the module\<close>

text \<open>The events of the contract \<open>chat_module.lidl\<close>.\<close>

datatype event =
    Conversation_created str bool str str str str
  | Conversation_updated str
  | Conversation_deleted str
  | Message_received str str i64 str
  | Message_sent str str i64
  | Members_changed str
  | Delivery_state_changed str str bool

text \<open>
  An asynchronous call handed to delivery_module, with what its completion callback captured:
  \<open>createNode\<close> with its config and the preset, \<open>getNodeInfo\<close> with the preset and createNode's
  refusal, \<open>start\<close>, \<open>send\<close>, \<open>subscribe\<close>.
\<close>

datatype delivery_call =
    Create_node json str
  | Get_node_info str str str
  | Start
  | Send str bytes
  | Subscribe str

record ('c, 'ms) world =
  w_module :: "'c module_handle"
  w_display :: "'ms display"
  w_own_node_preset :: "str option"
  w_pending :: "delivery_call list"
  w_events :: "event list"
  w_log :: "log_line list"

definition initial_world :: "('c, 'ms) world" where
  "initial_world =
     \<lparr>w_module = module_handle_new, w_display = default_display, w_own_node_preset = None,
      w_pending = [], w_events = [], w_log = []\<rparr>"

definition emit :: "event \<Rightarrow> ('c, 'ms) world \<Rightarrow> ('c, 'ms) world" where
  "emit e w = w\<lparr>w_events := w_events w @ [e]\<rparr>"

definition log_at :: "level \<Rightarrow> str \<Rightarrow> ('c, 'ms) world \<Rightarrow> ('c, 'ms) world" where
  "log_at l line w = w\<lparr>w_log := w_log w @ [(l, line)]\<rparr>"

definition hand_over :: "delivery_call \<Rightarrow> ('c, 'ms) world \<Rightarrow> ('c, 'ms) world" where
  "hand_over c w = w\<lparr>w_pending := w_pending w @ [c]\<rparr>"

section \<open>Operations\<close>

text \<open>\<open>ModuleHandle::with_state_mut\<close>, \<open>install_with\<close>, \<open>take\<close>.\<close>

definition with_state_mut ::
  "('c module_state \<Rightarrow> 'r \<times> 'c module_state) \<Rightarrow> 'c module_handle \<Rightarrow>
     (lock_poisoned + 'r option) \<times> 'c module_handle" where
  "with_state_mut f h =
     (if mh_poisoned h then (Inl LockPoisoned, h)
      else (case mh_inner h of
              None \<Rightarrow> (Inr None, h)
            | Some ms \<Rightarrow> let (r, ms') = f ms in (Inr (Some r), h\<lparr>mh_inner := Some ms'\<rparr>)))"

definition install_with ::
  "(('c, 'ms) world \<Rightarrow> ('e + 'c module_state) \<times> ('c, 'ms) world) \<Rightarrow> ('c, 'ms) world \<Rightarrow>
     (lock_poisoned + 'e + install_outcome) \<times> ('c, 'ms) world" where
  "install_with f w =
     (if mh_poisoned (w_module w) then (Inl LockPoisoned, w)
      else if mh_inner (w_module w) \<noteq> None then (Inr (Inr AlreadyInstalled), w)
      else (case f w of
              (Inr ms, w') \<Rightarrow> (Inr (Inr Installed), w'\<lparr>w_module := (w_module w')\<lparr>mh_inner := Some ms\<rparr>\<rparr>)
            | (Inl e, w') \<Rightarrow> (Inr (Inl e), w')))"

definition take_state :: "'c module_handle \<Rightarrow> (lock_poisoned + 'c module_state option) \<times> 'c module_handle" where
  "take_state h =
     (if mh_poisoned h then (Inl LockPoisoned, h) else (Inr (mh_inner h), h\<lparr>mh_inner := None\<rparr>))"

text \<open>\<open>with_display\<close>, \<open>with_display_mut\<close>: the poison arm recovers the guard, so they always run.\<close>

definition with_display :: "('ms display \<Rightarrow> 'r) \<Rightarrow> ('c, 'ms) world \<Rightarrow> 'r" where
  "with_display f w = f (w_display w)"

definition with_display_mut :: "('ms display \<Rightarrow> 'ms display) \<Rightarrow> ('c, 'ms) world \<Rightarrow> ('c, 'ms) world" where
  "with_display_mut f w = w\<lparr>w_display := f (w_display w)\<rparr>"

text \<open>
  \<open>now_ms\<close>: the wall clock in nanoseconds since the epoch, negative before it, read in
  milliseconds and truncated to 64 bits.
\<close>

definition now_ms :: "int \<Rightarrow> u64" where
  "now_ms clock = (if clock < 0 then 0 else word_of_int (clock div 1000000))"

text \<open>
  \<open>short_label\<close>: the byte offset of the ninth character, or the whole length, and the slice up to
  it.  \<open>short_label_slice\<close> is the slice with its panic; \<open>label_end_boundary\<close> below shows that it
  never panics, so the handlers use the bytes themselves.
\<close>

definition label_end :: "str \<Rightarrow> nat" where
  "label_end chat_id =
     (case nth_opt (char_indices chat_id) 8 of None \<Rightarrow> length chat_id | Some i \<Rightarrow> i)"

definition short_label_slice :: "str \<Rightarrow> str option" where
  "short_label_slice chat_id = slice_to chat_id (label_end chat_id)"

definition short_label :: "str \<Rightarrow> str" where
  "short_label chat_id = take (label_end chat_id) chat_id"

definition effective_installation_name :: "'ms display \<Rightarrow> str" where
  "effective_installation_name d =
     unwrap_or (as_installation_name (d_state d)) (d_intrinsic_name d)"

section \<open>Lemmas\<close>

lemma emit_simps [simp]:
  "w_module (emit e w) = w_module w" "w_display (emit e w) = w_display w"
  "w_own_node_preset (emit e w) = w_own_node_preset w" "w_pending (emit e w) = w_pending w"
  "w_events (emit e w) = w_events w @ [e]" "w_log (emit e w) = w_log w"
  by (simp_all add: emit_def)

lemma log_at_simps [simp]:
  "w_module (log_at l s w) = w_module w" "w_display (log_at l s w) = w_display w"
  "w_own_node_preset (log_at l s w) = w_own_node_preset w" "w_pending (log_at l s w) = w_pending w"
  "w_events (log_at l s w) = w_events w" "w_log (log_at l s w) = w_log w @ [(l, s)]"
  by (simp_all add: log_at_def)

lemma hand_over_simps [simp]:
  "w_module (hand_over c w) = w_module w" "w_display (hand_over c w) = w_display w"
  "w_own_node_preset (hand_over c w) = w_own_node_preset w"
  "w_pending (hand_over c w) = w_pending w @ [c]"
  "w_events (hand_over c w) = w_events w" "w_log (hand_over c w) = w_log w"
  by (simp_all add: hand_over_def)

lemma with_display_mut_simps [simp]:
  "w_module (with_display_mut f w) = w_module w"
  "w_display (with_display_mut f w) = f (w_display w)"
  "w_own_node_preset (with_display_mut f w) = w_own_node_preset w"
  "w_pending (with_display_mut f w) = w_pending w"
  "w_events (with_display_mut f w) = w_events w" "w_log (with_display_mut f w) = w_log w"
  by (simp_all add: with_display_mut_def)

lemma state_as_str_inject [simp]: "state_as_str a = state_as_str b \<longleftrightarrow> a = b"
  by (cases a; cases b) simp_all

lemma label_end_chars: "label_end s = length (concat (take 8 (chars s)))"
proof (cases "8 < length (chars s)")
  case True
  then show ?thesis
    by (simp add: label_end_def nth_opt_def char_indices_def char_offsets_nth del: length_concat)
next
  case False
  then have "take 8 (chars s) = chars s" by simp
  with False show ?thesis
    by (simp add: label_end_def nth_opt_def char_indices_def concat_chars del: length_concat)
qed

lemma short_label_chars: "short_label s = concat (take 8 (chars s))"
proof -
  have "take (length (concat (take 8 (chars s)))) (concat (chars s)) = concat (take 8 (chars s))"
    by (rule take_concat)
  then show ?thesis by (simp only: short_label_def label_end_chars concat_chars)
qed

lemma label_end_boundary: "utf8 s \<Longrightarrow> short_label_slice s = Some (short_label s)"
  using utf8_chars_boundary [of s 8]
  by (simp add: short_label_slice_def slice_to_def short_label_def label_end_chars del: length_concat)

end
