(* ===== verification/Actions.thy ===== *)
theory Actions
  imports Module_State
begin

text \<open>
  \<open>rust-lib/src/actions.rs\<close>: the operations of the module, each a function on \<open>world\<close>.  A
  closure under a lock is a function on what the lock guards; \<open>?\<close> is a case on the result.
  libchat's client, the message store, the texts of foreign errors, the clock and the failing SQL
  statements are fields of \<open>env\<close>; what \<open>initialize\<close> calls besides is \<open>init_env\<close>.
\<close>

section \<open>What the operations call\<close>

text \<open>
  A call on the client returns its result (an error by its text), the client's next state and the
  calls it made on its transport meanwhile.  Addresses of roster members are given as printed.
\<close>

type_synonym ('c, 'r) client_call = "'c \<Rightarrow> 'r \<times> 'c \<times> transport_call list"

record 'c client_api =
  ca_create_direct_conversation :: "str \<Rightarrow> ('c, str + str) client_call"
  ca_create_group_conversation :: "str list \<Rightarrow> str \<times> str \<Rightarrow> ('c, str + str) client_call"
  ca_add_group_participants :: "str \<Rightarrow> str list \<Rightarrow> ('c, str + unit) client_call"
  ca_members :: "str \<Rightarrow> ('c, str + str list) client_call"
  ca_pending_members :: "str \<Rightarrow> ('c, str + str list) client_call"
  ca_send_message :: "str \<Rightarrow> bytes \<Rightarrow> ('c, str + unit) client_call"
  ca_group_metadata :: "str \<Rightarrow> ('c, str + str \<times> str) client_call"
  ca_list_all_conversations :: "'c \<Rightarrow> str + str list"
  ca_installation_name :: "'c \<Rightarrow> str"
  ca_addr :: "'c \<Rightarrow> str"

record ('c, 'ms) env =
  e_client :: "'c client_api"
  e_store :: "'ms store_api"
  e_sql_text :: "sql_error \<Rightarrow> str"
  e_render :: "json \<Rightarrow> str"
  e_fault :: fault
  e_clock :: int

section \<open>Errors\<close>

datatype core_error =
    NotInit | NotFound | Internal str | Client str | HistoryOnly | Store sql_error

fun core_error_text :: "('c, 'ms) env \<Rightarrow> core_error \<Rightarrow> str" where
  "core_error_text env NotInit = ''module not initialised''"
| "core_error_text env NotFound = ''conversation not found''"
| "core_error_text env (Internal t) = t"
| "core_error_text env (Client t) = t"
| "core_error_text env HistoryOnly =
     ''conversation is from a previous session and kept for its history only''"
| "core_error_text env (Store e) = ''chat.db: '' @ e_sql_text env e"

datatype init_error = NoPersistencePath | Init_internal str | Delivery str

fun init_error_text :: "init_error \<Rightarrow> str" where
  "init_error_text NoPersistencePath =
     ''host did not assign an instance persistence path; start the host with a session or config dir''"
| "init_error_text (Init_internal t) = t"
| "init_error_text (Delivery t) = t"

definition PREVIEW_MAX_CHARS :: nat where
  "PREVIEW_MAX_CHARS = 160"

section \<open>Helpers\<close>

text \<open>The client's transport calls reach the session's bridge and delivery_module.\<close>

fun publisher_call :: "sdk_publisher \<Rightarrow> transport_call \<Rightarrow> sdk_publisher" where
  "publisher_call p (Publish e) = snd (publisher_publish e p)"
| "publisher_call p (Subscribe_to a) = snd (publisher_subscribe a p)"

definition closed_channel :: "'a channel" where
  "closed_channel = \<lparr>ch_queue = [], ch_receiver = False\<rparr>"

definition run_transport ::
  "transport_call list \<Rightarrow> 'c module_state \<Rightarrow> (str \<times> bytes) list \<times> 'c module_state" where
  "run_transport cs ms =
     (let tx = (case ms_inbound_thread ms of None \<Rightarrow> closed_channel | Some b \<Rightarrow> b_subscribe_rx b);
          p = foldl publisher_call \<lparr>sp_subscribe_tx = tx, sp_sends = []\<rparr> cs
      in (sp_sends p,
          ms\<lparr>ms_inbound_thread := map_option (\<lambda>b. b\<lparr>b_subscribe_rx := sp_subscribe_tx p\<rparr>)
                                     (ms_inbound_thread ms)\<rparr>))"

definition send_calls :: "(str \<times> bytes) list \<Rightarrow> delivery_call list" where
  "send_calls sends = map (\<lambda>(topic, data). Send topic data) sends"

definition with_client ::
  "('c, 'r) client_call \<Rightarrow> ('c, 'ms) world \<Rightarrow> (core_error + 'r) \<times> ('c, 'ms) world" where
  "with_client f w =
     (let (res, h) = with_state_mut (\<lambda>ms.
            let (r, c, cs) = f (ms_client ms);
                (sends, ms) = run_transport cs (ms\<lparr>ms_client := c\<rparr>)
            in ((r, sends), ms)) (w_module w)
      in case res of
           Inr (Some (r, sends)) \<Rightarrow>
             (Inr r, w\<lparr>w_module := h, w_pending := w_pending w @ send_calls sends\<rparr>)
         | Inr None \<Rightarrow> (Inl NotInit, w\<lparr>w_module := h\<rparr>)
         | Inl _ \<Rightarrow> (Inl (Internal ''module lock poisoned''), w\<lparr>w_module := h\<rparr>))"

text \<open>\<open>??\<close> on a client result.\<close>

definition flatten :: "core_error + str + 'a \<Rightarrow> core_error + 'a" where
  "flatten r = and_then r (map_err Client)"

definition update_chats ::
  "(chat_session hash_map \<Rightarrow> chat_session hash_map) \<Rightarrow> 'ms display \<Rightarrow> 'ms display" where
  "update_chats f d = d\<lparr>d_state := (d_state d)\<lparr>as_chats := f (as_chats (d_state d))\<rparr>\<rparr>"

abbreviation chats :: "'ms display \<Rightarrow> chat_session hash_map" where
  "chats d \<equiv> as_chats (d_state d)"

definition persist_chat :: "('c, 'ms) env \<Rightarrow> str \<Rightarrow> 'ms display \<Rightarrow> core_error + 'ms display" where
  "persist_chat env chat_id d =
     and_then (ok_or (d_chat_db d) NotInit) (\<lambda>chat_db.
     and_then (ok_or (hm_get (chats d) chat_id) NotFound) (\<lambda>session.
     and_then (map_err Store (save_chat (e_fault env) chat_db session)) (\<lambda>chat_db.
       Inr (d\<lparr>d_chat_db := Some chat_db\<rparr>))))"

definition non_empty :: "str \<Rightarrow> str option" where
  "non_empty s = (if s = [] then None else Some s)"

definition chat_message :: "str \<Rightarrow> direction \<Rightarrow> u64 \<Rightarrow> bytes \<Rightarrow> message" where
  "chat_message convo_id dir timestamp_ms content =
     \<lparr>m_chat_id = convo_id, m_convo_id = convo_id, m_direction = dir, m_sender_account = None,
      m_sender_installation = None, m_message_id = None, m_timestamp_ms = as_i64 timestamp_ms,
      m_content = content\<rparr>"

text \<open>\<open>record_message\<close> of \<open>actions.rs\<close>; the one of \<open>persistence.rs\<close> keeps its name.\<close>

definition chat_record_message ::
  "('c, 'ms) env \<Rightarrow> message \<Rightarrow> bool \<Rightarrow> 'ms display \<Rightarrow> (core_error + unit) \<times> 'ms display" where
  "chat_record_message env msg chat_changed d =
     (case hm_get (chats d) (m_chat_id msg) of
        None \<Rightarrow> (Inr (), d)
      | Some session \<Rightarrow> (case d_chat_db d of
          None \<Rightarrow> (Inl NotInit, d)
        | Some chat_db \<Rightarrow>
            let (recorded, chat_db) = record_message (e_store env) (e_fault env) chat_db
                   (if chat_changed then Some session else None) msg;
                session = session\<lparr>cs_messages := cs_messages session @ [display_message msg]\<rparr>
            in (map_err Store recorded,
                update_chats (hm_insert (m_chat_id msg) session) (d\<lparr>d_chat_db := Some chat_db\<rparr>))))"

definition check_live :: "str \<Rightarrow> ('c, 'ms) world \<Rightarrow> core_error + unit" where
  "check_live convo_id w =
     (case with_display (\<lambda>d. map_option cs_history_only (hm_get (chats d) convo_id)) w of
        None \<Rightarrow> Inl NotFound
      | Some True \<Rightarrow> Inl HistoryOnly
      | Some False \<Rightarrow> Inr ())"

section \<open>Identity\<close>

definition set_installation_name ::
  "('c, 'ms) env \<Rightarrow> str \<Rightarrow> ('c, 'ms) world \<Rightarrow> (core_error + unit) \<times> ('c, 'ms) world" where
  "set_installation_name env name w =
     (let d = w_display w; name = non_empty name in
      case and_then (ok_or (d_chat_db d) NotInit) (\<lambda>chat_db.
             map_err Store (save_installation_name (e_fault env) chat_db name)) of
        Inl e \<Rightarrow> (Inl e, w)
      | Inr chat_db \<Rightarrow> (Inr (), with_display_mut (\<lambda>d. d\<lparr>d_chat_db := Some chat_db,
            d_state := (d_state d)\<lparr>as_installation_name := name\<rparr>\<rparr>) w))"

definition installation_name :: "('c, 'ms) world \<Rightarrow> str" where
  "installation_name w = with_display effective_installation_name w"

definition get_address :: "('c, 'ms) world \<Rightarrow> str" where
  "get_address w = with_display d_address w"

section \<open>Conversations\<close>

text \<open>The session a newly known conversation starts with.\<close>

definition new_session ::
  "str \<Rightarrow> conversation_kind \<Rightarrow> str option \<Rightarrow> str option \<Rightarrow> str option \<Rightarrow> chat_session" where
  "new_session chat_id kind name description peer =
     \<lparr>cs_chat_id = chat_id, cs_nickname = None, cs_kind = kind, cs_name = name,
      cs_description = description, cs_peer = peer, cs_messages = [], cs_older_messages = 0,
      cs_history_only = False\<rparr>"

definition create_conversation ::
  "('c, 'ms) env \<Rightarrow> str \<Rightarrow> ('c, 'ms) world \<Rightarrow> (core_error + str) \<times> ('c, 'ms) world" where
  "create_conversation env peer_address w =
     (let (r, w) = with_client (ca_create_direct_conversation (e_client env) peer_address) w in
      case flatten r of
        Inl e \<Rightarrow> (Inl e, w)
      | Inr chat_id \<Rightarrow>
          let w = log_at INFO (''created direct conversation '' @ chat_id) w;
              peer_label = short_label chat_id;
              w = with_display_mut (update_chats (hm_insert chat_id
                    (new_session chat_id Direct None None (Some peer_address)))) w
          in case persist_chat env chat_id (w_display w) of
               Inl e \<Rightarrow> (Inl e, w)
             | Inr d \<Rightarrow> (Inr chat_id,
                 emit (Conversation_created chat_id True peer_label (kind_as_str Direct) [] [])
                   (with_display_mut (\<lambda>_. d) w)))"

definition create_group_conversation ::
  "('c, 'ms) env \<Rightarrow> str \<Rightarrow> str \<Rightarrow> ('c, 'ms) world \<Rightarrow> (core_error + str) \<times> ('c, 'ms) world" where
  "create_group_conversation env name desc w =
     (let (r, w) = with_client (ca_create_group_conversation (e_client env) [] (name, desc)) w in
      case flatten r of
        Inl e \<Rightarrow> (Inl e, w)
      | Inr chat_id \<Rightarrow>
          let w = log_at INFO (''created group conversation '' @ chat_id) w;
              label = short_label chat_id;
              w = with_display_mut (update_chats (hm_insert chat_id
                    (new_session chat_id Group (non_empty name) (non_empty desc) None))) w
          in case persist_chat env chat_id (w_display w) of
               Inl e \<Rightarrow> (Inl e, w)
             | Inr d \<Rightarrow> (Inr chat_id,
                 emit (Conversation_created chat_id True label (kind_as_str Group) name desc)
                   (with_display_mut (\<lambda>_. d) w)))"

definition add_group_member ::
  "('c, 'ms) env \<Rightarrow> str \<Rightarrow> str \<Rightarrow> ('c, 'ms) world \<Rightarrow> (core_error + unit) \<times> ('c, 'ms) world" where
  "add_group_member env convo_id peer_address w =
     (case check_live convo_id w of
        Inl e \<Rightarrow> (Inl e, w)
      | Inr _ \<Rightarrow>
          let (r, w) = with_client
                (ca_add_group_participants (e_client env) convo_id [peer_address]) w
          in case flatten r of
               Inl e \<Rightarrow> (Inl e, w)
             | Inr _ \<Rightarrow> (Inr (), emit (Conversation_updated convo_id) w))"

record group_member =
  gm_address :: str
  gm_pending :: bool

definition members_and_pending ::
  "('c, 'ms) env \<Rightarrow> str \<Rightarrow> ('c, str + str list \<times> str list) client_call" where
  "members_and_pending env convo_id c =
     (case ca_members (e_client env) convo_id c of
        (Inl e, c, cs) \<Rightarrow> (Inl e, c, cs)
      | (Inr committed, c, cs) \<Rightarrow>
          (case ca_pending_members (e_client env) convo_id c of
             (Inl e, c, cs') \<Rightarrow> (Inl e, c, cs @ cs')
           | (Inr invited, c, cs') \<Rightarrow> (Inr (committed, invited), c, cs @ cs')))"

definition list_group_members ::
  "('c, 'ms) env \<Rightarrow> str \<Rightarrow> ('c, 'ms) world \<Rightarrow> group_member list \<times> ('c, 'ms) world" where
  "list_group_members env convo_id w =
     (case check_live convo_id w of
        Inl e \<Rightarrow> ([], w)
      | Inr _ \<Rightarrow>
          let (roster, w) = with_client (members_and_pending env convo_id) w
          in case roster of
               Inr (Inr (committed, invited)) \<Rightarrow>
                 (map (\<lambda>(member, pending). \<lparr>gm_address = member, gm_pending = pending\<rparr>)
                    (map (\<lambda>member. (member, False)) committed
                     @ map (\<lambda>member. (member, True)) invited), w)
             | Inr (Inl e) \<Rightarrow> ([], log_at WARN (''list_group_members failed: '' @ e) w)
             | Inl e \<Rightarrow> ([], log_at WARN (''list_group_members: '' @ core_error_text env e) w))"

text \<open>The contract's \<open>Conversation\<close> and \<open>Message\<close> records.\<close>

record conversation =
  cv_convo_id :: str
  cv_nickname :: "str option"
  cv_message_count :: i64
  cv_last_activity_ms :: i64
  cv_kind :: str
  cv_name :: "str option"
  cv_description :: "str option"
  cv_preview :: "str option"
  cv_history_only :: bool

definition last_opt :: "'a list \<Rightarrow> 'a option" where
  "last_opt xs = (if xs = [] then None else Some (last xs))"

definition conversation_of :: "chat_session \<Rightarrow> conversation" where
  "conversation_of s =
     \<lparr>cv_convo_id = cs_chat_id s,
      cv_nickname = cs_nickname s,
      cv_message_count = as_i64 (cs_older_messages s + len_usize (cs_messages s)),
      cv_last_activity_ms =
        (case last_opt (cs_messages s) of None \<Rightarrow> 0 | Some m \<Rightarrow> as_i64 (dm_timestamp_ms m)),
      cv_kind = kind_as_str (cs_kind s),
      cv_name = cs_name s,
      cv_description = cs_description s,
      cv_preview = map_option (\<lambda>m. concat (take PREVIEW_MAX_CHARS (chars (dm_content m))))
                     (last_opt (cs_messages s)),
      cv_history_only = cs_history_only s\<rparr>"

definition list_conversations :: "('c, 'ms) world \<Rightarrow> conversation list" where
  "list_conversations w = with_display (\<lambda>d. map conversation_of (hm_values (chats d))) w"

record message_view =
  mv_from_self :: bool
  mv_content :: str
  mv_timestamp_ms :: i64
  mv_sender :: "str option"

definition view_of :: "shown_message \<Rightarrow> message_view" where
  "view_of m = \<lparr>mv_from_self = dm_from_self m, mv_content = dm_content m,
                mv_timestamp_ms = as_i64 (dm_timestamp_ms m), mv_sender = dm_sender m\<rparr>"

definition get_messages :: "str \<Rightarrow> ('c, 'ms) world \<Rightarrow> message_view list" where
  "get_messages convo_id w = with_display (\<lambda>d.
     map view_of (unwrap_or (map_option cs_messages (hm_get (chats d) convo_id)) [])) w"

definition send_message ::
  "('c, 'ms) env \<Rightarrow> str \<Rightarrow> str \<Rightarrow> ('c, 'ms) world \<Rightarrow> (core_error + unit) \<times> ('c, 'ms) world" where
  "send_message env convo_id content w =
     (case check_live convo_id w of
        Inl e \<Rightarrow> (Inl e, w)
      | Inr _ \<Rightarrow>
          let (r, w) = with_client (ca_send_message (e_client env) convo_id content) w
          in case flatten r of
               Inl e \<Rightarrow> (Inl e, w)
             | Inr _ \<Rightarrow>
                 let w = log_at INFO
                           (''sent '' @ dec (length content) @ '' bytes to '' @ convo_id) w;
                     ts = now_ms (e_clock env);
                     (recorded, d) = chat_record_message env
                       (chat_message convo_id Sent ts content) False (w_display w);
                     w = with_display_mut (\<lambda>_. d) w
                 in case recorded of
                      Inl e \<Rightarrow> (Inl e, w)
                    | Inr _ \<Rightarrow> (Inr (), emit (Message_sent convo_id content (as_i64 ts)) w))"

definition set_conversation_nickname ::
  "('c, 'ms) env \<Rightarrow> str \<Rightarrow> str \<Rightarrow> ('c, 'ms) world \<Rightarrow> (core_error + unit) \<times> ('c, 'ms) world" where
  "set_conversation_nickname env convo_id nickname w =
     (case hm_get (chats (w_display w)) convo_id of
        None \<Rightarrow> (Inl NotFound, w)
      | Some session \<Rightarrow>
          let session = session\<lparr>cs_nickname := if nickname = [] then None else Some nickname\<rparr>;
              w = with_display_mut (update_chats (hm_insert convo_id session)) w
          in case persist_chat env convo_id (w_display w) of
               Inl e \<Rightarrow> (Inl e, w)
             | Inr d \<Rightarrow> (Inr (), emit (Conversation_updated convo_id) (with_display_mut (\<lambda>_. d) w)))"

definition delete_conversation ::
  "('c, 'ms) env \<Rightarrow> str \<Rightarrow> ('c, 'ms) world \<Rightarrow> (core_error + unit) \<times> ('c, 'ms) world" where
  "delete_conversation env convo_id w =
     (let d = w_display w in
      if \<not> hm_contains (chats d) convo_id then (Inl NotFound, w)
      else (case d_chat_db d of
         None \<Rightarrow> (Inl NotInit, w)
       | Some chat_db \<Rightarrow>
           let (r, chat_db) = delete_chat (e_store env) (e_fault env) chat_db convo_id;
               w = with_display_mut (\<lambda>d. d\<lparr>d_chat_db := Some chat_db\<rparr>) w
           in case r of
                Inl e \<Rightarrow> (Inl (Store e), w)
              | Inr _ \<Rightarrow>
                  (Inr (), emit (Conversation_deleted convo_id) (with_display_mut (\<lambda>d.
                     d\<lparr>d_state := (d_state d)\<lparr>as_chats := hm_remove convo_id (chats d),
                         as_deleted := insert convo_id (as_deleted (d_state d))\<rparr>\<rparr>) w))))"

section \<open>Status\<close>

record status_view =
  st_convo_count :: i64
  st_delivery_state :: str
  st_detail :: str
  st_delivery_adopted :: bool

definition status :: "('c, 'ms) world \<Rightarrow> status_view" where
  "status w = with_display (\<lambda>d.
     \<lparr>st_convo_count = as_i64 (len_usize (chats d)),
      st_delivery_state = state_as_str (ds_state (d_delivery_state d)),
      st_detail = ds_detail (d_delivery_state d),
      st_delivery_adopted = ds_adopted (d_delivery_state d)\<rparr>) w"

section \<open>Delivery state\<close>

definition update_delivery ::
  "(delivery_state \<Rightarrow> delivery_state) \<Rightarrow> ('c, 'ms) world \<Rightarrow> ('c, 'ms) world" where
  "update_delivery f w = with_display_mut (\<lambda>d. d\<lparr>d_delivery_state := f (d_delivery_state d)\<rparr>) w"

abbreviation delivery_of :: "('c, 'ms) world \<Rightarrow> delivery_state" where
  "delivery_of w \<equiv> d_delivery_state (w_display w)"

definition set_delivery_state ::
  "delivery_state_kind \<Rightarrow> str \<Rightarrow> ('c, 'ms) world \<Rightarrow> ('c, 'ms) world" where
  "set_delivery_state st detail w =
     (if ds_state (delivery_of w) = st \<and> ds_detail (delivery_of w) = detail then w
      else let w = update_delivery (\<lambda>ds. ds\<lparr>ds_state := st, ds_detail := detail\<rparr>) w;
               w = (if st = Error then log_at ERROR (''delivery failed: '' @ detail) w
                    else if detail = [] then log_at INFO (''delivery is '' @ state_as_str st) w
                    else log_at INFO (''delivery is '' @ state_as_str st @ '': '' @ detail) w)
           in emit (Delivery_state_changed (state_as_str st) detail (ds_adopted (delivery_of w))) w)"

definition set_delivery_error :: "str \<Rightarrow> ('c, 'ms) world \<Rightarrow> ('c, 'ms) world" where
  "set_delivery_error detail w = set_delivery_state Error detail w"

definition record_node_started :: "bool \<Rightarrow> str \<Rightarrow> ('c, 'ms) world \<Rightarrow> ('c, 'ms) world" where
  "record_node_started success msg w =
     (if \<not> ds_starting (delivery_of w) then w
      else let w = update_delivery (\<lambda>ds. ds\<lparr>ds_starting := False\<rparr>) w in
           if success
           then set_delivery_state Online [] (update_delivery (\<lambda>ds. ds\<lparr>ds_started := True\<rparr>) w)
           else set_delivery_state Error (''delivery_module.start failed: '' @ msg) w)"

definition claim_delivery_retry :: "('c, 'ms) world \<Rightarrow> bool \<times> ('c, 'ms) world" where
  "claim_delivery_retry w =
     (if ds_state (delivery_of w) \<noteq> Error \<or> ds_started (delivery_of w) then (False, w)
      else (True, set_delivery_state Initialising [] w))"

section \<open>Delivery bootstrap\<close>

definition config_json :: "str \<Rightarrow> json" where
  "config_json preset =
     JObj [(''mode'', JStr ''Core''), (''preset'', JStr preset),
           (''messagingOverrides'', JObj [(''logLevel'', JStr ''ERROR'')])]"

definition start_delivery_bootstrap :: "str \<Rightarrow> ('c, 'ms) world \<Rightarrow> ('c, 'ms) world" where
  "start_delivery_bootstrap preset w = hand_over (Create_node (config_json preset) preset) w"

definition join_existing_node :: "str \<Rightarrow> str \<Rightarrow> ('c, 'ms) world \<Rightarrow> ('c, 'ms) world" where
  "join_existing_node preset reason w = hand_over (Get_node_info ''Version'' preset reason) w"

definition start_node :: "('c, 'ms) world \<Rightarrow> ('c, 'ms) world" where
  "start_node w = hand_over Start (update_delivery (\<lambda>ds. ds\<lparr>ds_starting := True\<rparr>) w)"

text \<open>The completion callbacks of \<open>createNode\<close>, \<open>getNodeInfo\<close> and \<open>start\<close>.\<close>

definition create_node_done ::
  "('c, 'ms) env \<Rightarrow> str \<Rightarrow> str + json \<Rightarrow> ('c, 'ms) world \<Rightarrow> ('c, 'ms) world" where
  "create_node_done env preset res w =
     (case delivery_outcome (e_render env) res of
        Inr _ \<Rightarrow> start_node (w\<lparr>w_own_node_preset := Some preset\<rparr>)
      | Inl reason \<Rightarrow> join_existing_node preset reason w)"

definition get_node_info_done ::
  "('c, 'ms) env \<Rightarrow> str \<Rightarrow> str \<Rightarrow> str + json \<Rightarrow> ('c, 'ms) world \<Rightarrow> ('c, 'ms) world" where
  "get_node_info_done env preset reason res w =
     (case delivery_outcome (e_render env) res of
        Inr _ \<Rightarrow>
          let adopted = (w_own_node_preset w \<noteq> Some preset);
              w = (if adopted then log_at WARN
                     (''delivery_module already has a node this module did not create with preset ''
                      @ preset @ ''; joining it with the settings it was created with'') w
                   else w)
          in start_node (update_delivery (\<lambda>ds. ds\<lparr>ds_adopted := adopted\<rparr>) w)
      | Inl _ \<Rightarrow> set_delivery_error (''delivery_module.createNode failed: '' @ reason) w)"

definition start_done ::
  "('c, 'ms) env \<Rightarrow> str + json \<Rightarrow> ('c, 'ms) world \<Rightarrow> ('c, 'ms) world" where
  "start_done env res w =
     (case delivery_outcome (e_render env) res of
        Inr _ \<Rightarrow> w
      | Inl e \<Rightarrow> set_delivery_state Error (''delivery_module.start failed: '' @ e)
                  (update_delivery (\<lambda>ds. ds\<lparr>ds_starting := False\<rparr>) w))"

section \<open>Inbound side\<close>

text \<open>
  A joiner learns a group's name and description from the client, read under the client lock
  before the display lock is taken.
\<close>

definition group_details ::
  "('c, 'ms) env \<Rightarrow> str \<Rightarrow> conversation_kind \<Rightarrow> ('c, 'ms) world \<Rightarrow>
     (str option \<times> str option) \<times> ('c, 'ms) world" where
  "group_details env convo_id kind w =
     (if kind = Group then
        (case with_client (ca_group_metadata (e_client env) convo_id) w of
           (Inr (Inr (n, d)), w) \<Rightarrow> ((non_empty n, non_empty d), w)
         | (Inr (Inl e), w) \<Rightarrow> ((None, None), log_at WARN (''group_metadata failed: '' @ e) w)
         | (Inl e, w) \<Rightarrow> ((None, None), log_at WARN (''group_metadata: '' @ core_error_text env e) w))
      else ((None, None), w))"

definition record_conversation_started ::
  "('c, 'ms) env \<Rightarrow> str \<Rightarrow> conversation_kind \<Rightarrow> ('c, 'ms) world \<Rightarrow> ('c, 'ms) world" where
  "record_conversation_started env convo_id kind w =
     (let ((name, description), w) = group_details env convo_id kind w
      in if convo_id \<in> as_deleted (d_state (w_display w)) then w
         else case hm_get (chats (w_display w)) convo_id of
           Some session \<Rightarrow>
             if cs_history_only session
             then emit (Conversation_updated convo_id) (with_display_mut (update_chats
                    (hm_insert convo_id (session\<lparr>cs_history_only := False\<rparr>))) w)
             else w
         | None \<Rightarrow>
             let w = with_display_mut (update_chats (hm_insert convo_id
                       (new_session convo_id kind name description None))) w;
                 w = emit (Conversation_created convo_id False (short_label convo_id)
                       (kind_as_str kind) (unwrap_or name []) (unwrap_or description [])) w
             in case persist_chat env convo_id (w_display w) of
                  Inr d \<Rightarrow> with_display_mut (\<lambda>_. d) w
                | Inl e \<Rightarrow> log_at ERROR
                    (''saving a conversation failed after it started: '' @ core_error_text env e) w)"

text \<open>
  The session an inbound message lands in, entered with its peer when a direct chat learns it, and
  whether the chat's row changes; the message as it is recorded.
\<close>

definition inbound_session :: "str \<Rightarrow> str \<Rightarrow> 'ms display \<Rightarrow> bool \<times> chat_session" where
  "inbound_session convo_id account d =
     (let chat_changed = (\<not> hm_contains (chats d) convo_id);
          session = unwrap_or (hm_get (chats d) convo_id)
                      (new_session convo_id default_kind None None None)
      in if cs_kind session = Direct \<and> cs_peer session = None
         then (True, session\<lparr>cs_peer := Some account\<rparr>) else (chat_changed, session))"

definition inbound_message ::
  "('c, 'ms) env \<Rightarrow> str \<Rightarrow> bytes \<Rightarrow> str \<Rightarrow> str \<Rightarrow> message" where
  "inbound_message env convo_id content account installation =
     (chat_message convo_id Received (now_ms (e_clock env)) content)
       \<lparr>m_sender_account := Some account, m_sender_installation := Some installation\<rparr>"

definition record_message_received ::
  "('c, 'ms) env \<Rightarrow> str \<Rightarrow> bytes \<Rightarrow> str \<Rightarrow> str \<Rightarrow> ('c, 'ms) world \<Rightarrow> ('c, 'ms) world" where
  "record_message_received env convo_id content account installation w =
     (if convo_id \<in> as_deleted (d_state (w_display w)) then w
      else
        let w = log_at INFO (''received '' @ dec (length content) @ '' bytes in '' @ convo_id
                  @ '' from '' @ short_label account) w;
            (chat_changed, session) = inbound_session convo_id account (w_display w);
            msg = inbound_message env convo_id content account installation;
            (recorded, d) = chat_record_message env msg chat_changed
                    (update_chats (hm_insert convo_id session) (w_display w));
            w = with_display_mut (\<lambda>_. d) w;
            w = (case recorded of
                   Inl e \<Rightarrow> log_at ERROR
                     (''recording an inbound message failed: '' @ core_error_text env e) w
                 | Inr _ \<Rightarrow> w)
        in emit (Message_received convo_id (from_utf8_lossy content) (as_i64 (now_ms (e_clock env)))
                   account) w)"

definition record_members_changed :: "str \<Rightarrow> ('c, 'ms) world \<Rightarrow> ('c, 'ms) world" where
  "record_members_changed convo_id w =
     (if convo_id \<in> as_deleted (d_state (w_display w)) \<or> \<not> hm_contains (chats (w_display w)) convo_id
      then w else emit (Members_changed convo_id) w)"

end
