(* ===== verification/Inbound.thy ===== *)
theory Inbound
  imports Actions
begin

text \<open>
  \<open>rust-lib/src/inbound.rs\<close>: the bridge worker, which serves delivery_module's events and the
  queued subscriptions, and the event consumer, which records the client's events.  The decoders
  of delivery_module's events are generated code, a parameter (\<open>decoders\<close>).  What the rest of
  the process does between two iterations of the bridge is a list of actions on its state; the
  clock and the failing statements may differ at every event (\<open>moment\<close>).
\<close>

section \<open>What the workers read\<close>

record received_message =
  rm_message_hash :: str
  rm_content_topic :: str
  rm_payload :: bytes
  rm_source :: str

record decoders =
  dc_message_received :: "event_data \<Rightarrow> received_message option"
  dc_node_started :: "event_data \<Rightarrow> (bool \<times> str) option"
  dc_connection_state_changed :: "event_data \<Rightarrow> str option"

record moment =
  mo_fault :: fault
  mo_clock :: int

definition at :: "('c, 'ms) env \<Rightarrow> moment \<Rightarrow> ('c, 'ms) env" where
  "at env mo = env\<lparr>e_fault := mo_fault mo, e_clock := mo_clock mo\<rparr>"

text \<open>libchat's events; \<open>OtherEvent\<close> stands for the variants a later version may add.\<close>

datatype conversation_class = Class_Dm | Class_Group

datatype client_event =
    ConversationStarted str conversation_class
  | MessageReceived str bytes str str
  | ConversationMembersChanged str
  | InboundError str
  | OtherEvent

section \<open>The bridge\<close>

definition forward_message ::
  "decoders \<Rightarrow> event_data \<Rightarrow> bridge \<Rightarrow> ('c, 'ms) world \<Rightarrow> bridge \<times> ('c, 'ms) world" where
  "forward_message dcs evt b w =
     (case dc_message_received dcs evt of
        None \<Rightarrow> (b, log_at WARN ''inbound: messageReceived payload missing or malformed'' w)
      | Some msg \<Rightarrow>
          if \<not> prefix TOPIC_PREFIX (rm_content_topic msg) then (b, w)
          else let (first, seen) = first_sighting (rm_message_hash msg) (b_seen b);
                   b = b\<lparr>b_seen := seen\<rparr>
               in if \<not> first
                  then (b, log_at DEBUG (''inbound: dropped a repeat of '' @ rm_message_hash msg
                             @ '' ('' @ rm_source msg @ '')'') w)
                  else (b\<lparr>b_inbound_tx := snd (channel_send (rm_payload msg) (b_inbound_tx b))\<rparr>, w))"

text \<open>The loop of \<open>drain\<close>: whether the sender is gone, and the state the handler left.\<close>

function drain_loop ::
  "(event_data \<Rightarrow> 's \<Rightarrow> 's) \<Rightarrow> subscription \<Rightarrow> 's \<Rightarrow> bool \<times> subscription \<times> 's" where
  "drain_loop handle sub s =
     (case try_recv sub of
        (Received_item evt, sub') \<Rightarrow> drain_loop handle sub' (handle evt s)
      | (Empty, sub') \<Rightarrow> (False, sub', s)
      | (Disconnected, sub') \<Rightarrow> (True, sub', s))"
  by pat_completeness auto
termination
  by (relation "measure (\<lambda>(handle, sub, s). length (sub_queue sub))")
    (auto simp: try_recv_def split: list.splits if_splits)

declare drain_loop.simps [simp del]

definition drain ::
  "(event_data \<Rightarrow> 's \<Rightarrow> 's) \<Rightarrow> subscription option \<Rightarrow> 's \<Rightarrow> subscription option \<times> 's" where
  "drain handle sub s =
     (case sub of
        None \<Rightarrow> (None, s)
      | Some events \<Rightarrow>
          let (disconnected, events, s) = drain_loop handle events s
          in (if disconnected then None else Some events, s))"

text \<open>Unknown statuses count as errors; connectivity counts once the node has started.\<close>

definition map_connection_status :: "str \<Rightarrow> delivery_state_kind" where
  "map_connection_status st =
     (if st = ''Connected'' \<or> st = ''PartiallyConnected'' then Online else Error)"

definition connection_transition :: "bool \<Rightarrow> str \<Rightarrow> delivery_state_kind option" where
  "connection_transition started st = (if \<not> started then None else Some (map_connection_status st))"

definition handle_connection_state :: "str \<Rightarrow> ('c, 'ms) world \<Rightarrow> ('c, 'ms) world" where
  "handle_connection_state st w =
     (case connection_transition (ds_started (delivery_of w)) st of
        Some next_state \<Rightarrow> set_delivery_state next_state [] w
      | None \<Rightarrow> w)"

definition on_node_started :: "decoders \<Rightarrow> event_data \<Rightarrow> ('c, 'ms) world \<Rightarrow> ('c, 'ms) world" where
  "on_node_started dcs evt w =
     (case dc_node_started dcs evt of
        Some (success, msg) \<Rightarrow> record_node_started success msg w
      | None \<Rightarrow> w)"

definition on_connection_state :: "decoders \<Rightarrow> event_data \<Rightarrow> ('c, 'ms) world \<Rightarrow> ('c, 'ms) world" where
  "on_connection_state dcs evt w =
     (case dc_connection_state_changed dcs evt of
        Some st \<Rightarrow> handle_connection_state st w
      | None \<Rightarrow> w)"

definition forward_subscriptions :: "bridge \<Rightarrow> ('c, 'ms) world \<Rightarrow> bridge \<times> ('c, 'ms) world" where
  "forward_subscriptions b w =
     (if with_display (\<lambda>d. ds_state (d_delivery_state d)) w \<noteq> Online then (b, w)
      else (b\<lparr>b_subscribe_rx := (b_subscribe_rx b)\<lparr>ch_queue := []\<rparr>\<rparr>,
            foldl (\<lambda>w topic. hand_over (Subscribe topic) w) w (ch_queue (b_subscribe_rx b))))"

text \<open>One turn of the loop of \<open>run_bridge\<close>; true when it returns from the function.\<close>

definition bridge_turn ::
  "decoders \<Rightarrow> bridge \<Rightarrow> ('c, 'ms) world \<Rightarrow> bool \<times> bridge \<times> ('c, 'ms) world" where
  "bridge_turn dcs b w =
     (let (item, msgs) = try_recv (b_messages b); b = b\<lparr>b_messages := msgs\<rparr> in
      if item = Disconnected then (True, b, w)
      else
        let (b, w) = (case item of Received_item evt \<Rightarrow> forward_message dcs evt b w | _ \<Rightarrow> (b, w));
            (ns, w) = drain (on_node_started dcs) (b_node_started b) w;
            (cs, w) = drain (on_connection_state dcs) (b_conn b) w;
            (b, w) = forward_subscriptions (b\<lparr>b_node_started := ns, b_conn := cs\<rparr>) w
        in (False, b, w))"

fun run_bridge ::
  "decoders \<Rightarrow> (bridge \<times> ('c, 'ms) world \<Rightarrow> bridge \<times> ('c, 'ms) world) list \<Rightarrow>
     bridge \<Rightarrow> ('c, 'ms) world \<Rightarrow> bridge \<times> ('c, 'ms) world" where
  "run_bridge dcs [] b w = (b, w)"
| "run_bridge dcs (act # acts) b w =
     (let (b, w) = act (b, w) in
      if b_stop b then (b, w)
      else (case bridge_turn dcs b w of
              (True, b, w) \<Rightarrow> (b, w)
            | (False, b, w) \<Rightarrow> run_bridge dcs acts b w))"

text \<open>The callbacks of \<open>send\<close> and \<open>subscribe\<close> only log a failure.\<close>

definition send_done :: "('c, 'ms) env \<Rightarrow> str + json \<Rightarrow> ('c, 'ms) world \<Rightarrow> ('c, 'ms) world" where
  "send_done env res w =
     (case delivery_outcome (e_render env) res of
        Inr _ \<Rightarrow> w
      | Inl e \<Rightarrow> log_at ERROR (''delivery_module.send failed: '' @ e) w)"

definition subscribe_done :: "('c, 'ms) env \<Rightarrow> str + json \<Rightarrow> ('c, 'ms) world \<Rightarrow> ('c, 'ms) world" where
  "subscribe_done env res w =
     (case delivery_outcome (e_render env) res of
        Inr _ \<Rightarrow> w
      | Inl e \<Rightarrow> log_at ERROR (''delivery_module.subscribe failed: '' @ e) w)"

section \<open>The event consumer\<close>

fun kind_for_class :: "conversation_class \<Rightarrow> conversation_kind" where
  "kind_for_class Class_Dm = Direct"
| "kind_for_class Class_Group = Group"

fun handle_event :: "('c, 'ms) env \<Rightarrow> client_event \<Rightarrow> ('c, 'ms) world \<Rightarrow> ('c, 'ms) world" where
  "handle_event env (ConversationStarted convo_id cls) w =
     record_conversation_started env convo_id (kind_for_class cls) w"
| "handle_event env (MessageReceived convo_id content account signer) w =
     record_message_received env convo_id content account signer w"
| "handle_event env (ConversationMembersChanged convo_id) w = record_members_changed convo_id w"
| "handle_event env (InboundError msg) w = log_at WARN (''inbound error: '' @ msg) w"
| "handle_event env OtherEvent w = w"

fun run_events ::
  "('c, 'ms) env \<Rightarrow> (moment \<times> client_event) list \<Rightarrow> ('c, 'ms) world \<Rightarrow> ('c, 'ms) world" where
  "run_events env [] w = w"
| "run_events env ((mo, evt) # evts) w = run_events env evts (handle_event (at env mo) evt w)"

section \<open>Lemmas\<close>

text \<open>Draining is a fold over what waits in the subscription.\<close>

lemma drain_loop_eq:
  "drain_loop handle sub s =
     (\<not> sub_connected sub, sub\<lparr>sub_queue := []\<rparr>, fold handle (sub_queue sub) s)"
proof (induction "sub_queue sub" arbitrary: sub s)
  case Nil
  then show ?case by (subst drain_loop.simps) (auto simp: try_recv_def)
next
  case (Cons x xs)
  let ?sub = "sub\<lparr>sub_queue := xs\<rparr>"
  have "drain_loop handle sub s = drain_loop handle ?sub (handle x s)"
    using Cons.hyps(2) [symmetric] by (subst drain_loop.simps) (simp add: try_recv_def)
  also have "\<dots> = (\<not> sub_connected sub, sub\<lparr>sub_queue := []\<rparr>, fold handle xs (handle x s))"
    using Cons.hyps(1) [of ?sub] by simp
  finally show ?case by (simp add: Cons.hyps(2) [symmetric])
qed

lemma drain_eq:
  "drain handle sub s =
     (case sub of None \<Rightarrow> (None, s)
      | Some events \<Rightarrow> (if sub_connected events then Some (events\<lparr>sub_queue := []\<rparr>) else None,
                        fold handle (sub_queue events) s))"
  by (simp add: drain_def drain_loop_eq split: option.split)

end
