(* ===== verification/Lifecycle.thy ===== *)
theory Lifecycle
  imports Inbound
begin

text \<open>
  The lifecycle section of \<open>rust-lib/src/actions.rs\<close>: \<open>initialize\<close>, which brings the module up
  under the client lock, \<open>register_installation\<close>, and \<open>shutdown\<close>.  Everything outside the
  repository that \<open>initialize\<close> calls is a field of \<open>init_env\<close>, each with its failure.
\<close>

section \<open>What initialize calls\<close>

text \<open>The account machinery: a pending installation's key, its parsing, the account's address, the
  publication of the account's log.\<close>

datatype installation = Installation str

record account_api =
  ac_endorsement_request :: bytes
  ac_from_canonical_slice :: "bytes \<Rightarrow> str + bytes"
  ac_publish :: "bytes \<Rightarrow> str + unit"
  ac_addr :: str

record ('c, 'ms) init_env =
  ie_context :: "str option"
  ie_create_dir_all :: "str \<Rightarrow> str + unit"
  ie_encrypted_store :: "str \<Rightarrow> str \<Rightarrow> str + unit"
  ie_account :: account_api
  ie_build :: "installation \<Rightarrow> str + 'c \<times> transport_call list"
  ie_driver :: "'ms driver_api"
  ie_on_message_received :: "str + subscription"
  ie_on_node_started :: "str + subscription"
  ie_on_connection_state_changed :: "str + subscription"

section \<open>Operations\<close>

definition LIBCHAT_PERSISTENCE_ENABLED :: bool where
  "LIBCHAT_PERSISTENCE_ENABLED = False"

definition storage_key :: "str \<Rightarrow> str" where
  "storage_key persistence_path =
     ''rust-chat-'' @ map (\<lambda>c. if c = CHR ''/'' then CHR ''_'' else c) persistence_path"

definition register_installation :: "account_api \<Rightarrow> str + installation" where
  "register_installation ac =
     and_then (ac_from_canonical_slice ac (ac_endorsement_request ac)) (\<lambda>key.
     and_then (ac_publish ac key) (\<lambda>_.
       Inr (Installation (ac_addr ac))))"

text \<open>
  The steps before the workers exist: everything fallible and local, up to the state read back
  with every session marked live or history only.
\<close>

definition prepare_local ::
  "('c, 'ms) env \<Rightarrow> ('c, 'ms) init_env \<Rightarrow>
     init_error + 'c \<times> str channel \<times> (str \<times> bytes) list \<times> 'ms connection \<times> app_state" where
  "prepare_local env ie =
     and_then (ok_or (opt_filter (\<lambda>path. path \<noteq> []) (ie_context ie)) NoPersistencePath) (\<lambda>path.
     and_then (map_err (\<lambda>e. Init_internal (''cannot create instance persistence path: '' @ e))
                 (ie_create_dir_all ie path)) (\<lambda>_.
     let key = storage_key path in
     and_then (if LIBCHAT_PERSISTENCE_ENABLED
               then map_err (\<lambda>e. Init_internal (''open store failed: '' @ e))
                      (ie_encrypted_store ie (path @ ''/identity.db'') key)
               else Inr ()) (\<lambda>_.
     and_then (map_err (\<lambda>e. Init_internal (''publish account failed: '' @ e))
                 (register_installation (ie_account ie))) (\<lambda>inst.
     let transport = sdk_delivery_new () unbounded in
     and_then (map_err (\<lambda>e. Init_internal (''client build failed: '' @ e))
                 (ie_build ie inst)) (\<lambda>(client, cs).
     let p = foldl publisher_call (sdk_delivery_publisher transport) cs in
     and_then (map_err (\<lambda>e. Init_internal (''open chat.db failed: '' @ e_sql_text env e))
                 (open_db (ie_driver ie) (path @ ''/chat.db'') key)) (\<lambda>chat_db.
     and_then (map_err (\<lambda>e. Init_internal (''read chat.db failed: '' @ e_sql_text env e))
                 (load_state (e_store env) (e_fault env) chat_db)) (\<lambda>state.
     and_then (map_err (\<lambda>e. Init_internal (''list_all_conversations failed: '' @ e))
                 (ca_list_all_conversations (e_client env) client)) (\<lambda>live.
       Inr (client, sp_subscribe_tx p, sp_sends p, chat_db,
            state\<lparr>as_chats := hm_map_values
              (\<lambda>s. s\<lparr>cs_history_only := cs_chat_id s \<notin> set live\<rparr>) (as_chats state)\<rparr>)))))))))"

definition initialize ::
  "('c, 'ms) env \<Rightarrow> ('c, 'ms) init_env \<Rightarrow> ('c, 'ms) world \<Rightarrow>
     (init_error + 'c module_state) \<times> ('c, 'ms) world" where
  "initialize env ie w =
     (case prepare_local env ie of
        Inl e \<Rightarrow> (Inl e, w)
      | Inr (client, subscribe_rx, sends, chat_db, state) \<Rightarrow>
          let w = w\<lparr>w_pending := w_pending w @ send_calls sends\<rparr> in
          (case ie_on_message_received ie of
             Inl e \<Rightarrow> (Inl (Delivery (''subscribe(messageReceived) failed: '' @ e)), w)
           | Inr messages_sub \<Rightarrow> (case ie_on_node_started ie of
               Inl e \<Rightarrow> (Inl (Delivery (''subscribe(nodeStarted) failed: '' @ e)), w)
             | Inr started_sub \<Rightarrow>
                 let (conn_sub, w) = (case ie_on_connection_state_changed ie of
                        Inr sub \<Rightarrow> (Some sub, w)
                      | Inl e \<Rightarrow> (None, log_at ERROR
                          (''init: subscribe(connectionStateChanged) failed: '' @ e) w));
                     b = spawn_bridge messages_sub started_sub conn_sub unbounded subscribe_rx;
                     w = with_display_mut (\<lambda>d. d\<lparr>d_state := state, d_chat_db := Some chat_db,
                           d_delivery_state := ds_initialising,
                           d_intrinsic_name := ca_installation_name (e_client env) client,
                           d_address := ca_addr (e_client env) client\<rparr>) w
                 in (Inr \<lparr>ms_client = client, ms_inbound_thread = Some b,
                          ms_event_thread = Some ()\<rparr>, w))))"

text \<open>
  \<open>shutdown\<close>: the bridge sees the stop flag and is joined, the client is dropped, the event
  consumer handles what is left of the client's events (\<open>rest\<close>) and is joined, the display is
  reset.  \<open>acts\<close> is what the process does around the bridge's last turns.
\<close>

definition stop_bridge ::
  "decoders \<Rightarrow> (bridge \<times> ('c, 'ms) world \<Rightarrow> bridge \<times> ('c, 'ms) world) list \<Rightarrow>
     'c module_state \<Rightarrow> ('c, 'ms) world \<Rightarrow> ('c, 'ms) world" where
  "stop_bridge dcs acts ms w =
     (case ms_inbound_thread ms of
        None \<Rightarrow> w
      | Some b \<Rightarrow> snd (run_bridge dcs acts (b\<lparr>b_stop := True\<rparr>) w))"

definition shutdown ::
  "('c, 'ms) env \<Rightarrow> decoders \<Rightarrow>
     (bridge \<times> ('c, 'ms) world \<Rightarrow> bridge \<times> ('c, 'ms) world) list \<Rightarrow> (moment \<times> client_event) list \<Rightarrow>
     'c module_state \<Rightarrow> ('c, 'ms) world \<Rightarrow> ('c, 'ms) world" where
  "shutdown env dcs acts rest ms w =
     (let w = stop_bridge dcs acts ms w;
          w = (case ms_event_thread ms of None \<Rightarrow> w | Some _ \<Rightarrow> run_events env rest w)
      in with_display_mut (\<lambda>_. default_display) w)"

end
