(* ===== verification/Logging.thy ===== *)
theory Logging
  imports Containers Utf8
begin

text \<open>
  \<open>rust-lib/src/logging.rs\<close>: the level and filter a run logs at, the line formats, the run's log
  file with its rotation, and the pruning of old runs.  The instance directory is modelled as the
  names in it and the files they lead to (\<open>log_dir\<close>); every file operation may fail, which one does
  is a parameter (\<open>io_fault\<close>).  \<open>EnvFilter\<close>, the clock and the subscriber registry are parameters.
\<close>

section \<open>Levels and filters\<close>

definition DEFAULT_LEVEL :: str where "DEFAULT_LEVEL = ''info''"
definition STEM :: str where "STEM = ''chat_module''"
definition STAMP_LEN :: nat where "STAMP_LEN = 15"
definition ROTATE_AFTER_LINES :: u64 where "ROTATE_AFTER_LINES = 10000"
definition KEEP_RUNS :: nat where "KEEP_RUNS = 10"

definition filter_for :: "str \<Rightarrow> str" where
  "filter_for lvl = ''warn,chat_module='' @ lvl @ '',libchat='' @ lvl @ '',logos_generic_chat='' @ lvl"

definition level_or_default :: "str \<Rightarrow> str" where
  "level_or_default requested =
     (if requested \<in> {''error'', ''warn'', ''info'', ''debug'', ''trace''} then requested
      else DEFAULT_LEVEL)"

text \<open>The characters \<open>str::trim\<close> removes: Unicode's white space, by its UTF-8 bytes.\<close>

definition whitespace_chars :: "bytes list" where
  "whitespace_chars = map (map char_of)
     ([[9], [10], [11], [12], [13], [32], [194, 133], [194, 160], [225, 154, 128],
       [226, 128, 168], [226, 128, 169], [226, 128, 175], [226, 129, 159], [227, 128, 128]]
      @ map (\<lambda>n. [226, 128, n]) [128, 129, 130, 131, 132, 133, 134, 135, 136, 137, 138] :: nat list list)"

definition trimmed_empty :: "str \<Rightarrow> bool" where
  "trimmed_empty s \<longleftrightarrow> (\<forall>c \<in> set (chars s). c \<in> set whitespace_chars)"

record 'f filter_api =
  fl_try_new :: "str \<Rightarrow> str + 'f"
  fl_new :: "str \<Rightarrow> 'f"
  fl_text :: "'f \<Rightarrow> str"

definition filter_from :: "'f filter_api \<Rightarrow> str option \<Rightarrow> str \<Rightarrow> 'f" where
  "filter_from fl env lvl =
     unwrap_or (Option.bind (opt_filter (\<lambda>v. \<not> trimmed_empty v) env) (\<lambda>v. ok (fl_try_new fl v)))
       (fl_new fl (filter_for lvl))"

section \<open>Line formats\<close>

fun level_as_str :: "level \<Rightarrow> str" where
  "level_as_str TRACE = ''TRACE''"
| "level_as_str DEBUG = ''DEBUG''"
| "level_as_str INFO = ''INFO''"
| "level_as_str WARN = ''WARN''"
| "level_as_str ERROR = ''ERROR''"

definition severity :: "level \<Rightarrow> str" where
  "severity lvl = (if lvl = WARN then ''WARNING'' else level_as_str lvl)"

abbreviation newline :: char where
  "newline \<equiv> char_of (10 :: nat)"

text \<open>\<open>HostLine\<close> and \<open>StampedLine\<close>: the fields arrive formatted, the time as text.\<close>

definition host_line :: "level \<Rightarrow> str \<Rightarrow> str \<Rightarrow> str" where
  "host_line lvl target formatted = severity lvl @ '': '' @ target @ '': '' @ formatted @ [newline]"

definition stamped_line :: "str \<Rightarrow> level \<Rightarrow> str \<Rightarrow> str \<Rightarrow> str" where
  "stamped_line time lvl target formatted = time @ '' '' @ host_line lvl target formatted"

section \<open>The instance directory\<close>

text \<open>
  Names lead to files, files hold bytes; \<open>ld_next\<close> numbers the next new file.  An open handle is a
  file's number, so it stays on its file when the name moves.
\<close>

record log_dir =
  ld_names :: "nat hash_map"
  ld_data :: "nat \<Rightarrow> bytes"
  ld_next :: nat

text \<open>Which operation fails: a failing write may have written a prefix.\<close>

record io_fault =
  io_create_dir :: "str option"
  io_open :: "str option"
  io_write :: "(str \<times> nat) option"
  io_rename :: "str option"
  io_create :: "str option"
  io_read_dir :: "str option"
  io_remove :: "str \<Rightarrow> str option"

definition no_io_fault :: io_fault where
  "no_io_fault = \<lparr>io_create_dir = None, io_open = None, io_write = None, io_rename = None,
     io_create = None, io_read_dir = None, io_remove = (\<lambda>_. None)\<rparr>"

text \<open>The file a name leads to, a new empty one when there is none.\<close>

definition create_if_missing :: "str \<Rightarrow> log_dir \<Rightarrow> nat \<times> log_dir" where
  "create_if_missing name ld =
     (case hm_get (ld_names ld) name of
        Some f \<Rightarrow> (f, ld)
      | None \<Rightarrow> let f = ld_next ld in
          (f, ld\<lparr>ld_names := hm_insert name f (ld_names ld), ld_data := (ld_data ld)(f := []),
                 ld_next := Suc f\<rparr>))"

definition open_append :: "io_fault \<Rightarrow> str \<Rightarrow> log_dir \<Rightarrow> (str + nat) \<times> log_dir" where
  "open_append io name ld =
     (case io_open io of
        Some e \<Rightarrow> (Inl e, ld)
      | None \<Rightarrow> let (f, ld) = create_if_missing name ld in (Inr f, ld))"

text \<open>\<open>File::create\<close> empties the file that is there.\<close>

definition file_create :: "io_fault \<Rightarrow> str \<Rightarrow> log_dir \<Rightarrow> (str + nat) \<times> log_dir" where
  "file_create io name ld =
     (case io_create io of
        Some e \<Rightarrow> (Inl e, ld)
      | None \<Rightarrow> let (f, ld) = create_if_missing name ld
                in (Inr f, ld\<lparr>ld_data := (ld_data ld)(f := [])\<rparr>))"

definition write_all :: "io_fault \<Rightarrow> nat \<Rightarrow> bytes \<Rightarrow> log_dir \<Rightarrow> (str + unit) \<times> log_dir" where
  "write_all io f buf ld =
     (case io_write io of
        None \<Rightarrow> (Inr (), ld\<lparr>ld_data := (ld_data ld)(f := ld_data ld f @ buf)\<rparr>)
      | Some (e, n) \<Rightarrow> (Inl e, ld\<lparr>ld_data := (ld_data ld)(f := ld_data ld f @ take n buf)\<rparr>))"

text \<open>\<open>fs::rename\<close> replaces what the new name led to.\<close>

definition fs_rename :: "io_fault \<Rightarrow> str \<Rightarrow> str \<Rightarrow> log_dir \<Rightarrow> (str + unit) \<times> log_dir" where
  "fs_rename io old new ld =
     (case io_rename io of
        Some e \<Rightarrow> (Inl e, ld)
      | None \<Rightarrow> (case hm_get (ld_names ld) old of
          None \<Rightarrow> (Inl ''No such file or directory'', ld)
        | Some f \<Rightarrow> (Inr (), ld\<lparr>ld_names := hm_insert new f (hm_remove old (ld_names ld))\<rparr>)))"

definition remove_file :: "io_fault \<Rightarrow> str \<Rightarrow> log_dir \<Rightarrow> log_dir" where
  "remove_file io name ld =
     (case io_remove io name of
        Some _ \<Rightarrow> ld
      | None \<Rightarrow> ld\<lparr>ld_names := hm_remove name (ld_names ld)\<rparr>)"

section \<open>The run's log file\<close>

record open_log =
  ol_file :: nat
  ol_path :: str
  ol_stamp :: str
  ol_lines :: u64
  ol_rotations :: "32 word"

type_synonym run_log = "open_log option"

definition live_name :: "str \<Rightarrow> str" where
  "live_name stamp = STEM @ ''_'' @ stamp @ ''.log''"

definition rotated_name :: "str \<Rightarrow> nat \<Rightarrow> str" where
  "rotated_name stamp n = STEM @ ''_'' @ stamp @ ''.'' @ dec3 n @ ''.log''"

definition rotate :: "io_fault \<Rightarrow> open_log \<Rightarrow> log_dir \<Rightarrow> (str + unit) \<times> open_log \<times> log_dir" where
  "rotate io ol ld =
     (let ol = ol\<lparr>ol_lines := 0, ol_rotations := ol_rotations ol + 1\<rparr>;
          aside = rotated_name (ol_stamp ol) (unat (ol_rotations ol));
          (r, ld) = fs_rename io (ol_path ol) aside ld
      in case r of
           Inl e \<Rightarrow> (Inl e, ol, ld)
         | Inr _ \<Rightarrow>
             let (r, ld) = file_create io (ol_path ol) ld
             in case r of
                  Inl e \<Rightarrow> (Inl e, ol, ld)
                | Inr f \<Rightarrow> (Inr (), ol\<lparr>ol_file := f\<rparr>, ld))"

definition newlines :: "bytes \<Rightarrow> nat" where
  "newlines buf = length (filter (\<lambda>b. b = newline) buf)"

definition append_line ::
  "io_fault \<Rightarrow> bytes \<Rightarrow> open_log \<Rightarrow> log_dir \<Rightarrow> (str + unit) \<times> open_log \<times> log_dir" where
  "append_line io buf ol ld =
     (let (r, ld) = write_all io (ol_file ol) buf ld
      in case r of
           Inl e \<Rightarrow> (Inl e, ol, ld)
         | Inr _ \<Rightarrow>
             let ol = ol\<lparr>ol_lines := ol_lines ol + word_of_nat (newlines buf)\<rparr>
             in if ROTATE_AFTER_LINES \<le> ol_lines ol then rotate io ol ld else (Inr (), ol, ld))"

text \<open>\<open>io::Write for RunLog\<close>: an inert log takes every line and keeps none.\<close>

definition log_write ::
  "io_fault \<Rightarrow> bytes \<Rightarrow> run_log \<Rightarrow> log_dir \<Rightarrow> (str + nat) \<times> run_log \<times> log_dir" where
  "log_write io buf log ld =
     (case log of
        None \<Rightarrow> (Inr (length buf), None, ld)
      | Some ol \<Rightarrow> let (r, ol, ld) = append_line io buf ol ld
                  in (map_ok (\<lambda>_. length buf) r, Some ol, ld))"

definition inert :: run_log where
  "inert = None"

text \<open>\<open>write_stamped\<close>: a file another thread holds costs the line.\<close>

definition write_stamped ::
  "io_fault \<Rightarrow> bool \<Rightarrow> str \<Rightarrow> str \<Rightarrow> run_log \<Rightarrow> log_dir \<Rightarrow> run_log \<times> log_dir" where
  "write_stamped io busy time line log ld =
     (if busy then (log, ld)
      else (case log of
              None \<Rightarrow> (None, ld)
            | Some ol \<Rightarrow> let (_, ol, ld) = append_line io (time @ '' '' @ line @ [newline]) ol ld
                        in (Some ol, ld)))"

text \<open>\<open>Path::join\<close> of a directory and a file name, as displayed.\<close>

definition join_path :: "str \<Rightarrow> str \<Rightarrow> str" where
  "join_path dir name =
     (if dir = [] then name else if last dir = CHR ''/'' then dir @ name else dir @ ''/'' @ name)"

text \<open>\<open>RunLog::path\<close>, for a run whose files are in \<open>directory\<close>: empty for an inert log.\<close>

definition run_log_path :: "str \<Rightarrow> run_log \<Rightarrow> str" where
  "run_log_path directory log = unwrap_or (map_option (\<lambda>ol. join_path directory (ol_path ol)) log) []"

text \<open>
  \<open>flush\<close>: a \<open>File\<close> buffers nothing, so there is nothing left to write.  \<open>make_writer\<close> clones the
  handle; the clone is the same log.
\<close>

definition log_flush :: "run_log \<Rightarrow> log_dir \<Rightarrow> (str + unit) \<times> run_log \<times> log_dir" where
  "log_flush log ld = (case log of None \<Rightarrow> (Inr (), None, ld) | Some ol \<Rightarrow> (Inr (), Some ol, ld))"

definition make_writer :: "run_log \<Rightarrow> run_log" where
  "make_writer log = log"

section \<open>Pruning\<close>

definition strip_prefix :: "str \<Rightarrow> str \<Rightarrow> str option" where
  "strip_prefix p s = (if prefix p s then Some (drop (length p) s) else None)"

text \<open>\<open>split_once('_')\<close>.\<close>

definition split_once :: "char \<Rightarrow> str \<Rightarrow> (str \<times> str) option" where
  "split_once c s = (if c \<in> set s
     then Some (takeWhile (\<lambda>x. x \<noteq> c) s, tl (dropWhile (\<lambda>x. x \<noteq> c) s)) else None)"

definition is_run_suffix :: "str \<Rightarrow> bool" where
  "is_run_suffix suf \<longleftrightarrow> suf = ''.log'' \<or>
     (length suf = 8 \<and> suf ! 0 = CHR ''.'' \<and> suffix ''.log'' suf \<and>
      (\<forall>b \<in> set (take 3 (drop 1 suf)). is_ascii_digit b))"

definition stamp_of :: "str \<Rightarrow> str option" where
  "stamp_of file_name =
     Option.bind (strip_prefix STEM file_name) (\<lambda>r.
     Option.bind (strip_prefix ''_'' r) (\<lambda>rest.
     Option.bind (slice_to rest STAMP_LEN) (\<lambda>stamp.
     Option.bind (split_once (CHR ''_'') stamp) (\<lambda>(date, time).
       if length date \<noteq> 8 \<or> length time \<noteq> 6 \<or> \<not> list_all is_ascii_digit date
          \<or> \<not> list_all is_ascii_digit time then None
       else if is_run_suffix (drop STAMP_LEN rest) then Some stamp else None))))"

text \<open>\<open>BTreeMap<String, Vec<_>>::entry(k).or_default().push(v)\<close>, the map sorted by key.\<close>

fun bt_push :: "str \<Rightarrow> 'v \<Rightarrow> (str \<times> 'v list) list \<Rightarrow> (str \<times> 'v list) list" where
  "bt_push k v [] = [(k, [v])]"
| "bt_push k v ((k', vs) # rest) =
     (if k < k' then (k, [v]) # (k', vs) # rest
      else if k = k' then (k', vs @ [v]) # rest
      else (k', vs) # bt_push k v rest)"

definition run_stamp :: "str \<Rightarrow> str option" where
  "run_stamp name = (if utf8 name then stamp_of name else None)"

fun group_runs :: "str list \<Rightarrow> (str \<times> str list) list \<Rightarrow> (str \<times> str list) list" where
  "group_runs [] runs = runs"
| "group_runs (name # names) runs =
     (case run_stamp name of
        None \<Rightarrow> group_runs names runs
      | Some stamp \<Rightarrow> group_runs names (bt_push stamp name runs))"

definition prune_runs :: "io_fault \<Rightarrow> log_dir \<Rightarrow> log_dir" where
  "prune_runs io ld =
     (case io_read_dir io of
        Some _ \<Rightarrow> ld
      | None \<Rightarrow>
          let runs = group_runs (map fst (ld_names ld)) [];
              excess = length runs - KEEP_RUNS
          in fold (remove_file io) (concat (map snd (take excess runs))) ld)"

section \<open>Opening and installing\<close>

text \<open>
  \<open>RunLog::open\<close> in the instance directory of the host's context, at a local time given as its
  stamp.
\<close>

definition open_run_log ::
  "io_fault \<Rightarrow> str option \<Rightarrow> str \<Rightarrow> log_dir \<Rightarrow> (str + open_log) \<times> log_dir" where
  "open_run_log io context_path stamp ld =
     (case opt_filter (\<lambda>path. path \<noteq> []) context_path of
        None \<Rightarrow> (Inl ''the host assigned no instance directory'', ld)
      | Some directory \<Rightarrow> (case io_create_dir io of
          Some e \<Rightarrow> (Inl (''cannot create '' @ directory @ '': '' @ e), ld)
        | None \<Rightarrow>
            let (r, ld) = open_append io (live_name stamp) ld
            in case r of
                 Inl e \<Rightarrow> (Inl (''cannot write '' @ join_path directory (live_name stamp) @ '': '' @ e), ld)
               | Inr f \<Rightarrow>
                   (Inr \<lparr>ol_file = f, ol_path = live_name stamp, ol_stamp = stamp, ol_lines = 0,
                         ol_rotations = 0\<rparr>, prune_runs io ld)))"

text \<open>The statics of the module and the process's stderr.\<close>

record 'f log_state =
  lg_installed :: bool
  lg_path :: str
  lg_run :: "run_log option"
  lg_filter :: "'f option"
  lg_stderr :: "str list"
  lg_dir :: log_dir

definition install_once ::
  "'f filter_api \<Rightarrow> io_fault \<Rightarrow> str option \<Rightarrow> str option \<Rightarrow> str \<Rightarrow> str + unit \<Rightarrow> str \<Rightarrow>
     'f log_state \<Rightarrow> 'f log_state" where
  "install_once fl io rust_log context_path stamp try_init lvl ls =
     (if lg_installed ls then ls
      else
        let flt = filter_from fl rust_log (level_or_default lvl);
            selected = fl_text fl flt;
            (r, ld) = open_run_log io context_path stamp (lg_dir ls);
            (run_log, opened, warnings) = (case r of
               Inr ol \<Rightarrow> (Some ol, run_log_path (unwrap_or context_path []) (Some ol), [])
             | Inl reason \<Rightarrow> (inert, [],
                 [''Warning: chat_module: no log file ('' @ reason
                   @ ''); the chat core's events reach stderr only'']));
            destination = (if opened = [] then ''stderr'' else ''stderr and '' @ opened);
            outcome = (case try_init of
               Inr _ \<Rightarrow> ''chat_module: logging '' @ selected @ '' to '' @ destination
             | Inl e \<Rightarrow> ''Warning: chat_module: another subscriber is already installed, ''
                 @ ''the chat core's events will not be logged: '' @ e)
        in ls\<lparr>lg_installed := True, lg_path := opened,
              lg_run := (case lg_run ls of None \<Rightarrow> Some run_log | Some l \<Rightarrow> Some l),
              lg_filter := (case try_init of Inr _ \<Rightarrow> Some flt | Inl _ \<Rightarrow> lg_filter ls),
              lg_stderr := lg_stderr ls @ warnings @ [outcome], lg_dir := ld\<rparr>)"

definition log_path :: "'f log_state \<Rightarrow> str" where
  "log_path ls = lg_path ls"

definition write_line :: "io_fault \<Rightarrow> bool \<Rightarrow> str \<Rightarrow> str \<Rightarrow> 'f log_state \<Rightarrow> 'f log_state" where
  "write_line io busy time line ls =
     (case lg_run ls of
        None \<Rightarrow> ls
      | Some log \<Rightarrow> let (log, ld) = write_stamped io busy time line log (lg_dir ls)
                   in ls\<lparr>lg_run := Some log, lg_dir := ld\<rparr>)"

end
