(* ===== verification/Chat_Module.thy ===== *)
theory Chat_Module
  imports Lifecycle Logging
begin

text \<open>
  \<open>rust-lib/src/lib.rs\<close> and \<open>panic_hook.rs\<close>: the implementation of the contract's methods over
  the operations, and the panic hook \<open>init\<close> installs.  A \<open>result\<close> is the error's text or a JSON
  value; the record getters return the contract's records.
\<close>

section \<open>The panic hook\<close>

text \<open>A panic's payload, as far as the hook can read it.\<close>

datatype panic_payload = Str_payload str | String_payload str | Other_payload

record panic_info =
  pi_payload :: panic_payload
  pi_location :: "(str \<times> nat \<times> nat) option"

definition panic_message :: "panic_info \<Rightarrow> str" where
  "panic_message info = (case pi_payload info of
     Str_payload s \<Rightarrow> s | String_payload s \<Rightarrow> s | Other_payload \<Rightarrow> ''<non-string panic payload>'')"

definition panic_origin :: "panic_info \<Rightarrow> str" where
  "panic_origin info = (case pi_location info of
     Some (file, line, column) \<Rightarrow> file @ '':'' @ dec line @ '':'' @ dec column
   | None \<Rightarrow> ''<unknown location>'')"

text \<open>
  The installed hook: one line to stderr, one with the backtrace to the run's log, then the hook
  that was installed before, which is a parameter.
\<close>

definition panic_hook ::
  "io_fault \<Rightarrow> bool \<Rightarrow> str \<Rightarrow> str \<Rightarrow> (panic_info \<Rightarrow> 'f log_state \<Rightarrow> 'f log_state) \<Rightarrow>
     panic_info \<Rightarrow> 'f log_state \<Rightarrow> 'f log_state" where
  "panic_hook io busy time backtrace previous info ls =
     (let msg = panic_message info;
          origin = panic_origin info;
          ls = ls\<lparr>lg_stderr := lg_stderr ls
                 @ [''chat_module: panic at '' @ origin @ '': '' @ msg]\<rparr>
      in previous info (write_line io busy time
           (''CRITICAL: chat_module: panic at '' @ origin @ '': '' @ msg @ [newline] @ backtrace) ls))"

section \<open>The process\<close>

record ('c, 'ms, 'f) process =
  p_world :: "('c, 'ms) world"
  p_log :: "'f log_state"
  p_hooks :: nat

text \<open>What \<open>logging::install_once\<close> reads from its surroundings.\<close>

record 'f log_env =
  le_filters :: "'f filter_api"
  le_io :: io_fault
  le_rust_log :: "str option"
  le_context :: "str option"
  le_stamp :: str
  le_try_init :: "str + unit"

record chat_config =
  cfg_delivery_preset :: "str option"
  cfg_log_level :: "str option"

definition ERR_LOCK_POISONED :: str where
  "ERR_LOCK_POISONED = ''internal error: module lock poisoned''"

text \<open>\<open>panic_hook::install_once\<close>: the number of hooks installed is at most one.\<close>

definition install_hook_once :: "nat \<Rightarrow> nat" where
  "install_hook_once n = (if n = 0 then 1 else n)"

section \<open>Lifecycle methods\<close>

definition preset_of :: "chat_config \<Rightarrow> str" where
  "preset_of config =
     (case unwrap_or (cfg_delivery_preset config) [] of [] \<Rightarrow> ''logos.test'' | named \<Rightarrow> named)"

text \<open>The part of \<open>init\<close> after the hook and the subscriber.\<close>

definition init_world ::
  "('c, 'ms) env \<Rightarrow> ('c, 'ms) init_env \<Rightarrow> str \<Rightarrow> ('c, 'ms) world \<Rightarrow> (str + json) \<times> ('c, 'ms) world" where
  "init_world env ie preset w =
     (case install_with (initialize env ie) w of
        (Inl _, w) \<Rightarrow> (Inl ERR_LOCK_POISONED, w)
      | (Inr (Inr Installed), w) \<Rightarrow>
          (Inr JNull, start_delivery_bootstrap preset
             (log_at INFO (''init: state installed, joining delivery preset '' @ preset) w))
      | (Inr (Inr AlreadyInstalled), w) \<Rightarrow>
          let (claimed, w) = claim_delivery_retry w in
          if claimed
          then (Inr JNull, start_delivery_bootstrap preset
                 (log_at INFO (''init: delivery never started, joining delivery preset '' @ preset) w))
          else (Inr JNull, log_at WARN
                 (''init: already initialised; any new arguments are ignored, ''
                  @ ''call shutdown() first to reconfigure'') w)
      | (Inr (Inl e), w) \<Rightarrow>
          (Inl (init_error_text e), log_at ERROR (''init: '' @ init_error_text e) w))"

definition init ::
  "('c, 'ms) env \<Rightarrow> ('c, 'ms) init_env \<Rightarrow> 'f log_env \<Rightarrow> chat_config \<Rightarrow> ('c, 'ms, 'f) process \<Rightarrow>
     (str + json) \<times> ('c, 'ms, 'f) process" where
  "init env ie le config p =
     (let p = p\<lparr>p_hooks := install_hook_once (p_hooks p)\<rparr>;
          p = p\<lparr>p_log := install_once (le_filters le) (le_io le) (le_rust_log le) (le_context le)
                 (le_stamp le) (le_try_init le) (unwrap_or (cfg_log_level config) []) (p_log p)\<rparr>;
          (r, w) = init_world env ie (preset_of config) (p_world p)
      in (r, p\<lparr>p_world := w\<rparr>))"

text \<open>\<open>shutdown\<close> takes the state out of the lock first, then stops the workers without it.\<close>

definition shutdown_module ::
  "('c, 'ms) env \<Rightarrow> decoders \<Rightarrow>
     (bridge \<times> ('c, 'ms) world \<Rightarrow> bridge \<times> ('c, 'ms) world) list \<Rightarrow> (moment \<times> client_event) list \<Rightarrow>
     ('c, 'ms) world \<Rightarrow> (str + json) \<times> ('c, 'ms) world" where
  "shutdown_module env dcs acts rest w =
     (let (taken, h) = take_state (w_module w); w = w\<lparr>w_module := h\<rparr> in
      case taken of
        Inl _ \<Rightarrow> (Inl ERR_LOCK_POISONED, w)
      | Inr (Some ms) \<Rightarrow> (Inr JNull, shutdown env dcs acts rest ms w)
      | Inr None \<Rightarrow> (Inr JNull, w))"

definition get_log_path :: "('c, 'ms, 'f) process \<Rightarrow> str" where
  "get_log_path p = log_path (p_log p)"

definition health :: bool where
  "health = True"

section \<open>The other methods\<close>

text \<open>\<open>map(|()| Value::Null)\<close> or \<open>map(Value::String)\<close>, then \<open>map_err(|e| e.to_string())\<close>.\<close>

definition as_result ::
  "('c, 'ms) env \<Rightarrow> ('a \<Rightarrow> json) \<Rightarrow> (core_error + 'a) \<times> ('c, 'ms) world \<Rightarrow>
     (str + json) \<times> ('c, 'ms) world" where
  "as_result env f rw = (map_err (core_error_text env) (map_ok f (fst rw)), snd rw)"

datatype request =
    Set_installation_name str
  | Create_conversation str
  | Create_group_conversation str str
  | Add_group_member str str
  | Send_message str str
  | Set_conversation_nickname str str
  | Delete_conversation str

fun serve :: "('c, 'ms) env \<Rightarrow> request \<Rightarrow> ('c, 'ms) world \<Rightarrow> (str + json) \<times> ('c, 'ms) world" where
  "serve env (Set_installation_name name) w =
     as_result env (\<lambda>_. JNull) (set_installation_name env name w)"
| "serve env (Create_conversation peer_address) w =
     as_result env JStr (create_conversation env peer_address w)"
| "serve env (Create_group_conversation name desc) w =
     as_result env JStr (create_group_conversation env name desc w)"
| "serve env (Add_group_member convo_id peer_address) w =
     as_result env (\<lambda>_. JNull) (add_group_member env convo_id peer_address w)"
| "serve env (Send_message convo_id content) w =
     as_result env (\<lambda>_. JNull) (send_message env convo_id content w)"
| "serve env (Set_conversation_nickname convo_id nickname) w =
     as_result env (\<lambda>_. JNull) (set_conversation_nickname env convo_id nickname w)"
| "serve env (Delete_conversation convo_id) w =
     as_result env (\<lambda>_. JNull) (delete_conversation env convo_id w)"

text \<open>The getters.\<close>

datatype reply =
    Text str | Conversations "conversation list" | Messages "message_view list"
  | Members "group_member list" | Status_reply status_view | Flag bool

datatype query =
    Health | Get_installation_name | Get_address | List_conversations | Get_messages str
  | List_group_members str | Get_status

fun answer :: "('c, 'ms) env \<Rightarrow> query \<Rightarrow> ('c, 'ms) world \<Rightarrow> reply \<times> ('c, 'ms) world" where
  "answer env Health w = (Flag health, w)"
| "answer env Get_installation_name w = (Text (installation_name w), w)"
| "answer env Get_address w = (Text (get_address w), w)"
| "answer env List_conversations w = (Conversations (list_conversations w), w)"
| "answer env (Get_messages convo_id) w = (Messages (get_messages convo_id w), w)"
| "answer env (List_group_members convo_id) w =
     (let (members, w) = list_group_members env convo_id w in (Members members, w))"
| "answer env Get_status w = (Status_reply (status w), w)"

end
