(* ===== verification/Chat_Sync.thy ===== *)
theory Chat_Sync
  imports Chat_Module
begin

text \<open>
  The display and \<open>chat.db\<close>: what the operations of \<open>actions.rs\<close> keep true between the sessions
  in memory and the tables on disk (\<open>in_sync\<close>), request by request and over runs of requests and
  client events; the frame lemmas of the operations (what each leaves alone) come first.
\<close>

section \<open>Frames\<close>

lemma run_transport_client [simp]:
  "ms_client (snd (run_transport cs ms)) = ms_client ms"
  "ms_event_thread (snd (run_transport cs ms)) = ms_event_thread ms"
  by (simp_all add: run_transport_def Let_def)

text \<open>A call on the client touches the handle and hands over sends, nothing else.\<close>

lemma with_client_frame:
  assumes "with_client f w = (r, w')"
  shows "w_display w' = w_display w" "w_events w' = w_events w" "w_log w' = w_log w"
    and "w_own_node_preset w' = w_own_node_preset w"
    and "\<exists>sends. w_pending w' = w_pending w @ send_calls sends"
    and "mh_poisoned (w_module w') = mh_poisoned (w_module w)"
    and "(mh_inner (w_module w') = None) = (mh_inner (w_module w) = None)"
  using assms
  by (auto simp: with_client_def with_state_mut_def send_calls_def case_prod_unfold Let_def
      split: option.splits if_splits sum.splits)

lemmas with_client_frames [simp] =
  with_client_frame(1-4) [OF prod.collapse [symmetric]]

lemma with_client_not_init:
  "\<not> mh_poisoned (w_module w) \<Longrightarrow> mh_inner (w_module w) = None \<Longrightarrow> fst (with_client f w) = Inl NotInit"
  by (simp add: with_client_def with_state_mut_def)

lemma flatten_Inr_iff: "flatten r = Inr x \<longleftrightarrow> r = Inr (Inr x)"
  by (cases r) (auto simp: flatten_def)

lemma set_delivery_state_frame [simp]:
  "d_state (w_display (set_delivery_state st detail w)) = d_state (w_display w)"
  "d_chat_db (w_display (set_delivery_state st detail w)) = d_chat_db (w_display w)"
  "w_module (set_delivery_state st detail w) = w_module w"
  "w_pending (set_delivery_state st detail w) = w_pending w"
  "w_own_node_preset (set_delivery_state st detail w) = w_own_node_preset w"
  by (simp_all add: set_delivery_state_def update_delivery_def Let_def)

section \<open>The display in step with the file\<close>

definition in_sync :: "('ms \<Rightarrow> message list) \<Rightarrow> 'ms display \<Rightarrow> bool" where
  "in_sync log d \<longleftrightarrow> (\<exists>db. d_chat_db d = Some db \<and> persisted log db (d_state d))"

text \<open>No statement fails and the message store answers.\<close>

definition healthy :: "('c, 'ms) env \<Rightarrow> bool" where
  "healthy env \<longleftrightarrow> e_fault env = no_fault \<and> store_up (e_store env)"

lemma in_sync_unchanged:
  "in_sync log d \<Longrightarrow> d_chat_db d' = d_chat_db d \<Longrightarrow> d_state d' = d_state d \<Longrightarrow> in_sync log d'"
  by (simp add: in_sync_def)

lemma update_chats_simps [simp]:
  "d_chat_db (update_chats f d) = d_chat_db d"
  "d_state (update_chats f d) = (d_state d)\<lparr>as_chats := f (chats d)\<rparr>"
  "d_delivery_state (update_chats f d) = d_delivery_state d"
  "d_intrinsic_name (update_chats f d) = d_intrinsic_name d"
  "d_address (update_chats f d) = d_address d"
  by (simp_all add: update_chats_def)

lemma new_session_simps [simp]:
  "cs_chat_id (new_session c k n de p) = c" "cs_kind (new_session c k n de p) = k"
  "cs_name (new_session c k n de p) = n" "cs_description (new_session c k n de p) = de"
  "cs_peer (new_session c k n de p) = p" "cs_messages (new_session c k n de p) = []"
  "cs_older_messages (new_session c k n de p) = 0" "cs_nickname (new_session c k n de p) = None"
  "\<not> cs_history_only (new_session c k n de p)"
  by (simp_all add: new_session_def)

text \<open>
  Storing a session and writing its row: the chat is new, or its history is the one shown before.
\<close>

lemma persist_put:
  assumes s: "in_sync log d" and cid: "cs_chat_id sess = cid"
    and hist: "case hm_get (chats d) cid of
        None \<Rightarrow> cs_messages sess = [] \<and> cs_older_messages sess = 0
      | Some old \<Rightarrow> cs_messages sess = cs_messages old \<and> cs_older_messages sess = cs_older_messages old"
    and w: "persist_chat env cid (update_chats (hm_insert cid sess) d) = Inr d'"
  shows "in_sync log d'"
proof -
  from s obtain db where db: "d_chat_db d = Some db" and p: "persisted log db (d_state d)"
    by (auto simp: in_sync_def)
  have "hm_get (hm_insert cid sess (chats d)) cid = Some sess"
    by (simp add: hm_simps persistedD(3) [OF p])
  with w db cid have d': "d' = (update_chats (hm_insert cid sess) d)
      \<lparr>d_chat_db := Some (db\<lparr>t_chats := hm_insert cid (row_of_session sess) (t_chats db)\<rparr>)\<rparr>"
    by (auto simp: persist_chat_def and_then_Inr_iff save_chat_Inr_iff)
  have "history_ok (stored_of log (t_messages db) cid) sess"
  proof (cases "hm_get (chats d) cid")
    case None
    with hist stored_of_unknown [OF p None] show ?thesis by (simp add: history_ok_empty)
  next
    case (Some old)
    then show ?thesis using hist persistedD(6) [OF p Some] by (simp add: history_ok_def)
  qed
  from persisted_put [OF p cid this] show ?thesis by (auto simp: in_sync_def d')
qed

lemma persist_chat_healthy:
  assumes "healthy env" and "in_sync log d"
  shows "\<exists>d'. persist_chat env cid (update_chats (hm_insert cid sess) d) = Inr d'"
proof -
  from assms(2) obtain db where db: "d_chat_db d = Some db" and p: "persisted log db (d_state d)"
    by (auto simp: in_sync_def)
  then have "hm_get (hm_insert cid sess (chats d)) cid = Some sess"
    by (simp add: hm_simps persistedD(3) [OF p])
  with db assms(1) show ?thesis
    by (simp add: persist_chat_def healthy_def save_chat_def)
qed

text \<open>Recording a message in a session that may change with it.\<close>

lemma chat_record_sync:
  assumes laws: "store_laws (e_store env) log" and s: "in_sync log d"
    and cid: "cs_chat_id sess = m_chat_id msg"
    and hist: "case hm_get (chats d) (m_chat_id msg) of
        None \<Rightarrow> changed \<and> cs_messages sess = [] \<and> cs_older_messages sess = 0
      | Some old \<Rightarrow> cs_messages sess = cs_messages old \<and> cs_older_messages sess = cs_older_messages old
          \<and> (changed \<or> sess = old)"
    and w: "chat_record_message env msg changed (update_chats (hm_insert (m_chat_id msg) sess) d)
              = (Inr u, d')"
  shows "in_sync log d'"
proof -
  let ?cid = "m_chat_id msg" and ?sess' = "sess\<lparr>cs_messages := cs_messages sess @ [display_message msg]\<rparr>"
  from s obtain db where db: "d_chat_db d = Some db" and p: "persisted log db (d_state d)"
    by (auto simp: in_sync_def)
  note wf = persistedD(3) [OF p]
  have get: "hm_get (hm_insert ?cid sess (chats d)) ?cid = Some sess"
    by (simp add: hm_simps wf)
  from w db get obtain db' where
    rec: "record_message (e_store env) (e_fault env) db (if changed then Some sess else None) msg = (Inr (), db')"
    and d': "d' = update_chats (hm_insert ?cid ?sess')
               ((update_chats (hm_insert ?cid sess) d)\<lparr>d_chat_db := Some db'\<rparr>)"
    by (auto simp: chat_record_message_def Let_def split: prod.splits)
  from record_message_Inr [OF laws rec] obtain ms' where
    log: "log ms' = log (t_messages db) @ [msg]" and
    db': "db' = (if changed then db\<lparr>t_chats := hm_insert ?cid (row_of_session sess) (t_chats db)\<rparr>
                 else db)\<lparr>t_messages := ms'\<rparr>"
    using cid by (auto split: if_splits)
  have hok: "history_ok (stored_of log (t_messages db) ?cid) sess"
  proof (cases "hm_get (chats d) ?cid")
    case None
    with hist stored_of_unknown [OF p None] show ?thesis by (simp add: history_ok_empty)
  next
    case (Some old)
    then show ?thesis using hist persistedD(6) [OF p Some] by (simp add: history_ok_def)
  qed
  have "persisted log (if changed then db\<lparr>t_chats := hm_insert ?cid (row_of_session sess) (t_chats db)\<rparr> else db)
      ((d_state d)\<lparr>as_chats := hm_insert ?cid sess (chats d)\<rparr>)"
  proof (cases changed)
    case True
    then show ?thesis using persisted_put [OF p cid hok] by simp
  next
    case False
    with hist have "hm_get (chats d) ?cid = Some sess" by (auto split: option.splits)
    from persisted_history_only [OF p this, of "cs_history_only sess"] False
    show ?thesis by simp
  qed
  from persisted_message [OF this, of msg sess ms'] get log
  have "persisted log db' ((d_state d)\<lparr>as_chats := hm_insert ?cid ?sess' (hm_insert ?cid sess (chats d))\<rparr>)"
    by (cases changed) (simp_all add: db')
  then show ?thesis by (simp add: in_sync_def d')
qed

lemma chat_record_healthy:
  "healthy env \<Longrightarrow> d_chat_db d \<noteq> None \<Longrightarrow> fst (chat_record_message env msg changed d) = Inr ()"
proof -
  assume "healthy env" "d_chat_db d \<noteq> None"
  moreover have "fst (record_message (e_store env) no_fault db s msg) = Inr ()" for db s
    using \<open>healthy env\<close> by (intro record_message_up) (simp add: healthy_def)
  ultimately show ?thesis
    by (auto simp: chat_record_message_def healthy_def Let_def case_prod_unfold split: option.split)
qed

lemma delivery_in_sync [simp]:
  "in_sync log (w_display (update_delivery f w)) = in_sync log (w_display w)"
  by (simp add: in_sync_def update_delivery_def)

section \<open>Requests\<close>

text \<open>
  libchat names a conversation it creates by an id the module does not hold yet: what a creating
  call may return here.
\<close>

fun fresh_id :: "('c, 'ms) env \<Rightarrow> request \<Rightarrow> ('c, 'ms) world \<Rightarrow> bool" where
  "fresh_id env (Create_conversation a) w =
     (case fst (with_client (ca_create_direct_conversation (e_client env) a) w) of
        Inr (Inr cid) \<Rightarrow> \<not> hm_contains (chats (w_display w)) cid | _ \<Rightarrow> True)"
| "fresh_id env (Create_group_conversation n de) w =
     (case fst (with_client (ca_create_group_conversation (e_client env) [] (n, de)) w) of
        Inr (Inr cid) \<Rightarrow> \<not> hm_contains (chats (w_display w)) cid | _ \<Rightarrow> True)"
| "fresh_id env _ w = True"

lemma as_result_simps [simp]:
  "snd (as_result env f rw) = snd rw"
  "fst (as_result env f rw) = Inr j \<longleftrightarrow> (\<exists>x. fst rw = Inr x \<and> j = f x)"
  by (cases "fst rw"; auto simp: as_result_def)+

lemma check_live_Inr:
  "check_live cid w = Inr u \<longleftrightarrow> (\<exists>s. hm_get (chats (w_display w)) cid = Some s \<and> \<not> cs_history_only s)"
  by (auto simp: check_live_def with_display_def split: option.splits bool.splits)

lemma set_installation_name_sync:
  assumes "in_sync log (w_display w)"
  shows "in_sync log (w_display (snd (set_installation_name env name w)))"
  using assms
  by (auto simp: set_installation_name_def in_sync_def Let_def and_then_Inr_iff
      split: sum.splits dest: persisted_name)

lemma create_conversation_sync:
  assumes s: "in_sync log (w_display w)" and f: "fresh_id env (Create_conversation a) w"
    and r: "fst (create_conversation env a w) = Inr cid \<or> healthy env"
  shows "in_sync log (w_display (snd (create_conversation env a w)))"
proof (cases "fst (with_client (ca_create_direct_conversation (e_client env) a) w)")
  case (Inr res)
  show ?thesis
  proof (cases res)
    case (Inr id')
    let ?d = "w_display w" and ?sess = "new_session id' Direct None None (Some a)"
    note res = \<open>fst _ = Inr res\<close> Inr
    show ?thesis
    proof (cases "persist_chat env id' (update_chats (hm_insert id' ?sess) ?d)")
      case (Inl e)
      with r res persist_chat_healthy [OF _ s, of env id' ?sess] show ?thesis
        by (auto simp: create_conversation_def flatten_def case_prod_unfold Let_def)
    next
      case (Inr d')
      have "in_sync log d'"
        using f res by (intro persist_put [OF s _ _ Inr]) (auto simp: hm_contains_def)
      then show ?thesis using res Inr
        by (simp add: create_conversation_def flatten_def case_prod_unfold Let_def)
    qed
  qed (use Inr s in \<open>simp add: create_conversation_def flatten_def case_prod_unfold\<close>)
qed (use s in \<open>simp add: create_conversation_def flatten_def case_prod_unfold\<close>)

lemma create_group_conversation_sync:
  assumes s: "in_sync log (w_display w)" and f: "fresh_id env (Create_group_conversation n de) w"
    and r: "fst (create_group_conversation env n de w) = Inr cid \<or> healthy env"
  shows "in_sync log (w_display (snd (create_group_conversation env n de w)))"
proof (cases "fst (with_client (ca_create_group_conversation (e_client env) [] (n, de)) w)")
  case (Inr res)
  show ?thesis
  proof (cases res)
    case (Inr id')
    let ?d = "w_display w" and ?sess = "new_session id' Group (non_empty n) (non_empty de) None"
    note res = \<open>fst _ = Inr res\<close> Inr
    show ?thesis
    proof (cases "persist_chat env id' (update_chats (hm_insert id' ?sess) ?d)")
      case (Inl e)
      with r res persist_chat_healthy [OF _ s, of env id' ?sess] show ?thesis
        by (auto simp: create_group_conversation_def flatten_def case_prod_unfold Let_def)
    next
      case (Inr d')
      have "in_sync log d'"
        using f res by (intro persist_put [OF s _ _ Inr]) (auto simp: hm_contains_def)
      then show ?thesis using res Inr
        by (simp add: create_group_conversation_def flatten_def case_prod_unfold Let_def)
    qed
  qed (use Inr s in \<open>simp add: create_group_conversation_def flatten_def case_prod_unfold\<close>)
qed (use s in \<open>simp add: create_group_conversation_def flatten_def case_prod_unfold\<close>)

lemma add_group_member_sync:
  "in_sync log (w_display w) \<Longrightarrow> in_sync log (w_display (snd (add_group_member env cid a w)))"
  by (simp add: add_group_member_def case_prod_unfold Let_def split: sum.split)

text \<open>A put of the session that is there changes nothing a lookup can see.\<close>

lemma put_back:
  "hm_get m k = Some v \<Longrightarrow> hm_insert k v m = m"
  unfolding hm_get_def hm_insert_def by (induction m) (auto split: if_splits)

lemma update_put_back: "hm_get (chats d) k = Some v \<Longrightarrow> update_chats (hm_insert k v) d = d"
  by (simp add: update_chats_def put_back)

lemma send_message_sync:
  assumes laws: "store_laws (e_store env) log" and s: "in_sync log (w_display w)"
    and r: "fst (send_message env cid content w) = Inr u \<or> healthy env"
  shows "in_sync log (w_display (snd (send_message env cid content w)))"
proof (cases "check_live cid w")
  case (Inr v)
  then obtain sess where sess: "hm_get (chats (w_display w)) cid = Some sess"
    by (auto simp: check_live_Inr)
  let ?msg = "chat_message cid Sent (now_ms (e_clock env)) content"
  obtain rec d' where rec: "chat_record_message env ?msg False (w_display w) = (rec, d')"
    by fastforce
  have db: "d_chat_db (w_display w) \<noteq> None" using s by (auto simp: in_sync_def)
  have id': "m_chat_id ?msg = cid" by (simp add: chat_message_def)
  show ?thesis
  proof (cases "flatten (fst (with_client (ca_send_message (e_client env) cid content) w))")
    case r': (Inr x)
    have "rec = Inr ()"
      using r rec Inr r' chat_record_healthy [OF _ db, of env ?msg False]
      by (cases rec) (auto simp: send_message_def case_prod_unfold Let_def)
    moreover from s obtain st where "persisted log st (d_state (w_display w))"
      by (auto simp: in_sync_def)
    ultimately have "in_sync log d'"
      using sess rec persistedD(5) [OF \<open>persisted log st _\<close> sess]
      by (intro chat_record_sync [OF laws s, of sess ?msg False "()"])
        (auto simp: id' update_put_back)
    with Inr r' rec show ?thesis
      by (simp add: send_message_def case_prod_unfold Let_def split: sum.split)
  qed (use Inr s in \<open>simp add: send_message_def case_prod_unfold\<close>)
qed (use s in \<open>simp add: send_message_def\<close>)

lemma set_conversation_nickname_sync:
  assumes s: "in_sync log (w_display w)"
    and r: "fst (set_conversation_nickname env cid nick w) = Inr u \<or> healthy env"
  shows "in_sync log (w_display (snd (set_conversation_nickname env cid nick w)))"
proof (cases "hm_get (chats (w_display w)) cid")
  case (Some sess)
  let ?sess = "sess\<lparr>cs_nickname := if nick = [] then None else Some nick\<rparr>"
  from s obtain db where p: "persisted log db (d_state (w_display w))" by (auto simp: in_sync_def)
  show ?thesis
  proof (cases "persist_chat env cid (update_chats (hm_insert cid ?sess) (w_display w))")
    case (Inl e)
    with r Some persist_chat_healthy [OF _ s, of env cid ?sess] show ?thesis
      by (auto simp: set_conversation_nickname_def Let_def)
  next
    case (Inr d')
    have "in_sync log d'"
      using Some persistedD(5) [OF p Some] by (intro persist_put [OF s _ _ Inr]) auto
    then show ?thesis using Some Inr by (simp add: set_conversation_nickname_def Let_def)
  qed
qed (use s in \<open>simp add: set_conversation_nickname_def\<close>)

lemma delete_conversation_sync:
  assumes laws: "store_laws (e_store env) log" and s: "in_sync log (w_display w)"
  shows "in_sync log (w_display (snd (delete_conversation env cid w)))"
proof -
  from s obtain db where db: "d_chat_db (w_display w) = Some db"
    and p: "persisted log db (d_state (w_display w))" by (auto simp: in_sync_def)
  obtain r db' where del: "delete_chat (e_store env) (e_fault env) db cid = (r, db')" by fastforce
  show ?thesis
  proof (cases r)
    case (Inl e)
    with del have "db' = db" by (auto simp: delete_chat_def dest: in_tx_Inl)
    with Inl del db s show ?thesis by (simp add: delete_conversation_def Let_def in_sync_def)
  next
    case (Inr u)
    from delete_chat_Inr [OF laws del [unfolded Inr]] persisted_delete [OF p, of _ cid] Inr del db s
    show ?thesis by (auto simp: delete_conversation_def Let_def in_sync_def)
  qed
qed

lemma serve_sync:
  assumes "store_laws (e_store env) log" and "in_sync log (w_display w)" and "fresh_id env req w"
    and "fst (serve env req w) = Inr j \<or> healthy env"
  shows "in_sync log (w_display (snd (serve env req w)))"
  using assms
  by (cases req)
    (auto intro: set_installation_name_sync create_conversation_sync create_group_conversation_sync
      add_group_member_sync send_message_sync set_conversation_nickname_sync delete_conversation_sync)

section \<open>Client events\<close>

lemma group_details_frame [simp]:
  "w_display (snd (group_details env cid kind w)) = w_display w"
  "w_events (snd (group_details env cid kind w)) = w_events w"
  "w_own_node_preset (snd (group_details env cid kind w)) = w_own_node_preset w"
  by (auto simp: group_details_def split: prod.splits sum.splits dest: with_client_frame)

lemma at_simps [simp]:
  "e_store (at env mo) = e_store env" "e_client (at env mo) = e_client env"
  "e_render (at env mo) = e_render env" "e_sql_text (at env mo) = e_sql_text env"
  "e_fault (at env mo) = mo_fault mo" "e_clock (at env mo) = mo_clock mo"
  by (simp_all add: at_def)

lemma record_conversation_started_sync:
  assumes h: "healthy env" and s: "in_sync log (w_display w)"
  shows "in_sync log (w_display (record_conversation_started env cid kind w))"
proof -
  obtain name desc w' where g: "group_details env cid kind w = ((name, desc), w')"
    by (metis prod.collapse)
  then have d: "w_display w' = w_display w"
    using group_details_frame(1) [of env cid kind w] by simp
  note unf = record_conversation_started_def g
  show ?thesis
  proof (cases "cid \<in> as_deleted (d_state (w_display w))")
    case False
    show ?thesis
    proof (cases "hm_get (chats (w_display w)) cid")
      case None
      let ?sess = "new_session cid kind name desc None"
      obtain d' where "persist_chat env cid (update_chats (hm_insert cid ?sess) (w_display w)) = Inr d'"
        using persist_chat_healthy [OF h s] by blast
      moreover from this have "in_sync log d'"
        using None by (intro persist_put [OF s]) auto
      ultimately show ?thesis using None False by (simp add: unf d)
    next
      case (Some sess)
      from s obtain db where "d_chat_db (w_display w) = Some db" "persisted log db (d_state (w_display w))"
        by (auto simp: in_sync_def)
      with persisted_history_only [OF _ Some, of log db False] s show ?thesis
        using Some False by (auto simp: unf d in_sync_def)
    qed
  qed (use s in \<open>simp add: unf d\<close>)
qed

lemma inbound_session_history:
  assumes "inbound_session cid account d = (changed, sess)"
  shows "case hm_get (chats d) cid of
      None \<Rightarrow> changed \<and> cs_chat_id sess = cid \<and> cs_messages sess = [] \<and> cs_older_messages sess = 0
    | Some old \<Rightarrow> cs_chat_id sess = cs_chat_id old \<and> cs_messages sess = cs_messages old
        \<and> cs_older_messages sess = cs_older_messages old \<and> (changed \<or> sess = old)"
  using assms by (cases "hm_get (chats d) cid")
    (simp_all add: inbound_session_def hm_contains_def Let_def split: if_splits, force+)

lemma record_message_received_sync:
  assumes laws: "store_laws (e_store env) log" and h: "healthy env" and s: "in_sync log (w_display w)"
  shows "in_sync log (w_display (record_message_received env cid content account inst w))"
proof (cases "cid \<in> as_deleted (d_state (w_display w))")
  case False
  let ?d = "w_display w" and ?msg = "inbound_message env cid content account inst"
  obtain changed sess where sess: "inbound_session cid account ?d = (changed, sess)"
    by fastforce
  let ?d1 = "update_chats (hm_insert cid sess) ?d"
  have id': "m_chat_id ?msg = cid" by (simp add: inbound_message_def chat_message_def)
  obtain rec d' where rec: "chat_record_message env ?msg changed ?d1 = (rec, d')"
    by fastforce
  from s obtain db where db: "d_chat_db ?d = Some db" and p: "persisted log db (d_state ?d)"
    by (auto simp: in_sync_def)
  have "rec = Inr ()"
    using rec chat_record_healthy [OF h, of ?d1 ?msg changed] db by simp
  moreover note hist = inbound_session_history [OF sess]
  then have "cs_chat_id sess = cid"
    using persistedD(5) [OF p, of cid] by (auto split: option.splits)
  ultimately have "in_sync log d'"
    using rec hist
    by (intro chat_record_sync [OF laws s, of sess ?msg changed "()"])
      (auto simp: id' split: option.splits)
  then show ?thesis
    using False rec sess by (simp add: record_message_received_def Let_def split: sum.split)
qed (use s in \<open>simp add: record_message_received_def\<close>)

lemma record_members_changed_display [simp]: "w_display (record_members_changed cid w) = w_display w"
  by (simp add: record_members_changed_def)

lemma handle_event_sync:
  "store_laws (e_store env) log \<Longrightarrow> healthy env \<Longrightarrow> in_sync log (w_display w) \<Longrightarrow>
     in_sync log (w_display (handle_event env evt w))"
  by (cases evt) (auto intro: record_conversation_started_sync record_message_received_sync)

end
