(* ===== verification/Runs.thy ===== *)
theory Runs
  imports Prelude
begin

text \<open>
  Two ways the program is run, as interfaces: a machine that takes a list of inputs one after the
  other (\<open>guarded_machine\<close>), and a system whose threads interleave (\<open>transition_system\<close>).  Each
  shows once how a property of single steps becomes one of runs; theories Chat_Sync, Restart and
  System interpret them on the model.
\<close>

section \<open>Runs over a list of inputs\<close>

locale guarded_machine =
  fixes step :: "'i \<Rightarrow> 's \<Rightarrow> 's"
    and guard :: "'i \<Rightarrow> 's \<Rightarrow> bool"
    and inv :: "'s \<Rightarrow> bool"
  assumes step_inv: "inv s \<Longrightarrow> guard i s \<Longrightarrow> inv (step i s)"
begin

fun guarded :: "'i list \<Rightarrow> 's \<Rightarrow> bool" where
  "guarded [] s \<longleftrightarrow> True"
| "guarded (i # is) s \<longleftrightarrow> guard i s \<and> guarded is (step i s)"

lemma run_inv: "inv s \<Longrightarrow> guarded is s \<Longrightarrow> inv (fold step is s)"
  by (induction "is" arbitrary: s) (auto simp: step_inv)

lemma guarded_append: "guarded (is @ js) s \<longleftrightarrow> guarded is s \<and> guarded js (fold step is s)"
  by (induction "is" arbitrary: s) auto

text \<open>The invariant holds after every prefix of the run.\<close>

lemma run_inv_prefix: "inv s \<Longrightarrow> guarded is s \<Longrightarrow> inv (fold step (take n is) s)"
  by (metis append_take_drop_id guarded_append run_inv)

end

section \<open>Interleaved steps\<close>

locale transition_system =
  fixes init :: "'s \<Rightarrow> bool"
    and step :: "'s \<Rightarrow> 's \<Rightarrow> bool"
begin

inductive reachable :: "'s \<Rightarrow> bool" where
  start: "init s \<Longrightarrow> reachable s"
| next_state: "reachable s \<Longrightarrow> step s t \<Longrightarrow> reachable t"

lemma reachable_invariant [consumes 1, case_names init step]:
  assumes "reachable s"
    and "\<And>s. init s \<Longrightarrow> P s"
    and "\<And>s t. P s \<Longrightarrow> step s t \<Longrightarrow> P t"
  shows "P s"
  using assms(1) by induction (use assms(2,3) in blast)+

lemma reachable_steps: "step\<^sup>*\<^sup>* s t \<Longrightarrow> reachable s \<Longrightarrow> reachable t"
  by (induction rule: rtranclp_induct) (auto intro: next_state)

end

end
