(* ===== verification/Restart.thy ===== *)
theory Restart
  imports Chat_Sync Runs
begin

text \<open>
  Runs of requests, queries and client events between an init and a shutdown, and what the next
  init reads back of them.
\<close>

section \<open>Runs of a session\<close>

datatype input = Ask moment request | Look moment query | Happens moment client_event

fun take_input :: "('c, 'ms) env \<Rightarrow> input \<Rightarrow> ('c, 'ms) world \<Rightarrow> ('c, 'ms) world" where
  "take_input env (Ask mo req) w = snd (serve (at env mo) req w)"
| "take_input env (Look mo q) w = snd (answer (at env mo) q w)"
| "take_input env (Happens mo evt) w = handle_event (at env mo) evt w"

text \<open>A request succeeds or meets no failing statement; a client event meets none.\<close>

fun smooth :: "('c, 'ms) env \<Rightarrow> input \<Rightarrow> ('c, 'ms) world \<Rightarrow> bool" where
  "smooth env (Ask mo req) w \<longleftrightarrow> fresh_id (at env mo) req w \<and>
     (is_ok (fst (serve (at env mo) req w)) \<or> healthy (at env mo))"
| "smooth env (Look mo q) w \<longleftrightarrow> True"
| "smooth env (Happens mo evt) w \<longleftrightarrow> healthy (at env mo)"

lemma list_group_members_display [simp]:
  "w_display (snd (list_group_members env cid w)) = w_display w"
  by (auto simp: list_group_members_def case_prod_unfold Let_def split: sum.splits)

lemma answer_display [simp]: "w_display (snd (answer env q w)) = w_display w"
  by (cases q) (auto simp: case_prod_unfold Let_def)

definition chat_inv :: "('c, 'ms) env \<Rightarrow> ('ms \<Rightarrow> message list) \<Rightarrow> ('c, 'ms) world \<Rightarrow> bool" where
  "chat_inv env log w \<longleftrightarrow> store_laws (e_store env) log \<and> in_sync log (w_display w)"

interpretation session: guarded_machine "take_input env" "smooth env" "chat_inv env log"
  for env :: "('c, 'ms) env" and log :: "'ms \<Rightarrow> message list"
proof (unfold_locales, goal_cases)
  case (1 w i)
  then show ?case
  proof (cases i)
    case (Ask mo req)
    with 1 show ?thesis
      using serve_sync [of "at env mo" log w req]
      by (cases "fst (serve (at env mo) req w)") (auto simp: chat_inv_def)
  qed (auto simp: chat_inv_def handle_event_sync)
qed

section \<open>The next session\<close>

text \<open>A reloaded session lists as before: its count, its last activity, its preview.\<close>

lemma last_opt_drop: "last_opt (drop (length xs - n) xs) = last_opt xs" if "0 < n"
  using that by (cases xs) (simp_all add: last_opt_def last_drop not_le)

lemma conversation_of_reload:
  "conversation_of ((reload s)\<lparr>cs_history_only := b\<rparr>) = (conversation_of s)\<lparr>cv_history_only := b\<rparr>"
proof -
  let ?k = "length (cs_messages s) - LOADED_PER_CHAT"
  have "last_opt (drop ?k (cs_messages s)) = last_opt (cs_messages s)"
    by (rule last_opt_drop) (simp add: LOADED_PER_CHAT_def)
  moreover have "word_of_nat ?k + len_usize (drop ?k (cs_messages s)) = len_usize (cs_messages s)"
    by (metis append_take_drop_id diff_le_self len_usize_append len_usize_def length_take min_absorb2)
  ultimately show ?thesis
    by (simp add: conversation_of_def reload_def Let_def ac_simps)
qed

lemma set_list_conversations:
  assumes "hm_wf (chats (w_display w))"
  shows "set (list_conversations w) = {conversation_of s | s. \<exists>cid. hm_get (chats (w_display w)) cid = Some s}"
  using set_hm_values [OF assms] by (auto simp: list_conversations_def with_display_def)

text \<open>What \<open>initialize\<close> read when it got through.\<close>

lemma prepare_local_Inr:
  assumes "prepare_local env ie = Inr (client, rx, sends, db, st)"
  obtains path st0 live where "ie_context ie = Some path" "path \<noteq> []"
    and "open_db (ie_driver ie) (path @ ''/chat.db'') (storage_key path) = Inr db"
    and "load_state (e_store env) (e_fault env) db = Inr st0"
    and "ca_list_all_conversations (e_client env) client = Inr live"
    and "st = st0\<lparr>as_chats := hm_map_values
              (\<lambda>s. s\<lparr>cs_history_only := cs_chat_id s \<notin> set live\<rparr>) (as_chats st0)\<rparr>"
proof -
  from assms obtain path where path: "ie_context ie = Some path" "path \<noteq> []"
    by (cases "ie_context ie") (auto simp: prepare_local_def and_then_Inr_iff split: if_splits)
  with assms show ?thesis
    using that by (auto simp: prepare_local_def and_then_Inr_iff Let_def case_prod_unfold)
qed

lemma initialize_Inr:
  assumes "initialize env ie w = (Inr ms, w')"
  obtains client rx sends db st where "prepare_local env ie = Inr (client, rx, sends, db, st)"
    and "ms_client ms = client"
    and "w_display w' = (w_display w)\<lparr>d_state := st, d_chat_db := Some db,
           d_delivery_state := ds_initialising,
           d_intrinsic_name := ca_installation_name (e_client env) client,
           d_address := ca_addr (e_client env) client\<rparr>"
    and "w_events w' = w_events w" and "w_pending w' = w_pending w @ send_calls sends"
    and "w_own_node_preset w' = w_own_node_preset w"
  using assms that unfolding initialize_def
  by (auto simp: Let_def split: sum.splits prod.splits)

lemma initialize_Inl_display:
  "initialize env ie w = (Inl e, w') \<Longrightarrow> w_display w' = w_display w \<and> w_events w' = w_events w"
  unfolding initialize_def by (auto simp: Let_def split: sum.splits prod.splits)

lemma init_world_installs:
  assumes "mh_inner (w_module w) = None" and "init_world env ie preset w = (Inr j, w')"
  obtains ms w0 where "initialize env ie w = (Inr ms, w0)"
    and "w_display w' = w_display w0" "w_events w' = w_events w0"
    and "mh_inner (w_module w') = Some ms"
    and "w_pending w' = w_pending w0 @ [Create_node (config_json preset) preset]"
proof (cases "mh_poisoned (w_module w)")
  case False
  with assms that show ?thesis
    by (cases "initialize env ie w")
      (auto simp: init_world_def install_with_def start_delivery_bootstrap_def split: sum.splits)
qed (use assms in \<open>simp add: init_world_def install_with_def\<close>)

text \<open>
  An init over the file the earlier session left: the conversations are there as they were shown,
  each with its newest page, live exactly when libchat still holds it.
\<close>

lemma init_reads_back:
  assumes laws: "store_laws (e_store env) log" "store_up (e_store env)" "e_fault env = no_fault"
    and p: "persisted log db st" and fresh: "mh_inner (w_module w') = None"
    and driver: "\<forall>path key. open_db (ie_driver ie) path key = Inr db"
    and init: "init_world env ie preset w' = (Inr j, w'')"
  obtains live where "chat_inv env log w''"
    and "\<forall>cid. hm_get (chats (w_display w'')) cid =
      map_option (\<lambda>s. (reload s)\<lparr>cs_history_only := cid \<notin> set live\<rparr>) (hm_get (as_chats st) cid)"
    and "as_deleted (d_state (w_display w'')) = as_deleted st"
    and "as_installation_name (d_state (w_display w'')) = as_installation_name st"
    and "\<exists>ms. mh_inner (w_module w'') = Some ms \<and>
      ca_list_all_conversations (e_client env) (ms_client ms) = Inr live"
proof -
  obtain ms w0 where i: "initialize env ie w' = (Inr ms, w0)"
    and d: "w_display w'' = w_display w0" "w_events w'' = w_events w0"
    and inst: "mh_inner (w_module w'') = Some ms"
    and pend: "w_pending w'' = w_pending w0 @ [Create_node (config_json preset) preset]"
    by (rule init_world_installs [OF fresh init])
  obtain client rx sends db' st' where pl: "prepare_local env ie = Inr (client, rx, sends, db', st')"
    and c: "ms_client ms = client"
    and d0: "w_display w0 = (w_display w')\<lparr>d_state := st', d_chat_db := Some db',
           d_delivery_state := ds_initialising,
           d_intrinsic_name := ca_installation_name (e_client env) client,
           d_address := ca_addr (e_client env) client\<rparr>"
    and "w_events w0 = w_events w'" and "w_pending w0 = w_pending w' @ send_calls sends"
    and "w_own_node_preset w0 = w_own_node_preset w'"
    by (rule initialize_Inr [OF i])
  obtain path st0 live where path: "ie_context ie = Some path" "path \<noteq> []"
    and o: "open_db (ie_driver ie) (path @ ''/chat.db'') (storage_key path) = Inr db'"
    and l: "load_state (e_store env) (e_fault env) db' = Inr st0"
    and live: "ca_list_all_conversations (e_client env) client = Inr live"
    and st': "st' = st0\<lparr>as_chats := hm_map_values
              (\<lambda>s. s\<lparr>cs_history_only := cs_chat_id s \<notin> set live\<rparr>) (as_chats st0)\<rparr>"
    by (rule prepare_local_Inr [OF pl])
  have db': "db' = db" using driver o by simp
  from load_state_persisted [OF laws(1,2) p] l [unfolded db'] laws(3) have p0: "persisted log db st0"
    and g: "\<And>cid. hm_get (as_chats st0) cid = map_option reload (hm_get (as_chats st) cid)"
    and rest: "as_deleted st0 = as_deleted st" "as_installation_name st0 = as_installation_name st"
    by auto
  have "persisted log db st'"
    using p0 by (simp add: st' persisted_history_flags)
  moreover have "hm_get (as_chats st') cid =
      map_option (\<lambda>s. (reload s)\<lparr>cs_history_only := cid \<notin> set live\<rparr>) (hm_get (as_chats st) cid)" for cid
    using persistedD(5) [OF p, of cid] by (cases "hm_get (as_chats st) cid") (auto simp: st' g)
  ultimately show ?thesis
    using that [of live] laws(1) rest c live inst
    by (simp add: chat_inv_def in_sync_def d d0 db' st')
qed

end
