(* ===== verification/Examples.thy ===== *)
theory Examples
  imports Restart
begin

text \<open>
  Concrete instances of the parameters, on which the witnesses run: a client that numbers its
  conversations and counts what it sends, the list store, a driver that opens a given file, and the
  worlds a first init over an empty file leads to.
\<close>

definition demo_client :: "nat client_api" where
  "demo_client =
     \<lparr>ca_create_direct_conversation =
        (\<lambda>a n. (Inr (''dm'' @ replicate n CHR ''1''), Suc n, [Publish \<lparr>ae_delivery_address = a, ae_data = ''hi''\<rparr>])),
      ca_create_group_conversation =
        (\<lambda>as meta n. (Inr (''group'' @ replicate n CHR ''1''), Suc n, [Subscribe_to ''group''])),
      ca_add_group_participants = (\<lambda>cid as n. (Inr (), n, [])),
      ca_members = (\<lambda>cid n. (Inr [''alice'', ''bob''], n, [])),
      ca_pending_members = (\<lambda>cid n. (Inr [''carol''], n, [])),
      ca_send_message = (\<lambda>cid b n. (Inr (), n, [Publish \<lparr>ae_delivery_address = cid, ae_data = b\<rparr>])),
      ca_group_metadata = (\<lambda>cid n. (Inr (''team'', []), n, [])),
      ca_list_all_conversations = (\<lambda>n. Inr []),
      ca_installation_name = (\<lambda>n. ''laptop''),
      ca_addr = (\<lambda>n. ''addr'')\<rparr>"

definition demo_env :: "(nat, message list) env" where
  "demo_env =
     \<lparr>e_client = demo_client, e_store = list_store, e_sql_text = (\<lambda>_. ''disk I/O error''),
      e_render = (\<lambda>_. ''null''), e_fault = no_fault, e_clock = 5000000\<rparr>"

definition empty_db :: "message list connection" where
  "empty_db = \<lparr>t_chats = [], t_deleted = [], t_settings = [], t_messages = []\<rparr>"

definition file_driver :: "'ms connection \<Rightarrow> 'ms driver_api" where
  "file_driver db =
     \<lparr>dr_open = (\<lambda>_. Inr db), dr_pragma_update = (\<lambda>_ _. Inr), dr_to_latest = Inr,
      dr_migrate_store = Inr\<rparr>"

definition idle_subscription :: subscription where
  "idle_subscription = \<lparr>sub_queue = [], sub_connected = True\<rparr>"

definition demo_ie :: "message list connection \<Rightarrow> (nat, message list) init_env" where
  "demo_ie db =
     \<lparr>ie_context = Some ''/data'', ie_create_dir_all = (\<lambda>_. Inr ()),
      ie_encrypted_store = (\<lambda>_ _. Inr ()),
      ie_account = \<lparr>ac_endorsement_request = [], ac_from_canonical_slice = Inr,
        ac_publish = (\<lambda>_. Inr ()), ac_addr = ''account''\<rparr>,
      ie_build = (\<lambda>_. Inr (0, [Subscribe_to ''inbox''])),
      ie_driver = file_driver db,
      ie_on_message_received = Inr idle_subscription, ie_on_node_started = Inr idle_subscription,
      ie_on_connection_state_changed = Inr idle_subscription\<rparr>"

definition demo_bridge :: bridge where
  "demo_bridge = spawn_bridge idle_subscription idle_subscription (Some idle_subscription) unbounded
     \<lparr>ch_queue = [content_topic_for ''inbox''], ch_receiver = True\<rparr>"

definition demo_module :: "nat module_handle" where
  "demo_module = \<lparr>mh_poisoned = False, mh_inner = Some \<lparr>ms_client = 0,
     ms_inbound_thread = Some demo_bridge, ms_event_thread = Some ()\<rparr>\<rparr>"

text \<open>The world a first init over an empty file leaves, and one with two conversations.\<close>

definition demo_world :: "(nat, message list) world" where
  "demo_world =
     \<lparr>w_module = demo_module,
      w_display = \<lparr>d_state = default_app_state, d_chat_db = Some empty_db,
        d_delivery_state = ds_initialising, d_intrinsic_name = ''laptop'', d_address = ''addr''\<rparr>,
      w_own_node_preset = None,
      w_pending = [Create_node (config_json ''logos.test'') ''logos.test''], w_events = [],
      w_log = [(INFO, ''init: state installed, joining delivery preset logos.test'')]\<rparr>"

definition dm_session :: chat_session where
  "dm_session = \<lparr>cs_chat_id = ''dm'', cs_nickname = None, cs_kind = Direct, cs_name = None,
     cs_description = None, cs_peer = Some ''bob'',
     cs_messages = [\<lparr>dm_from_self = True, dm_content = ''hello'', dm_timestamp_ms = 5, dm_sender = None\<rparr>],
     cs_older_messages = 0, cs_history_only = False\<rparr>"

definition old_session :: chat_session where
  "old_session = \<lparr>cs_chat_id = ''old'', cs_nickname = Some ''pal'', cs_kind = Group, cs_name = Some ''n'',
     cs_description = None, cs_peer = None, cs_messages = [], cs_older_messages = 0,
     cs_history_only = True\<rparr>"

definition chat_file :: "message list connection" where
  "chat_file = \<lparr>t_chats = [(''dm'', row_of_session dm_session), (''old'', row_of_session old_session)],
     t_deleted = [''gone''], t_settings = [],
     t_messages = [chat_message ''dm'' Sent 5 ''hello'']\<rparr>"

definition chat_world :: "(nat, message list) world" where
  "chat_world = demo_world\<lparr>w_display := (w_display demo_world)
     \<lparr>d_state := \<lparr>as_chats = [(''dm'', dm_session), (''old'', old_session)],
        as_installation_name = None, as_deleted = {''gone''}\<rparr>, d_chat_db := Some chat_file\<rparr>\<rparr>"

definition calm :: moment where
  "calm = \<lparr>mo_fault = no_fault, mo_clock = 7000000\<rparr>"

text \<open>Decoders that read the one value an event carries.\<close>

definition demo_decoders :: decoders where
  "demo_decoders =
     \<lparr>dc_message_received = (\<lambda>evt. map_option (\<lambda>s. \<lparr>rm_message_hash = s,
        rm_content_topic = content_topic_for ''inbox'', rm_payload = s, rm_source = ''relay''\<rparr>)
        (as_str (ev_args evt))),
      dc_node_started = (\<lambda>evt. map_option (\<lambda>b. (b, ''done'')) (as_bool (ev_args evt))),
      dc_connection_state_changed = (\<lambda>evt. as_str (ev_args evt))\<rparr>"

definition node_started_event :: event_data where
  "node_started_event = \<lparr>ev_name = ''nodeStarted'', ev_args = JBool True\<rparr>"

section \<open>What the example worlds are\<close>

lemmas example_defs = demo_client_def demo_env_def empty_db_def file_driver_def idle_subscription_def
  demo_ie_def

lemmas init_defs = init_world_def install_with_def initialize_def prepare_local_def open_db_def
  register_installation_def load_state_def start_delivery_bootstrap_def run_transport_def

lemma demo_init:
  "init_world demo_env (demo_ie empty_db) ''logos.test'' initial_world = (Inr JNull, demo_world)"
  by (simp add: init_defs example_defs initial_world_def module_handle_new_def Let_def
      LIBCHAT_PERSISTENCE_ENABLED_def sdk_delivery_new_def sdk_delivery_publisher_def unbounded_def
      publisher_subscribe_def channel_send_def hm_map_values_def default_app_state_def
      default_display_def demo_module_def demo_bridge_def with_display_mut_def log_at_def
      hand_over_def send_calls_def content_topic_for_def TOPIC_PREFIX_def demo_world_def)

lemma demo_env_up [simp]:
  "store_laws (e_store demo_env) (\<lambda>s. s)" "store_up (e_store demo_env)" "healthy demo_env"
  "e_fault demo_env = no_fault"
  by (simp_all add: demo_env_def list_store_laws healthy_def)

lemma chat_world_sync [simp]: "in_sync (\<lambda>s. s) (w_display chat_world)"
proof -
  have utf: "from_utf8_lossy ''hello'' = ''hello''"
    by (intro from_utf8_lossy_valid ascii_utf8) (simp add: ascii_def byte_def)
  show ?thesis
    by (simp add: in_sync_def persisted_def chat_world_def chat_file_def hm_wf_def hm_get_def
        dm_session_def old_session_def row_of_session_def history_ok_def stored_of_def of_chat_def
        display_message_def chat_message_def utf as_i64_def as_u64_def len_usize_def hm_contains_def)
qed

lemma chat_world_inv [simp]: "chat_inv demo_env (\<lambda>s. s) chat_world"
  by (simp add: chat_inv_def)

lemma chat_world_simps [simp]:
  "hm_get (chats (w_display chat_world)) ''dm'' = Some dm_session"
  "hm_get (chats (w_display chat_world)) ''old'' = Some old_session"
  "d_chat_db (w_display chat_world) = Some chat_file" "w_module chat_world = demo_module"
  "as_deleted (d_state (w_display chat_world)) = {''gone''}"
  "d_delivery_state (w_display chat_world) = ds_initialising"
  by (simp_all add: chat_world_def hm_get_def demo_world_def)

text \<open>An init over \<open>chat_file\<close> goes through; deleting the direct conversation succeeds.\<close>

lemma chat_file_init:
  "fst (init_world demo_env (demo_ie chat_file) ''logos.test'' initial_world) = Inr JNull"
  by (simp add: init_defs example_defs initial_world_def module_handle_new_def Let_def
      LIBCHAT_PERSISTENCE_ENABLED_def chat_file_def list_store_def session_of_row_def
      row_of_session_def kind_column_result_def dm_session_def old_session_def kind_to_sql_def)

lemma demo_deletes: "fst (delete_conversation demo_env ''dm'' chat_world) = Inr ()"
proof -
  have "fst (delete_chat (e_store demo_env) no_fault chat_file ''dm'') = Inr ()"
    by (rule delete_chat_up) simp
  then show ?thesis
    by (simp add: delete_conversation_def Let_def hm_contains_def case_prod_unfold)
qed

lemma utf8_hi [simp]: "utf8 ''hi''"
  by (intro ascii_utf8) (simp add: ascii_def byte_def)

lemma demo_sends: "fst (send_message demo_env ''dm'' ''hi'' chat_world) = Inr ()"
proof -
  have "fst (with_client (ca_send_message (e_client demo_env) ''dm'' ''hi'') chat_world) = Inr (Inr ())"
    by (simp add: with_client_def with_state_mut_def demo_env_def demo_client_def demo_module_def
        case_prod_unfold Let_def)
  then show ?thesis
    using chat_record_healthy [OF demo_env_up(3), of "w_display chat_world"]
    by (auto simp: send_message_def check_live_def with_display_def dm_session_def flatten_def
        case_prod_unfold Let_def)
qed

end
