(* ===== verification/Chat_Properties.thy ===== *)
theory Chat_Properties
  imports Examples
begin

text \<open>
  What holds of conversations and messages: of the file across runs and restarts, of each request
  on its branches, of what a listing shows.
\<close>

section \<open>Facts shared by the properties\<close>

lemma check_live_Inl:
  "check_live cid w = Inl e \<longleftrightarrow>
     (case hm_get (chats (w_display w)) cid of
        None \<Rightarrow> e = NotFound
      | Some s \<Rightarrow> cs_history_only s \<and> e = HistoryOnly)"
  by (auto simp: check_live_def with_display_def split: option.splits bool.splits)

lemma chat_record_message_shown:
  assumes "hm_get (chats d) (m_chat_id msg) = Some s" and "d_chat_db d \<noteq> None"
  shows "hm_get (chats (snd (chat_record_message env msg changed d))) (m_chat_id msg) =
      Some (s\<lparr>cs_messages := cs_messages s @ [display_message msg]\<rparr>)"
  using assms by (auto simp: chat_record_message_def Let_def case_prod_unfold)

text \<open>A recording succeeds, or fails because there is no database or by an error of it; the line
  a failed one logs.\<close>

lemma chat_record_message_result:
  "fst (chat_record_message env msg changed d) = Inr () \<or>
     (\<exists>e \<in> insert NotInit (range Store). fst (chat_record_message env msg changed d) = Inl e)"
proof (cases "hm_get (chats d) (m_chat_id msg)")
  case (Some s)
  show ?thesis
  proof (cases "d_chat_db d")
    case (Some db)
    then show ?thesis
      using \<open>hm_get (chats d) (m_chat_id msg) = Some s\<close>
      by (cases "fst (record_message (e_store env) (e_fault env) db (if changed then Some s else None) msg)")
        (simp_all add: chat_record_message_def case_prod_unfold Let_def)
  qed (simp add: chat_record_message_def Some)
qed (simp add: chat_record_message_def)

definition failed_write_lines :: "('c, 'ms) env \<Rightarrow> log_line list set" where
  "failed_write_lines env =
     (\<lambda>e. [(ERROR, ''recording an inbound message failed: '' @ core_error_text env e)])
       ` insert NotInit (range Store)"

text \<open>The conversation an event is about.\<close>

fun event_convo :: "event \<Rightarrow> str option" where
  "event_convo (Conversation_created cid _ _ _ _ _) = Some cid"
| "event_convo (Conversation_updated cid) = Some cid"
| "event_convo (Conversation_deleted cid) = Some cid"
| "event_convo (Message_received cid _ _ _) = Some cid"
| "event_convo (Message_sent cid _ _) = Some cid"
| "event_convo (Members_changed cid) = Some cid"
| "event_convo (Delivery_state_changed _ _ _) = None"

text \<open>A tombstoned chat is absent and stays so; the events past \<open>es\<close> are about other chats.\<close>

definition buried :: "str \<Rightarrow> event list \<Rightarrow> ('c, 'ms) world \<Rightarrow> bool" where
  "buried cid es w \<longleftrightarrow> cid \<in> as_deleted (d_state (w_display w)) \<and>
     hm_get (chats (w_display w)) cid = None \<and>
     (\<exists>fs. w_events w = es @ fs \<and> list_all (\<lambda>e. event_convo e \<noteq> Some cid) fs)"

lemma buried_emit:
  "buried cid es w \<Longrightarrow> event_convo e \<noteq> Some cid \<Longrightarrow> buried cid es (emit e w)"
  unfolding buried_def by (force simp: list_all_append)

lemma buried_log [simp]: "buried cid es (log_at l s w) = buried cid es w"
  by (simp add: buried_def)

lemma buried_display:
  "buried cid es w \<Longrightarrow> as_deleted (d_state (f (w_display w))) = as_deleted (d_state (w_display w)) \<Longrightarrow>
     hm_get (chats (f (w_display w))) cid = None \<Longrightarrow> buried cid es (with_display_mut f w)"
  by (simp add: buried_def)

lemma chat_record_message_frame:
  "as_deleted (d_state (snd (chat_record_message env msg changed d))) = as_deleted (d_state d)"
  "m_chat_id msg \<noteq> cid \<Longrightarrow>
     hm_get (chats (snd (chat_record_message env msg changed d))) cid = hm_get (chats d) cid"
  by (auto simp: chat_record_message_def Let_def case_prod_unfold split: option.split)

lemma persist_chat_frame:
  "persist_chat env cid d = Inr d' \<Longrightarrow> d_state d' = d_state d"
  by (auto simp: persist_chat_def and_then_Inr_iff)

lemma buried_conversation_started:
  assumes "buried cid es w"
  shows "buried cid es (record_conversation_started env c kind w)"
proof -
  obtain name desc w' where g: "group_details env c kind w = ((name, desc), w')"
    by (metis prod.collapse)
  then have w': "w_display w' = w_display w" "w_events w' = w_events w"
    using group_details_frame(1,2) [of env c kind w] by simp_all
  with assms have b: "buried cid es w'" by (simp add: buried_def)
  note unf = record_conversation_started_def g Let_def
  show ?thesis
  proof (cases "c \<in> as_deleted (d_state (w_display w))")
    case False
    with assms have "c \<noteq> cid" by (auto simp: buried_def)
    with b False show ?thesis
      by (auto simp: unf w' dest!: persist_chat_frame split: option.split sum.split
          intro!: buried_emit buried_display) (simp_all add: buried_def w')
  qed (simp add: unf w' b)
qed

lemma buried_message_received:
  assumes b: "buried cid es w"
  shows "buried cid es (record_message_received env c content account inst w)"
proof (cases "c \<in> as_deleted (d_state (w_display w))")
  case False
  with b have "c \<noteq> cid" by (auto simp: buried_def)
  have id': "m_chat_id (inbound_message env c content account inst) = c"
    by (simp add: inbound_message_def chat_message_def)
  show ?thesis
    using b False \<open>c \<noteq> cid\<close>
    by (auto simp: record_message_received_def Let_def case_prod_unfold split: sum.split
        intro!: buried_emit buried_display)
      (simp_all add: buried_def chat_record_message_frame id')
qed (simp add: record_message_received_def b)

lemma buried_members_changed: "buried cid es w \<Longrightarrow> buried cid es (record_members_changed c w)"
  by (auto simp: record_members_changed_def intro!: buried_emit) (simp add: buried_def)

lemma buried_handle_event: "buried cid es w \<Longrightarrow> buried cid es (handle_event env evt w)"
  by (cases evt) (simp_all add: buried_conversation_started buried_message_received buried_members_changed)

lemma buried_run_events: "buried cid es w \<Longrightarrow> buried cid es (run_events env evts w)"
  by (induction evts arbitrary: w) (auto simp: buried_handle_event)

lemma delete_conversation_buries:
  assumes "fst (delete_conversation env cid w) = Inr ()"
  shows "buried cid (w_events w @ [Conversation_deleted cid]) (snd (delete_conversation env cid w))"
  using assms
  by (auto simp: delete_conversation_def Let_def buried_def case_prod_unfold split: if_splits option.splits sum.splits)

lemma list_conversations_ids:
  assumes s: "in_sync log (w_display w)"
  shows "distinct (map cv_convo_id (list_conversations w))"
    and "set (map cv_convo_id (list_conversations w)) = {cid. hm_contains (chats (w_display w)) cid}"
proof -
  from s obtain db where p: "persisted log db (d_state (w_display w))" by (auto simp: in_sync_def)
  let ?m = "chats (w_display w)"
  have "map cv_convo_id (list_conversations w) = map (cs_chat_id \<circ> snd) ?m"
    by (simp add: list_conversations_def with_display_def hm_values_def conversation_of_def)
  also have "\<dots> = map fst ?m"
    using persistedD(3,5) [OF p] by (auto simp: hm_get_iff_in)
  finally have eq: "map cv_convo_id (list_conversations w) = map fst ?m" .
  show "distinct (map cv_convo_id (list_conversations w))"
    using persistedD(3) [OF p] by (simp only: eq hm_wf_def)
  show "set (map cv_convo_id (list_conversations w)) = {cid. hm_contains ?m cid}"
    unfolding eq by (force simp: hm_contains_def hm_get_def map_of_eq_None_iff)
qed

text \<open>What a send that succeeded did.\<close>

lemma send_message_Inr:
  assumes "fst (send_message env cid content w) = Inr u"
  obtains sess db db' where "hm_get (chats (w_display w)) cid = Some sess" "\<not> cs_history_only sess"
    and "flatten (fst (with_client (ca_send_message (e_client env) cid content) w)) = Inr ()"
    and "d_chat_db (w_display w) = Some db"
    and "record_message (e_store env) (e_fault env) db None
           (chat_message cid Sent (now_ms (e_clock env)) content) = (Inr (), db')"
    and "w_display (snd (send_message env cid content w)) =
      update_chats (hm_insert cid (sess\<lparr>cs_messages := cs_messages sess
        @ [display_message (chat_message cid Sent (now_ms (e_clock env)) content)]\<rparr>))
        ((w_display w)\<lparr>d_chat_db := Some db'\<rparr>)"
    and "w_events (snd (send_message env cid content w)) =
      w_events w @ [Message_sent cid content (as_i64 (now_ms (e_clock env)))]"
proof -
  let ?msg = "chat_message cid Sent (now_ms (e_clock env)) content"
  have [simp]: "m_chat_id ?msg = cid" by (simp add: chat_message_def)
  from assms obtain v where "check_live cid w = Inr v"
    by (auto simp: send_message_def split: sum.splits)
  moreover from this obtain sess where sess: "hm_get (chats (w_display w)) cid = Some sess"
    and "\<not> cs_history_only sess"
    by (auto simp: check_live_Inr)
  moreover from assms calculation obtain x where
    "flatten (fst (with_client (ca_send_message (e_client env) cid content) w)) = Inr x"
    by (auto simp: send_message_def case_prod_unfold Let_def split: sum.splits)
  moreover from assms calculation obtain d' where
    rec: "chat_record_message env ?msg False (w_display w) = (Inr (), d')"
    by (cases "chat_record_message env ?msg False (w_display w)")
      (auto simp: send_message_def case_prod_unfold Let_def split: sum.splits)
  moreover from rec sess obtain db db' where "d_chat_db (w_display w) = Some db"
    "record_message (e_store env) (e_fault env) db None ?msg = (Inr (), db')"
    by (auto simp: chat_record_message_def Let_def split: option.splits prod.splits)
  ultimately show ?thesis
    using that [of sess db db']
    by (simp add: send_message_def case_prod_unfold Let_def chat_record_message_def)
qed

section \<open>Properties\<close>

text \<open>C9: A conversation whose deletion succeeded never comes back by the client's events: after any
  run of them it is neither listed nor mentioned in an emitted event.\<close>

theorem deleted_stays_deleted:
  assumes "fst (delete_conversation env cid w) = Inr ()"
    and "w' = run_events env' evts (snd (delete_conversation env cid w))"
  shows "hm_get (chats (w_display w')) cid = None \<and> get_messages cid w' = [] \<and>
    (\<exists>es. w_events w' = w_events w @ [Conversation_deleted cid] @ es \<and>
       list_all (\<lambda>e. event_convo e \<noteq> Some cid) es)"
  using buried_run_events [OF delete_conversation_buries [OF assms(1)], of env' evts]
  by (simp add: assms(2) buried_def get_messages_def with_display_def)

lemma deleted_stays_deleted_witness:
  "get_messages ''dm'' (run_events demo_env
     [(calm, ConversationStarted ''dm'' Class_Dm), (calm, MessageReceived ''dm'' ''hi'' ''bob'' ''k'')]
     (snd (delete_conversation demo_env ''dm'' chat_world))) = []"
  using deleted_stays_deleted [OF demo_deletes refl] by blast

text \<open>C13: A message whose send succeeded was taken by the client, is the conversation's newest
  message with the text as sent, is the store's newest message, and is announced once.\<close>

theorem sent_message_reads_back:
  assumes "store_laws (e_store env) log" and "utf8 content"
    and "fst (send_message env cid content w) = Inr ()" and "w' = snd (send_message env cid content w)"
  shows "\<exists>db db'. fst (with_client (ca_send_message (e_client env) cid content) w) = Inr (Inr ()) \<and>
    get_messages cid w' = get_messages cid w @
      [\<lparr>mv_from_self = True, mv_content = content, mv_timestamp_ms = as_i64 (now_ms (e_clock env)),
        mv_sender = None\<rparr>] \<and>
    d_chat_db (w_display w) = Some db \<and> d_chat_db (w_display w') = Some db' \<and>
    log (t_messages db') = log (t_messages db) @ [chat_message cid Sent (now_ms (e_clock env)) content] \<and>
    w_events w' = w_events w @ [Message_sent cid content (as_i64 (now_ms (e_clock env)))]"
proof -
  obtain sess db db' where s: "hm_get (chats (w_display w)) cid = Some sess" "\<not> cs_history_only sess"
    and f: "flatten (fst (with_client (ca_send_message (e_client env) cid content) w)) = Inr ()"
    and db: "d_chat_db (w_display w) = Some db"
    and rec: "record_message (e_store env) (e_fault env) db None
           (chat_message cid Sent (now_ms (e_clock env)) content) = (Inr (), db')"
    and d: "w_display (snd (send_message env cid content w)) =
      update_chats (hm_insert cid (sess\<lparr>cs_messages := cs_messages sess
        @ [display_message (chat_message cid Sent (now_ms (e_clock env)) content)]\<rparr>))
        ((w_display w)\<lparr>d_chat_db := Some db'\<rparr>)"
    and ev: "w_events (snd (send_message env cid content w)) =
      w_events w @ [Message_sent cid content (as_i64 (now_ms (e_clock env)))]"
    by (rule send_message_Inr [OF assms(3)])
  have "log (t_messages db') = log (t_messages db) @ [chat_message cid Sent (now_ms (e_clock env)) content]"
    using record_message_Inr [OF assms(1) rec] by auto
  moreover have "view_of (display_message (chat_message cid Sent (now_ms (e_clock env)) content)) =
      \<lparr>mv_from_self = True, mv_content = content, mv_timestamp_ms = as_i64 (now_ms (e_clock env)),
        mv_sender = None\<rparr>"
    by (simp add: view_of_def display_message_def chat_message_def from_utf8_lossy_valid [OF assms(2)])
  ultimately show ?thesis
    using s db f
    by (intro exI [of _ db] exI [of _ db'])
      (simp add: assms(4) d ev get_messages_def with_display_def flatten_Inr_iff)
qed

lemma sent_message_reads_back_witness:
  "get_messages ''dm'' (snd (send_message demo_env ''dm'' ''hi'' chat_world)) = get_messages ''dm'' chat_world @
     [\<lparr>mv_from_self = True, mv_content = ''hi'', mv_timestamp_ms = as_i64 (now_ms (e_clock demo_env)),
       mv_sender = None\<rparr>]"
  using sent_message_reads_back [OF demo_env_up(1) utf8_hi demo_sends refl] by blast

text \<open>C14: An inbound message for a conversation that was not deleted is shown as the newest one,
  decoded leniently, with its sender's account, and announced once, even when the write fails.\<close>

theorem received_message_is_shown:
  assumes "cid \<notin> as_deleted (d_state (w_display w))" and "d_chat_db (w_display w) \<noteq> None"
    and "w' = handle_event env (MessageReceived cid content account signer) w"
  shows "get_messages cid w' = get_messages cid w @
      [\<lparr>mv_from_self = False, mv_content = from_utf8_lossy content,
        mv_timestamp_ms = as_i64 (now_ms (e_clock env)), mv_sender = Some account\<rparr>] \<and>
    w_events w' = w_events w @
      [Message_received cid (from_utf8_lossy content) (as_i64 (now_ms (e_clock env))) account]"
proof -
  let ?msg = "inbound_message env cid content account signer"
  obtain changed sess where sess: "inbound_session cid account (w_display w) = (changed, sess)"
    by fastforce
  have id': "m_chat_id ?msg = cid" by (simp add: inbound_message_def chat_message_def)
  let ?d1 = "update_chats (hm_insert cid sess) (w_display w)"
  have "hm_get (chats (snd (chat_record_message env ?msg changed ?d1))) cid =
      Some (sess\<lparr>cs_messages := cs_messages sess @ [display_message ?msg]\<rparr>)"
    using chat_record_message_shown [of ?d1 ?msg sess] assms(2) by (simp add: id')
  moreover have "cs_messages sess = unwrap_or (map_option cs_messages (hm_get (chats (w_display w)) cid)) []"
    using inbound_session_history [OF sess] by (auto split: option.splits)
  moreover have "view_of (display_message ?msg) =
      \<lparr>mv_from_self = False, mv_content = from_utf8_lossy content,
        mv_timestamp_ms = as_i64 (now_ms (e_clock env)), mv_sender = Some account\<rparr>"
    by (simp add: view_of_def display_message_def inbound_message_def chat_message_def)
  ultimately show ?thesis
    using assms(1) sess
    by (simp add: assms(3) record_message_received_def Let_def case_prod_unfold get_messages_def
        with_display_def split: sum.split)
qed

lemma received_message_is_shown_witness:
  "w_events (handle_event demo_env (MessageReceived ''dm'' ''hi'' ''bob'' ''k'') chat_world) =
     w_events chat_world @ [Message_received ''dm'' (from_utf8_lossy ''hi'')
        (as_i64 (now_ms (e_clock demo_env))) ''bob'']"
  using received_message_is_shown [OF _ _ refl, of "''dm''" chat_world demo_env "''hi''" "''bob''" "''k''"] by simp

text \<open>C15: Recording a message and deleting a chat each write everything or nothing: a failure
  leaves every table as it was.\<close>

theorem chat_db_writes_are_atomic:
  "(case record_message api flt conn session msg of
      (Inl e, conn') \<Rightarrow> conn' = conn
    | (Inr _, conn') \<Rightarrow> \<exists>ms. st_record api msg (t_messages conn) = Inr ms \<and>
        conn' = (case session of None \<Rightarrow> conn
          | Some s \<Rightarrow> conn\<lparr>t_chats := hm_insert (cs_chat_id s) (row_of_session s) (t_chats conn)\<rparr>)
            \<lparr>t_messages := ms\<rparr>) \<and>
   (case delete_chat api flt conn cid of
      (Inl e, conn') \<Rightarrow> conn' = conn
    | (Inr _, conn') \<Rightarrow> \<exists>ms. st_delete_chat api cid (t_messages conn) = Inr ms \<and>
        conn' = conn\<lparr>t_messages := ms, t_chats := hm_remove cid (t_chats conn),
          t_deleted := insert_or_ignore cid (t_deleted conn)\<rparr>)"
  by (auto simp: record_message_def delete_chat_def and_then_Inr_iff run_stmt_Inr_iff save_chat_Inr_iff
      split: sum.split prod.split option.splits dest!: in_tx_cases)

text \<open>C28: What the module logs of a message is its size: a send adds at most the line with the
  number of bytes, a received message that line and at most one about a failed write.\<close>

theorem message_text_is_not_logged:
  "w_log (snd (send_message env cid content w)) \<in>
     {w_log w, w_log w @ [(INFO, ''sent '' @ dec (length content) @ '' bytes to '' @ cid)]} \<and>
   (\<exists>failed. w_log (record_message_received env cid content account inst w) \<in>
     {w_log w,
      w_log w @ [(INFO, ''received '' @ dec (length content) @ '' bytes in '' @ cid @ '' from ''
                    @ short_label account)] @ failed} \<and>
     failed \<in> insert [] (failed_write_lines env))"
proof
  show "w_log (snd (send_message env cid content w)) \<in>
     {w_log w, w_log w @ [(INFO, ''sent '' @ dec (length content) @ '' bytes to '' @ cid)]}"
    by (simp add: send_message_def case_prod_unfold Let_def split: sum.split)
  obtain changed sess where sess: "inbound_session cid account (w_display w) = (changed, sess)"
    by fastforce
  let ?d1 = "update_chats (hm_insert cid sess) (w_display w)"
  obtain rec d' where rec: "chat_record_message env (inbound_message env cid content account inst) changed ?d1
      = (rec, d')"
    by fastforce
  then have r: "rec = Inr () \<or> (\<exists>e \<in> insert NotInit (range Store). rec = Inl e)"
    using chat_record_message_result [of env "inbound_message env cid content account inst" changed ?d1]
    by simp
  show "\<exists>failed. w_log (record_message_received env cid content account inst w) \<in>
     {w_log w,
      w_log w @ [(INFO, ''received '' @ dec (length content) @ '' bytes in '' @ cid @ '' from ''
                    @ short_label account)] @ failed} \<and>
     failed \<in> insert [] (failed_write_lines env)"
  proof (cases rec)
    case (Inl e)
    with r have "[(ERROR, ''recording an inbound message failed: '' @ core_error_text env e)]
        \<in> failed_write_lines env"
      unfolding failed_write_lines_def by (intro image_eqI [OF refl]) simp
    then show ?thesis
      using sess rec Inl
      by (intro exI [of _ "[(ERROR, ''recording an inbound message failed: '' @ core_error_text env e)]"])
        (simp add: record_message_received_def)
  next
    case (Inr u)
    then show ?thesis
      using sess rec by (intro exI [of _ "[]"]) (simp add: record_message_received_def)
  qed
qed

text \<open>An unknown conversation and one kept for its history only are refused, each with its own
  error, before the client is asked: a send, an invitation and a roster query change nothing.\<close>

theorem not_live_is_refused:
  assumes "case hm_get (chats (w_display w)) cid of
      None \<Rightarrow> e = NotFound | Some s \<Rightarrow> cs_history_only s \<and> e = HistoryOnly"
  shows "send_message env cid content w = (Inl e, w) \<and>
    add_group_member env cid peer w = (Inl e, w) \<and> list_group_members env cid w = ([], w)"
  using assms check_live_Inl [of cid w e]
  by (simp add: send_message_def add_group_member_def list_group_members_def)

lemma not_live_is_refused_witness:
  "send_message demo_env ''old'' ''hi'' chat_world = (Inl HistoryOnly, chat_world)"
  using not_live_is_refused [where w = chat_world and cid = "''old''" and e = HistoryOnly and env = demo_env and content = "''hi''"]
  by (simp add: old_session_def)

text \<open>A listing has every known conversation once, and \<open>status\<close> counts what it lists.\<close>

theorem listing_is_complete:
  assumes "in_sync log (w_display w)"
  shows "distinct (map cv_convo_id (list_conversations w)) \<and>
    set (map cv_convo_id (list_conversations w)) = {cid. hm_contains (chats (w_display w)) cid} \<and>
    st_convo_count (status w) = word_of_nat (length (list_conversations w))"
  using list_conversations_ids [OF assms]
  by (simp add: status_def with_display_def list_conversations_def hm_values_def as_i64_def len_usize_def)

lemma listing_is_complete_witness:
  "distinct (map cv_convo_id (list_conversations chat_world)) \<and> st_convo_count (status chat_world) = 2"
  using listing_is_complete [OF chat_world_sync]
  by (simp add: list_conversations_def with_display_def chat_world_def hm_values_def)

text \<open>C33: A listing's preview is the newest message's text, cut to its first 160 characters, never
  inside one; a conversation without messages has none and no activity.\<close>

theorem preview_is_first_characters:
  assumes "list_all (\<lambda>m. utf8 (dm_content m)) (cs_messages s)"
  shows "case cv_preview (conversation_of s) of
      None \<Rightarrow> cs_messages s = [] \<and> cv_last_activity_ms (conversation_of s) = 0
    | Some p \<Rightarrow> (\<exists>ms m. cs_messages s = ms @ [m] \<and> prefix p (dm_content m) \<and> utf8 p \<and>
        chars p = take PREVIEW_MAX_CHARS (chars (dm_content m)) \<and>
        cv_last_activity_ms (conversation_of s) = as_i64 (dm_timestamp_ms m))"
proof (cases "cs_messages s" rule: rev_cases)
  case (snoc ms m)
  then have u: "utf8 (dm_content m)" using assms by simp
  have "prefix (concat (take n (chars (dm_content m)))) (dm_content m)" for n
    by (metis append_take_drop_id concat_append concat_chars prefixI)
  with u snoc show ?thesis
    by (simp add: conversation_of_def last_opt_def utf8_take_chars take_chars)
qed (simp add: conversation_of_def last_opt_def)

lemma preview_is_first_characters_witness:
  "case cv_preview (conversation_of dm_session) of None \<Rightarrow> False | Some p \<Rightarrow> utf8 p"
proof -
  have "utf8 ''hello''" by (intro ascii_utf8) (simp add: ascii_def byte_def)
  then show ?thesis
    using preview_is_first_characters [of dm_session]
    by (auto simp: dm_session_def split: option.splits)
qed

text \<open>A direct conversation whose creation succeeded has the id libchat gave it, is shown live
  and empty with its peer, is a row of chat.db, and is announced as started here; other
  conversations stay.\<close>

theorem created_conversation_is_shown:
  assumes "fst (create_conversation env a w) = Inr cid" and "w' = snd (create_conversation env a w)"
  shows "fst (with_client (ca_create_direct_conversation (e_client env) a) w) = Inr (Inr cid) \<and>
    (\<forall>c. hm_get (chats (w_display w')) c =
       (if c = cid then Some (new_session cid Direct None None (Some a)) else hm_get (chats (w_display w)) c)) \<and>
    (\<exists>db. d_chat_db (w_display w') = Some db \<and>
       hm_get (t_chats db) cid = Some (row_of_session (new_session cid Direct None None (Some a)))) \<and>
    w_events w' = w_events w @ [Conversation_created cid True (short_label cid) ''direct'' [] []]"
proof -
  let ?s = "new_session cid Direct None None (Some a)"
  let ?d = "update_chats (hm_insert cid ?s) (w_display w)"
  obtain d' where c: "fst (with_client (ca_create_direct_conversation (e_client env) a) w) = Inr (Inr cid)"
    and p: "persist_chat env cid ?d = Inr d'"
    using assms(1)
    by (auto simp: create_conversation_def case_prod_unfold Let_def flatten_Inr_iff split: sum.splits)
  then have "w' = emit (Conversation_created cid True (short_label cid) ''direct'' [] [])
      (with_display_mut (\<lambda>_. d') (with_display_mut (update_chats (hm_insert cid ?s))
        (log_at INFO (''created direct conversation '' @ cid)
          (snd (with_client (ca_create_direct_conversation (e_client env) a) w)))))"
    by (simp add: assms(2) create_conversation_def case_prod_unfold Let_def flatten_def)
  then show ?thesis
    using c p by (auto simp: persist_chat_def and_then_Inr_iff save_chat_Inr_iff)
qed

lemma created_conversation_is_shown_witness:
  "\<exists>w'. create_conversation demo_env ''eve'' demo_world = (Inr ''dm'', w') \<and>
     hm_get (chats (w_display w')) ''dm'' = Some (new_session ''dm'' Direct None None (Some ''eve''))"
proof -
  have "fst (create_conversation demo_env ''eve'' demo_world) = Inr ''dm''"
    by (simp add: create_conversation_def with_client_def with_state_mut_def demo_world_def
        demo_module_def demo_env_def demo_client_def case_prod_unfold Let_def flatten_def
        persist_chat_def save_chat_def)
  from created_conversation_is_shown [OF this refl] this show ?thesis
    by (intro exI [of _ "snd (create_conversation demo_env ''eve'' demo_world)"]) (auto simp: prod_eq_iff)
qed

text \<open>When the write of a nickname fails, the request reports the error, yet the display
  already shows the new nickname and the file keeps the old row.\<close>

theorem failed_nickname_is_still_shown:
  assumes "hm_get (chats (w_display w)) cid = Some s" and "d_chat_db (w_display w) = Some db"
    and "e_fault env Upsert_chat = Some err" and "w' = snd (set_conversation_nickname env cid nick w)"
  shows "fst (set_conversation_nickname env cid nick w) = Inl (Store err) \<and>
    map_option cs_nickname (hm_get (chats (w_display w')) cid) = Some (non_empty nick) \<and>
    d_chat_db (w_display w') = Some db \<and> w_events w' = w_events w"
  using assms
  by (simp add: set_conversation_nickname_def Let_def persist_chat_def save_chat_def run_stmt_def
      non_empty_def)

definition broken_env :: "(nat, message list) env" where
  "broken_env = demo_env\<lparr>e_fault := (\<lambda>_. Some (Driver ''full''))\<rparr>"

lemma failed_nickname_is_still_shown_witness:
  "fst (set_conversation_nickname broken_env ''dm'' ''bobby'' chat_world) = Inl (Store (Driver ''full'')) \<and>
   map_option cs_nickname (hm_get (chats (w_display
     (snd (set_conversation_nickname broken_env ''dm'' ''bobby'' chat_world)))) ''dm'') = Some (Some ''bobby'')"
  using failed_nickname_is_still_shown
    [OF chat_world_simps(1,3) _ refl, of broken_env "Driver ''full''" "''bobby''"]
  by (simp add: broken_env_def non_empty_def)

text \<open>The short label of an id never cuts a character, so taking it never panics: it is the
  id's first eight characters.\<close>

theorem short_label_never_panics:
  assumes "utf8 cid"
  shows "short_label_slice cid = Some (short_label cid) \<and> utf8 (short_label cid) \<and>
    chars (short_label cid) = take 8 (chars cid) \<and> prefix (short_label cid) cid"
  using assms
  by (simp add: label_end_boundary short_label_chars utf8_take_chars take_chars)
    (metis append_take_drop_id concat_append concat_chars prefixI)

lemma short_label_never_panics_witness: "short_label_slice ''hi'' = Some (short_label ''hi'')"
  using short_label_never_panics [OF utf8_hi] by simp

text \<open>A live conversation's roster is its committed members followed by the invited ones, each
  flagged; when the client fails the roster is empty and the failure is logged.\<close>

theorem roster_of_live_conversation:
  assumes "hm_get (chats (w_display w)) cid = Some s" and "\<not> cs_history_only s"
    and "\<not> mh_poisoned (w_module w)" and "mh_inner (w_module w) = Some ms"
    and "members_and_pending env cid (ms_client ms) = (r, c', calls)"
  shows "case r of
      Inr (committed, invited) \<Rightarrow>
        fst (list_group_members env cid w) =
          map (\<lambda>a. \<lparr>gm_address = a, gm_pending = False\<rparr>) committed @
          map (\<lambda>a. \<lparr>gm_address = a, gm_pending = True\<rparr>) invited \<and>
        w_log (snd (list_group_members env cid w)) = w_log w
    | Inl e \<Rightarrow> fst (list_group_members env cid w) = [] \<and>
        w_log (snd (list_group_members env cid w)) = w_log w @ [(WARN, ''list_group_members failed: '' @ e)]"
proof -
  have "check_live cid w = Inr ()" using assms(1,2) by (simp add: check_live_Inr)
  moreover have "fst (with_client (members_and_pending env cid) w) = Inr r"
    using assms(3-5)
    by (simp add: with_client_def with_state_mut_def case_prod_unfold Let_def)
  ultimately show ?thesis
    by (auto simp: list_group_members_def case_prod_unfold Let_def split: sum.split)
qed

lemma roster_of_live_conversation_witness:
  "fst (list_group_members demo_env ''dm'' chat_world) =
     [\<lparr>gm_address = ''alice'', gm_pending = False\<rparr>, \<lparr>gm_address = ''bob'', gm_pending = False\<rparr>,
      \<lparr>gm_address = ''carol'', gm_pending = True\<rparr>]"
  using roster_of_live_conversation [OF chat_world_simps(1), of
      "\<lparr>ms_client = 0, ms_inbound_thread = Some demo_bridge, ms_event_thread = Some ()\<rparr>" demo_env
      "Inr ([''alice'', ''bob''], [''carol''])" 0 "[]"]
  by (simp add: dm_session_def demo_module_def members_and_pending_def demo_env_def demo_client_def)

end
