(* ===== verification/Followers.thy ===== *)
theory Followers
  imports Chat_Properties
begin

text \<open>
  The events of the contract as a specification of the display.  A consumer (the UI) lists everything
  once, then only follows the events: a conversation is opened, a message goes at the end of its
  conversation and renews its preview, an update marks a conversation to be listed again.  What it then
  shows is what the getters return, so the events tell everything the requests and the client's events
  change, once and in order.
\<close>

section \<open>A consumer of the events\<close>

text \<open>The listing and the messages it keeps, and the conversations it has to list again.\<close>

record follower =
  fo_list :: "str \<Rightarrow> conversation option"
  fo_messages :: "str \<Rightarrow> message_view list"
  fo_stale :: "str set"

definition listed :: "('c, 'ms) world \<Rightarrow> str \<Rightarrow> conversation option" where
  "listed w convo_id = find (\<lambda>c. cv_convo_id c = convo_id) (list_conversations w)"

definition read_all :: "('c, 'ms) world \<Rightarrow> follower" where
  "read_all w = \<lparr>fo_list = listed w, fo_messages = (\<lambda>convo_id. get_messages convo_id w), fo_stale = {}\<rparr>"

definition catch_up :: "('c, 'ms) world \<Rightarrow> follower \<Rightarrow> follower" where
  "catch_up w fo = fo\<lparr>fo_list := (\<lambda>convo_id. if convo_id \<in> fo_stale fo then listed w convo_id
     else fo_list fo convo_id), fo_stale := {}\<rparr>"

text \<open>A conversation as \<open>conversation_created\<close> tells it.\<close>

definition opened :: "str \<Rightarrow> str \<Rightarrow> str \<Rightarrow> str \<Rightarrow> conversation" where
  "opened convo_id kind name desc =
     \<lparr>cv_convo_id = convo_id, cv_nickname = None, cv_message_count = 0, cv_last_activity_ms = 0,
      cv_kind = kind, cv_name = non_empty name, cv_description = non_empty desc, cv_preview = None,
      cv_history_only = False\<rparr>"

text \<open>A message in a conversation that was never announced opens a direct one.\<close>

definition with_message :: "message_view \<Rightarrow> conversation \<Rightarrow> conversation" where
  "with_message m c = c\<lparr>cv_message_count := cv_message_count c + 1,
     cv_last_activity_ms := mv_timestamp_ms m,
     cv_preview := Some (concat (take PREVIEW_MAX_CHARS (chars (mv_content m))))\<rparr>"

definition take_message :: "str \<Rightarrow> message_view \<Rightarrow> follower \<Rightarrow> follower" where
  "take_message convo_id m fo =
     (let c = unwrap_or (fo_list fo convo_id) (opened convo_id (kind_as_str default_kind) [] [])
      in fo\<lparr>fo_list := (fo_list fo)(convo_id := Some (with_message m c)),
            fo_messages := (fo_messages fo)(convo_id := fo_messages fo convo_id @ [m])\<rparr>)"

fun follow :: "event \<Rightarrow> follower \<Rightarrow> follower" where
  "follow (Conversation_created convo_id is_outgoing label kind name desc) fo =
     fo\<lparr>fo_list := (fo_list fo)(convo_id := Some (opened convo_id kind name desc)),
        fo_messages := (fo_messages fo)(convo_id := [])\<rparr>"
| "follow (Conversation_updated convo_id) fo = fo\<lparr>fo_stale := insert convo_id (fo_stale fo)\<rparr>"
| "follow (Conversation_deleted convo_id) fo =
     fo\<lparr>fo_list := (fo_list fo)(convo_id := None), fo_messages := (fo_messages fo)(convo_id := []),
        fo_stale := fo_stale fo - {convo_id}\<rparr>"
| "follow (Message_received convo_id content timestamp sender) fo =
     take_message convo_id \<lparr>mv_from_self = False, mv_content = content, mv_timestamp_ms = timestamp,
       mv_sender = Some sender\<rparr> fo"
| "follow (Message_sent convo_id content timestamp) fo =
     take_message convo_id \<lparr>mv_from_self = True, mv_content = content, mv_timestamp_ms = timestamp,
       mv_sender = None\<rparr> fo"
| "follow (Members_changed convo_id) fo = fo"
| "follow (Delivery_state_changed st detail adopted) fo = fo"

section \<open>Agreement with the display\<close>

text \<open>What is kept of a conversation, up to its label and its history flag while it is to be listed
  again.\<close>

fun agree_at :: "chat_session option \<Rightarrow> conversation option \<Rightarrow> message_view list \<Rightarrow> bool \<Rightarrow> bool" where
  "agree_at None c ms stale \<longleftrightarrow> c = None \<and> ms = []"
| "agree_at (Some s) c ms stale \<longleftrightarrow> ms = map view_of (cs_messages s) \<and>
     (\<exists>nick h. c = Some ((conversation_of s)\<lparr>cv_nickname := nick, cv_history_only := h\<rparr>) \<and>
        (\<not> stale \<longrightarrow> nick = cs_nickname s \<and> h = cs_history_only s))"

definition agrees :: "(str \<Rightarrow> chat_session option) \<Rightarrow> follower \<Rightarrow> bool" where
  "agrees g fo \<longleftrightarrow> (\<forall>cid. agree_at (g cid) (fo_list fo cid) (fo_messages fo cid) (cid \<in> fo_stale fo))"

lemma agreesD: "agrees g fo \<Longrightarrow> agree_at (g cid) (fo_list fo cid) (fo_messages fo cid) (cid \<in> fo_stale fo)"
  by (simp add: agrees_def)

lemma agrees_created:
  assumes "agrees g fo" and "g cid = None"
  shows "agrees (g(cid \<mapsto> new_session cid kind (non_empty n) (non_empty de) peer))
     (follow (Conversation_created cid out label (kind_as_str kind) n de) fo)"
  using assms
  by (auto simp: agrees_def opened_def conversation_of_def last_opt_def as_i64_def len_usize_def)

text \<open>The label or the history flag of a conversation changes, or nothing at all.\<close>

lemma agrees_updated:
  assumes "agrees g fo" and "g cid = Some s"
  shows "agrees (g(cid \<mapsto> s\<lparr>cs_nickname := nick, cs_history_only := h\<rparr>)) (follow (Conversation_updated cid) fo)"
  using assms agreesD [OF assms(1), of cid]
  by (auto simp: agrees_def conversation_of_def)

lemma agrees_stale: "agrees g fo \<Longrightarrow> agrees g (follow (Conversation_updated cid) fo)"
  unfolding agrees_def
proof (intro allI)
  fix c assume "\<forall>cid. agree_at (g cid) (fo_list fo cid) (fo_messages fo cid) (cid \<in> fo_stale fo)"
  then have "agree_at (g c) (fo_list fo c) (fo_messages fo c) (c \<in> fo_stale fo)" by blast
  then show "agree_at (g c) (fo_list (follow (Conversation_updated cid) fo) c)
      (fo_messages (follow (Conversation_updated cid) fo) c) (c \<in> fo_stale (follow (Conversation_updated cid) fo))"
    by (cases "g c") auto
qed

lemma agrees_deleted: "agrees g fo \<Longrightarrow> agrees (g(cid := None)) (follow (Conversation_deleted cid) fo)"
  by (auto simp: agrees_def)

lemma last_opt_snoc [simp]: "last_opt (xs @ [x]) = Some x"
  by (simp add: last_opt_def)

lemma conversation_of_snoc:
  "conversation_of (s\<lparr>cs_messages := cs_messages s @ [m]\<rparr>) = with_message (view_of m) (conversation_of s)"
  by (simp add: conversation_of_def with_message_def view_of_def len_usize_def as_i64_def)

text \<open>A message goes at the end of its conversation, which it may open.\<close>

lemma agrees_message:
  assumes "agrees g fo" and "s = unwrap_or (g cid) (new_session cid default_kind None None None)"
    and "view_of m = v"
  shows "agrees (g(cid \<mapsto> s\<lparr>cs_messages := cs_messages s @ [m], cs_peer := peer\<rparr>)) (take_message cid v fo)"
proof -
  have snoc: "conversation_of (t\<lparr>cs_messages := cs_messages t @ [m], cs_peer := peer\<rparr>) =
      with_message (view_of m) (conversation_of t)" for t
    using conversation_of_snoc [of t m] by (simp add: conversation_of_def)
  have new: "opened cid (kind_as_str default_kind) [] [] = conversation_of (new_session cid default_kind None None None)"
    by (simp add: opened_def conversation_of_def last_opt_def as_i64_def len_usize_def non_empty_def)
  have upd: "with_message w (c\<lparr>cv_nickname := nick, cv_history_only := h\<rparr>) =
      (with_message w c)\<lparr>cv_nickname := nick, cv_history_only := h\<rparr>" for w c nick h
    by (simp add: with_message_def)
  have "agree_at (Some (s\<lparr>cs_messages := cs_messages s @ [m], cs_peer := peer\<rparr>))
      (fo_list (take_message cid v fo) cid) (fo_messages (take_message cid v fo) cid) (cid \<in> fo_stale fo)"
  proof (cases "g cid")
    case None
    then have "fo_list fo cid = None" "fo_messages fo cid = []"
      using agreesD [OF assms(1), of cid] by auto
    then show ?thesis
      using None assms(2,3) by (auto simp: take_message_def new snoc Let_def)
        (simp_all add: conversation_of_def with_message_def last_opt_def view_of_def len_usize_def as_i64_def, blast)
  next
    case (Some old)
    then show ?thesis
      using agreesD [OF assms(1), of cid] assms(2,3)
      by (clarsimp simp: take_message_def snoc upd Let_def) blast
  qed
  then show ?thesis
    using assms(1) by (auto simp: agrees_def take_message_def Let_def)
qed

section \<open>What the operations announce\<close>

abbreviation shown :: "('c, 'ms) world \<Rightarrow> str \<Rightarrow> chat_session option" where
  "shown w \<equiv> hm_get (chats (w_display w))"

text \<open>A step is announced when following its events keeps a consumer in agreement.\<close>

definition announced :: "('c, 'ms) world \<Rightarrow> ('c, 'ms) world \<Rightarrow> bool" where
  "announced w w' \<longleftrightarrow> (\<exists>evts. w_events w' = w_events w @ evts \<and>
     (\<forall>fo. agrees (shown w) fo \<longrightarrow> agrees (shown w') (fold follow evts fo)))"

lemma announced_quiet: "w_events w' = w_events w \<Longrightarrow> shown w' = shown w \<Longrightarrow> announced w w'"
  by (auto simp: announced_def)

lemma announced_by:
  "w_events w' = w_events w @ [e] \<Longrightarrow> (\<And>fo. agrees (shown w) fo \<Longrightarrow> agrees (shown w') (follow e fo)) \<Longrightarrow> announced w w'"
  by (auto simp: announced_def)

lemma persist_chat_chats: "persist_chat env cid d = Inr d' \<Longrightarrow> chats d' = chats d"
  by (auto simp: persist_chat_def and_then_Inr_iff)

lemma hm_get_insert_fun: "hm_get (hm_insert k v m) = (hm_get m)(k \<mapsto> v)"
  by auto

lemma hm_get_remove_fun: "hm_get (hm_remove k m) = (hm_get m)(k := None)"
  by auto

lemma announced_set_installation_name: "announced w (snd (set_installation_name env name w))"
  by (intro announced_quiet) (simp_all add: set_installation_name_def Let_def split: sum.split)

lemma announced_created:
  assumes "\<not> hm_contains (chats (w_display w)) cid" and "w_events w1 = w_events w" and "w_display w1 = w_display w"
    and "sess = new_session cid kind (non_empty n) (non_empty de) peer"
    and "persist_chat env cid (update_chats (hm_insert cid sess) (w_display w)) = Inr d"
  shows "announced w (emit (Conversation_created cid out label (kind_as_str kind) n de)
    (with_display_mut (\<lambda>_. d) (with_display_mut (update_chats (hm_insert cid sess)) w1)))"
proof (rule announced_by)
  have "chats d = hm_insert cid sess (chats (w_display w))"
    using persist_chat_chats [OF assms(5)] by simp
  then show "agrees (shown (emit (Conversation_created cid out label (kind_as_str kind) n de)
    (with_display_mut (\<lambda>_. d) (with_display_mut (update_chats (hm_insert cid sess)) w1))))
    (follow (Conversation_created cid out label (kind_as_str kind) n de) fo)" if "agrees (shown w) fo" for fo
    using agrees_created [OF that, of cid kind n de peer out label] assms(1,4)
    by (simp add: hm_get_insert_fun hm_contains_def)
qed (simp add: assms)

lemma announced_create_conversation:
  assumes "in_sync log (w_display w)" and "fresh_id env (Create_conversation a) w"
    and "is_ok (fst (create_conversation env a w)) \<or> healthy env"
  shows "announced w (snd (create_conversation env a w))"
proof (cases "flatten (fst (with_client (ca_create_direct_conversation (e_client env) a) w))")
  case (Inl e)
  then show ?thesis by (intro announced_quiet) (simp_all add: create_conversation_def case_prod_unfold)
next
  case (Inr cid)
  let ?sess = "new_session cid Direct None None (Some a)"
  have new: "\<not> hm_contains (chats (w_display w)) cid" using assms(2) Inr by (simp add: flatten_Inr_iff)
  show ?thesis
  proof (cases "persist_chat env cid (update_chats (hm_insert cid ?sess) (w_display w))")
    case (Inl e)
    with assms persist_chat_healthy [of env log "w_display w" cid ?sess] Inr show ?thesis
      by (auto simp: create_conversation_def case_prod_unfold Let_def)
  next
    case (Inr d)
    then show ?thesis
      using announced_created [OF new, of _ ?sess Direct "[]" "[]" "Some a" env d True "short_label cid"]
        \<open>flatten _ = Inr cid\<close>
      by (simp add: create_conversation_def case_prod_unfold Let_def non_empty_def)
  qed
qed

lemma announced_create_group:
  assumes "in_sync log (w_display w)" and "fresh_id env (Create_group_conversation n de) w"
    and "is_ok (fst (create_group_conversation env n de w)) \<or> healthy env"
  shows "announced w (snd (create_group_conversation env n de w))"
proof (cases "flatten (fst (with_client (ca_create_group_conversation (e_client env) [] (n, de)) w))")
  case (Inl e)
  then show ?thesis by (intro announced_quiet) (simp_all add: create_group_conversation_def case_prod_unfold)
next
  case (Inr cid)
  let ?sess = "new_session cid Group (non_empty n) (non_empty de) None"
  have new: "\<not> hm_contains (chats (w_display w)) cid" using assms(2) Inr by (simp add: flatten_Inr_iff)
  show ?thesis
  proof (cases "persist_chat env cid (update_chats (hm_insert cid ?sess) (w_display w))")
    case (Inl e)
    with assms persist_chat_healthy [of env log "w_display w" cid ?sess] Inr show ?thesis
      by (auto simp: create_group_conversation_def case_prod_unfold Let_def)
  next
    case (Inr d)
    then show ?thesis
      using announced_created [OF new, of _ ?sess Group n de None env d True "short_label cid"]
        \<open>flatten _ = Inr cid\<close>
      by (simp add: create_group_conversation_def case_prod_unfold Let_def)
  qed
qed

lemma announced_add_group_member: "announced w (snd (add_group_member env cid a w))"
proof (cases "is_ok (fst (add_group_member env cid a w))")
  case True
  then show ?thesis
    by (intro announced_by [where e = "Conversation_updated cid"])
      (auto simp: add_group_member_def case_prod_unfold Let_def simp del: follow.simps
          intro: agrees_stale split: sum.splits)
next
  case False
  then show ?thesis
    by (intro announced_quiet)
      (auto simp: add_group_member_def case_prod_unfold Let_def split: sum.splits)
qed

lemma announced_nickname:
  assumes "in_sync log (w_display w)"
    and "is_ok (fst (set_conversation_nickname env cid nick w)) \<or> healthy env"
  shows "announced w (snd (set_conversation_nickname env cid nick w))"
proof (cases "shown w cid")
  case None
  then show ?thesis by (intro announced_quiet) (simp_all add: set_conversation_nickname_def)
next
  case (Some s)
  let ?s = "s\<lparr>cs_nickname := if nick = [] then None else Some nick\<rparr>"
  show ?thesis
  proof (cases "persist_chat env cid (update_chats (hm_insert cid ?s) (w_display w))")
    case (Inl e)
    with assms persist_chat_healthy [of env log "w_display w" cid ?s] Some show ?thesis
      by (auto simp: set_conversation_nickname_def Let_def)
  next
    case (Inr d)
    have same: "s\<lparr>cs_nickname := x, cs_history_only := cs_history_only s\<rparr> = s\<lparr>cs_nickname := x\<rparr>" for x by simp
    have "agrees (hm_get (chats d)) (follow (Conversation_updated cid) fo)" if "agrees (shown w) fo" for fo
      using agrees_updated [OF that Some, where nick = "if nick = [] then None else Some nick" and h = "cs_history_only s"]
        persist_chat_chats [OF Inr] by (simp add: hm_get_insert_fun same)
    then show ?thesis
      using Some Inr by (intro announced_by [where e = "Conversation_updated cid"])
        (simp_all add: set_conversation_nickname_def Let_def)
  qed
qed

lemma announced_delete: "announced w (snd (delete_conversation env cid w))"
proof (cases "is_ok (fst (delete_conversation env cid w))")
  case True
  then show ?thesis
    by (intro announced_by [where e = "Conversation_deleted cid"])
      (auto simp: delete_conversation_def case_prod_unfold Let_def hm_get_remove_fun
          simp del: follow.simps intro: agrees_deleted split: sum.splits option.splits if_splits)
next
  case False
  then show ?thesis
    by (intro announced_quiet)
      (auto simp: delete_conversation_def case_prod_unfold Let_def split: sum.splits option.splits if_splits)
qed

text \<open>A message recorded in a session goes at the end of it, whether or not the write succeeds.\<close>

lemma chat_record_chats:
  assumes "hm_get (chats d) (m_chat_id msg) = Some s" and "d_chat_db d \<noteq> None"
  shows "hm_get (chats (snd (chat_record_message env msg changed d))) =
    (hm_get (chats d))(m_chat_id msg \<mapsto> s\<lparr>cs_messages := cs_messages s @ [display_message msg]\<rparr>)"
  using chat_record_message_shown [OF assms, of env changed]
  by (intro ext) (simp add: chat_record_message_frame(2))

lemma view_of_sent:
  "utf8 content \<Longrightarrow> view_of (display_message (chat_message cid Sent ts content)) =
     \<lparr>mv_from_self = True, mv_content = content, mv_timestamp_ms = as_i64 ts, mv_sender = None\<rparr>"
  by (simp add: view_of_def display_message_def chat_message_def from_utf8_lossy_valid)

lemma view_of_received:
  "view_of (display_message (inbound_message env cid content account inst)) =
     \<lparr>mv_from_self = False, mv_content = from_utf8_lossy content,
      mv_timestamp_ms = as_i64 (now_ms (e_clock env)), mv_sender = Some account\<rparr>"
  by (simp add: view_of_def display_message_def inbound_message_def chat_message_def)

lemma announced_send:
  assumes "in_sync log (w_display w)" and "utf8 content"
    and "is_ok (fst (send_message env cid content w)) \<or> healthy env"
  shows "announced w (snd (send_message env cid content w))"
proof (cases "check_live cid w = Inr () \<and>
    flatten (fst (with_client (ca_send_message (e_client env) cid content) w)) = Inr ()")
  case False
  then show ?thesis
    by (intro announced_quiet) (auto simp: send_message_def case_prod_unfold Let_def split: sum.split)
next
  case True
  then obtain s where s: "shown w cid = Some s"
    and cl: "check_live cid w = Inr ()" "flatten (fst (with_client (ca_send_message (e_client env) cid content) w)) = Inr ()"
    by (auto simp: check_live_Inr)
  let ?msg = "chat_message cid Sent (now_ms (e_clock env)) content"
  have db: "d_chat_db (w_display w) \<noteq> None" using assms(1) by (auto simp: in_sync_def)
  obtain r d where rec: "chat_record_message env ?msg False (w_display w) = (r, d)" by fastforce
  have r: "r = Inr ()"
    using assms(3) chat_record_healthy [OF _ db, of env ?msg False] rec cl
    by (cases r) (auto simp: send_message_def case_prod_unfold Let_def)
  have id': "m_chat_id ?msg = cid" by (simp add: chat_message_def)
  have "hm_get (chats d) = (shown w)(cid \<mapsto> s\<lparr>cs_messages := cs_messages s @ [display_message ?msg]\<rparr>)"
    using chat_record_chats [of "w_display w" ?msg s env False] s db rec id' by simp
  then have "agrees (hm_get (chats d)) (follow (Message_sent cid content (as_i64 (now_ms (e_clock env)))) fo)"
    if "agrees (shown w) fo" for fo
    using agrees_message [OF that, of s cid "display_message ?msg" _ "cs_peer s"] s view_of_sent [OF assms(2)] by simp
  then show ?thesis
    using cl rec r by (intro announced_by [where e = "Message_sent cid content (as_i64 (now_ms (e_clock env)))"])
      (simp_all add: send_message_def case_prod_unfold Let_def)
qed

lemma announced_serve:
  fixes env :: "('c, 'ms) env"
  assumes "in_sync log (w_display w)" and "fresh_id env req w" and "is_ok (fst (serve env req w)) \<or> healthy env"
    and "\<And>cid content. req = Send_message cid content \<Longrightarrow> utf8 content"
  shows "announced w (snd (serve env req w))"
proof -
  have ok: "is_ok (fst (as_result env f rw)) = is_ok (fst rw)" for f :: "'x \<Rightarrow> json" and rw :: "_ \<times> ('c, 'ms) world"
    by (cases "fst rw") (simp_all add: as_result_def)
  show ?thesis
    using assms
    by (cases req)
      (auto simp: ok announced_set_installation_name announced_add_group_member announced_delete
        intro: announced_create_conversation announced_create_group announced_send announced_nickname)
qed

lemma announced_conversation_started: "announced w (record_conversation_started env cid kind w)"
proof -
  obtain name desc w1 where g: "group_details env cid kind w = ((name, desc), w1)" by (metis prod.collapse)
  have w1: "w_display w1 = w_display w" "w_events w1 = w_events w"
    using group_details_frame(1,2) [of env cid kind w] by (simp_all add: g)
  have opt: "non_empty (unwrap_or name []) = name" "non_empty (unwrap_or desc []) = desc"
    using g by (auto simp: group_details_def non_empty_def split: if_splits prod.splits sum.splits)
  consider "cid \<in> as_deleted (d_state (w_display w))" | s where "cid \<notin> as_deleted (d_state (w_display w))" "shown w cid = Some s"
    | "cid \<notin> as_deleted (d_state (w_display w))" "shown w cid = None" by blast
  then show ?thesis
  proof cases
    case 1
    then show ?thesis by (intro announced_quiet) (simp_all add: record_conversation_started_def g w1)
  next
    case 2
    show ?thesis
    proof (cases "cs_history_only s")
      case True
      have same: "s\<lparr>cs_nickname := cs_nickname s, cs_history_only := h\<rparr> = s\<lparr>cs_history_only := h\<rparr>" for h by simp
      show ?thesis
        using 2 True agrees_updated [where cid = cid and s = s and nick = "cs_nickname s" and h = False]
        by (intro announced_by [where e = "Conversation_updated cid"])
          (simp_all add: record_conversation_started_def g w1 hm_get_insert_fun same)
    next
      case False
      with 2 show ?thesis by (intro announced_quiet) (simp_all add: record_conversation_started_def g w1)
    qed
  next
    case 3
    let ?e = "Conversation_created cid False (short_label cid) (kind_as_str kind) (unwrap_or name []) (unwrap_or desc [])"
    have "agrees ((shown w)(cid \<mapsto> new_session cid kind name desc None)) (follow ?e fo)" if "agrees (shown w) fo" for fo
      using agrees_created [OF that 3(2), of kind "unwrap_or name []" "unwrap_or desc []" None] opt by simp
    then show ?thesis
      using 3 by (intro announced_by [where e = ?e])
        (auto simp: record_conversation_started_def g w1 hm_get_insert_fun Let_def simp del: follow.simps
          dest: persist_chat_chats split: sum.split)
  qed
qed

lemma announced_message_received:
  assumes "d_chat_db (w_display w) \<noteq> None"
  shows "announced w (record_message_received env cid content account inst w)"
proof (cases "cid \<in> as_deleted (d_state (w_display w))")
  case True
  then show ?thesis by (intro announced_quiet) (simp_all add: record_message_received_def)
next
  case False
  let ?d = "w_display w" and ?msg = "inbound_message env cid content account inst"
  let ?old = "unwrap_or (shown w cid) (new_session cid default_kind None None None)"
  obtain changed s where s: "inbound_session cid account ?d = (changed, s)" by fastforce
  obtain r d where rec: "chat_record_message env ?msg changed (update_chats (hm_insert cid s) ?d) = (r, d)" by fastforce
  have id': "m_chat_id ?msg = cid" by (simp add: inbound_message_def chat_message_def)
  have peer: "s = ?old\<lparr>cs_peer := cs_peer s\<rparr>" using s by (auto simp: inbound_session_def Let_def split: if_splits)
  have "hm_get (chats d) = (shown w)(cid \<mapsto> s\<lparr>cs_messages := cs_messages s @ [display_message ?msg]\<rparr>)"
    using chat_record_chats [of "update_chats (hm_insert cid s) ?d" ?msg s env changed] assms rec id'
    by (simp add: hm_get_insert_fun)
  also have "s\<lparr>cs_messages := cs_messages s @ [display_message ?msg]\<rparr> =
      ?old\<lparr>cs_messages := cs_messages ?old @ [display_message ?msg], cs_peer := cs_peer s\<rparr>"
    by (subst (1 2) peer) simp
  finally have d: "hm_get (chats d) = (shown w)(cid \<mapsto>
      ?old\<lparr>cs_messages := cs_messages ?old @ [display_message ?msg], cs_peer := cs_peer s\<rparr>)" .
  have "agrees (hm_get (chats d)) (follow (Message_received cid (from_utf8_lossy content)
      (as_i64 (now_ms (e_clock env))) account) fo)" if "agrees (shown w) fo" for fo
    unfolding d follow.simps by (rule agrees_message [OF that refl view_of_received])
  then show ?thesis
    using False s rec
    by (intro announced_by [where e = "Message_received cid (from_utf8_lossy content) (as_i64 (now_ms (e_clock env))) account"])
      (auto simp: record_message_received_def Let_def simp del: follow.simps split: sum.split)
qed

lemma announced_handle_event:
  assumes "d_chat_db (w_display w) \<noteq> None"
  shows "announced w (handle_event env evt w)"
proof (cases evt)
  case (ConversationMembersChanged cid)
  then show ?thesis
    by (auto simp: record_members_changed_def announced_def intro!: exI [of _ "if _ then _ else _"])
qed (simp_all add: announced_conversation_started announced_message_received assms announced_quiet)

section \<open>Following a run\<close>

text \<open>An input the consumer can follow: a request that succeeds or meets no failing statement, whose
  text is a string, as every Rust \<open>&str\<close> is.\<close>

fun text_input :: "input \<Rightarrow> bool" where
  "text_input (Ask mo (Send_message convo_id content)) \<longleftrightarrow> utf8 content"
| "text_input _ \<longleftrightarrow> True"

lemma list_group_members_events [simp]: "w_events (snd (list_group_members env cid w)) = w_events w"
  by (auto simp: list_group_members_def case_prod_unfold Let_def split: sum.splits)

lemma announced_input:
  assumes "chat_inv env log w" and "smooth env i w" and "text_input i"
  shows "announced w (take_input env i w)"
proof (cases i)
  case (Ask mo req)
  moreover have "utf8 content" if "req = Send_message cid content" for cid content
    using assms(3) Ask that by simp
  ultimately show ?thesis
    using assms(1,2) announced_serve [of log w "at env mo" req] by (auto simp: chat_inv_def)
next
  case (Look mo q)
  then show ?thesis by (cases q) (auto simp: announced_quiet case_prod_unfold Let_def)
next
  case (Happens mo evt)
  then show ?thesis using assms by (auto simp: chat_inv_def in_sync_def announced_handle_event)
qed

text \<open>The consumer beside the module: it follows what each input announces.\<close>

definition next_follower :: "('c, 'ms) env \<Rightarrow> input \<Rightarrow> ('c, 'ms) world \<times> follower \<Rightarrow> ('c, 'ms) world \<times> follower" where
  "next_follower env i p = (let w' = take_input env i (fst p) in
     (w', fold follow (drop (length (w_events (fst p))) (w_events w')) (snd p)))"

interpretation follower: guarded_machine "next_follower env"
    "\<lambda>i p. smooth env i (fst p) \<and> text_input i"
    "\<lambda>p. chat_inv env log (fst p) \<and> agrees (shown (fst p)) (snd p)"
  for env :: "('c, 'ms) env" and log :: "'ms \<Rightarrow> message list"
proof (unfold_locales, goal_cases)
  case (1 p i)
  then have "chat_inv env log (take_input env i (fst p))"
    using session.step_inv [of env log "fst p" i] by blast
  moreover have "announced (fst p) (take_input env i (fst p))"
    using 1 announced_input [of env log "fst p" i] by blast
  ultimately show ?case using 1 by (auto simp: next_follower_def announced_def Let_def)
qed

text \<open>In a run, that is following all its events.\<close>

lemma fold_next_follower:
  assumes "chat_inv env log w" and "session.guarded env is w" and "list_all text_input is"
  shows "\<exists>evts. w_events (fold (take_input env) is w) = w_events w @ evts \<and>
     fold (next_follower env) is (w, fo) = (fold (take_input env) is w, fold follow evts fo)"
  using assms
proof (induction "is" arbitrary: w fo)
  case (Cons i "is")
  let ?w1 = "take_input env i w"
  obtain evts where e: "w_events ?w1 = w_events w @ evts"
    using announced_input [of env log w i] Cons.prems by (auto simp: announced_def)
  then have "next_follower env i (w, fo) = (?w1, fold follow evts fo)" by (simp add: next_follower_def)
  moreover have "chat_inv env log ?w1" using session.step_inv [of env log w i] Cons.prems by simp
  ultimately show ?case using Cons.IH [of ?w1 "fold follow evts fo"] Cons.prems e by auto
qed simp

lemma guarded_follower:
  "session.guarded env is w \<Longrightarrow> list_all text_input is \<Longrightarrow> follower.guarded env is (w, fo)"
  by (induction "is" arbitrary: w fo) (simp_all add: next_follower_def Let_def)

section \<open>Reading everything\<close>

lemma listed_chats:
  assumes "in_sync log (w_display w)"
  shows "listed w cid = map_option conversation_of (shown w cid)"
proof -
  from assms obtain db where p: "persisted log db (d_state (w_display w))" by (auto simp: in_sync_def)
  have "\<forall>(k, s)\<in>set (chats (w_display w)). cs_chat_id s = k"
    using persistedD(5) [OF p] persistedD(3) [OF p] by (auto simp: hm_get_iff_in [symmetric])
  then have "find (\<lambda>c. cv_convo_id c = cid) (map conversation_of (map snd m)) = map_option conversation_of (map_of m cid)"
    if "set m \<subseteq> set (chats (w_display w))" for m
    using that by (induction m) (auto simp: conversation_of_def)
  then show ?thesis
    by (simp add: listed_def list_conversations_def with_display_def hm_values_def hm_get_def)
qed

lemma get_messages_chats:
  "get_messages cid w = map view_of (unwrap_or (map_option cs_messages (shown w cid)) [])"
  by (simp add: get_messages_def with_display_def)

lemma agrees_read_all: "in_sync log (w_display w) \<Longrightarrow> agrees (shown w) (read_all w)"
  unfolding agrees_def
proof (intro allI)
  fix cid assume s: "in_sync log (w_display w)"
  have "conversation_of s = (conversation_of s)\<lparr>cv_nickname := cs_nickname s, cv_history_only := cs_history_only s\<rparr>" for s
    by (simp add: conversation_of_def)
  then show "agree_at (shown w cid) (fo_list (read_all w) cid) (fo_messages (read_all w) cid) (cid \<in> fo_stale (read_all w))"
    by (cases "shown w cid") (auto simp: read_all_def listed_chats [OF s] get_messages_chats)
qed

lemma catch_up_reads_all:
  assumes "in_sync log (w_display w)" and "agrees (shown w) fo"
  shows "catch_up w fo = read_all w"
proof -
  have same: "(conversation_of s)\<lparr>cv_nickname := cs_nickname s, cv_history_only := cs_history_only s\<rparr> = conversation_of s" for s
    by (simp add: conversation_of_def)
  have "(if cid \<in> fo_stale fo then listed w cid else fo_list fo cid) = listed w cid" for cid
    using agreesD [OF assms(2), of cid] by (cases "shown w cid") (auto simp: listed_chats [OF assms(1)] same)
  moreover have "fo_messages fo cid = get_messages cid w" for cid
    using agreesD [OF assms(2), of cid] by (cases "shown w cid") (auto simp: get_messages_chats)
  ultimately show ?thesis by (simp add: catch_up_def read_all_def fun_eq_iff)
qed



end
