(* ===== verification/System.thy ===== *)
theory System
  imports Examples
begin

text \<open>
  The whole module as its threads interleave: the host's calls, the bridge worker, the event
  consumer, the completion callbacks of delivery_module, and a shutdown between taking the session
  out of the lock and resetting the display.  The host's calls take \<open>&mut self\<close>, so they come one
  at a time: none starts while a shutdown is joining its workers.  The other threads run at any
  time.  What every reachable state satisfies is proved by rule induction through the locale
  \<open>transition_system\<close>: here what holds of the sessions, in theory Delivery_Watch what holds of the
  delivery state and its events.
\<close>

section \<open>States and steps\<close>

record ('c, 'ms) system =
  sy_world :: "('c, 'ms) world"
  sy_closing :: "'c module_state option"

text \<open>A completion callback runs with the outcome of its call.\<close>

fun complete ::
  "('c, 'ms) env \<Rightarrow> delivery_call \<Rightarrow> str + json \<Rightarrow> ('c, 'ms) world \<Rightarrow> ('c, 'ms) world" where
  "complete env (Create_node config preset) res w = create_node_done env preset res w"
| "complete env (Get_node_info item preset reason) res w = get_node_info_done env preset reason res w"
| "complete env Start res w = start_done env res w"
| "complete env (Send topic data) res w = send_done env res w"
| "complete env (Subscribe topic) res w = subscribe_done env res w"

text \<open>An event of delivery_module arrives in one of a bridge's subscriptions.\<close>

datatype subscribed = On_message_received | On_node_started | On_connection_state_changed

fun arrive :: "subscribed \<Rightarrow> event_data \<Rightarrow> bridge \<Rightarrow> bridge" where
  "arrive On_message_received evt b =
     b\<lparr>b_messages := (b_messages b)\<lparr>sub_queue := sub_queue (b_messages b) @ [evt]\<rparr>\<rparr>"
| "arrive On_node_started evt b =
     b\<lparr>b_node_started := map_option (\<lambda>s. s\<lparr>sub_queue := sub_queue s @ [evt]\<rparr>) (b_node_started b)\<rparr>"
| "arrive On_connection_state_changed evt b =
     b\<lparr>b_conn := map_option (\<lambda>s. s\<lparr>sub_queue := sub_queue s @ [evt]\<rparr>) (b_conn b)\<rparr>"

text \<open>A turn of a session's bridge; its state goes back into the session.\<close>

definition session_turn ::
  "decoders \<Rightarrow> 'c module_state \<Rightarrow> ('c, 'ms) world \<Rightarrow> 'c module_state \<times> ('c, 'ms) world" where
  "session_turn dcs ms w =
     (case ms_inbound_thread ms of
        None \<Rightarrow> (ms, w)
      | Some b \<Rightarrow> let (_, b, w) = bridge_turn dcs b w in (ms\<lparr>ms_inbound_thread := Some b\<rparr>, w))"

definition session_arrive :: "subscribed \<Rightarrow> event_data \<Rightarrow> 'c module_state \<Rightarrow> 'c module_state" where
  "session_arrive k evt ms = ms\<lparr>ms_inbound_thread := map_option (arrive k evt) (ms_inbound_thread ms)\<rparr>"

definition install :: "'c module_state \<Rightarrow> ('c, 'ms) world \<Rightarrow> ('c, 'ms) world" where
  "install ms w = w\<lparr>w_module := (w_module w)\<lparr>mh_inner := Some ms\<rparr>\<rparr>"

text \<open>
  The end of a shutdown: the bridge has stopped, the consumer handles the client's last events.
\<close>

inductive sys_step ::
  "decoders \<Rightarrow> ('c, 'ms) system \<Rightarrow> ('c, 'ms) system \<Rightarrow> bool" for dcs :: decoders where
  Init: "sys_step dcs \<lparr>sy_world = w, sy_closing = None\<rparr>
      \<lparr>sy_world = snd (init_world env ie preset w), sy_closing = None\<rparr>"
| Serve: "sys_step dcs \<lparr>sy_world = w, sy_closing = None\<rparr>
      \<lparr>sy_world = snd (serve env req w), sy_closing = None\<rparr>"
| Answer: "sys_step dcs \<lparr>sy_world = w, sy_closing = None\<rparr>
      \<lparr>sy_world = snd (answer env q w), sy_closing = None\<rparr>"
| Shutdown_begins: "take_state (w_module w) = (Inr (Some ms), h) \<Longrightarrow>
    sys_step dcs \<lparr>sy_world = w, sy_closing = None\<rparr>
      \<lparr>sy_world = w\<lparr>w_module := h\<rparr>, sy_closing = Some ms\<rparr>"
| Shutdown_ends: "sys_step dcs \<lparr>sy_world = w, sy_closing = Some ms\<rparr>
      \<lparr>sy_world = shutdown env dcs [] rest ms w, sy_closing = None\<rparr>"
| Turn: "mh_inner (w_module w) = Some ms \<Longrightarrow> session_turn dcs ms w = (ms', w') \<Longrightarrow>
    sys_step dcs \<lparr>sy_world = w, sy_closing = cl\<rparr> \<lparr>sy_world = install ms' w', sy_closing = cl\<rparr>"
| Closing_turn: "session_turn dcs ms w = (ms', w') \<Longrightarrow>
    sys_step dcs \<lparr>sy_world = w, sy_closing = Some ms\<rparr> \<lparr>sy_world = w', sy_closing = Some ms'\<rparr>"
| Arrival: "mh_inner (w_module w) = Some ms \<Longrightarrow>
    sys_step dcs \<lparr>sy_world = w, sy_closing = cl\<rparr>
      \<lparr>sy_world = install (session_arrive k evt ms) w, sy_closing = cl\<rparr>"
| Closing_arrival: "sys_step dcs \<lparr>sy_world = w, sy_closing = Some ms\<rparr>
      \<lparr>sy_world = w, sy_closing = Some (session_arrive k evt ms)\<rparr>"
| Client_event: "mh_inner (w_module w) \<noteq> None \<or> cl \<noteq> None \<Longrightarrow>
    sys_step dcs \<lparr>sy_world = w, sy_closing = cl\<rparr> \<lparr>sy_world = handle_event env evt w, sy_closing = cl\<rparr>"
| Completion: "w_pending w = before @ call # after \<Longrightarrow>
    sys_step dcs \<lparr>sy_world = w, sy_closing = cl\<rparr>
      \<lparr>sy_world = complete env call res (w\<lparr>w_pending := before @ after\<rparr>), sy_closing = cl\<rparr>"

inductive_cases sys_stepE: "sys_step dcs s t"

definition sys_init :: "('c, 'ms) system \<Rightarrow> bool" where
  "sys_init s \<longleftrightarrow> s = \<lparr>sy_world = initial_world, sy_closing = None\<rparr>"

interpretation system: transition_system sys_init "sys_step dcs" for dcs :: decoders .

section \<open>The delivery state and the bridge\<close>

text \<open>Online only once started, started only while online or failed.\<close>

definition delivery_ok :: "delivery_state \<Rightarrow> bool" where
  "delivery_ok ds \<longleftrightarrow> (ds_state ds = Online \<longrightarrow> ds_started ds) \<and>
     (ds_started ds \<longrightarrow> ds_state ds = Online \<or> ds_state ds = Error)"

lemma fold_invariant: "P s \<Longrightarrow> (\<And>x s. P s \<Longrightarrow> P (f x s)) \<Longrightarrow> P (fold f xs s)"
  by (induction xs arbitrary: s) auto

lemma drain_invariant:
  "P s \<Longrightarrow> (\<And>x s. P s \<Longrightarrow> P (handle x s)) \<Longrightarrow> P (snd (drain handle sub s))"
  by (cases sub) (simp_all add: drain_eq fold_invariant [of P])

lemma forward_message_world:
  "w_display (snd (forward_message dcs evt b w)) = w_display w"
  "w_events (snd (forward_message dcs evt b w)) = w_events w"
  "w_module (snd (forward_message dcs evt b w)) = w_module w"
  by (simp_all add: forward_message_def Let_def split: option.split prod.split)

lemma foldl_hand_over:
  "foldl (\<lambda>w topic. hand_over (Subscribe topic) w) w topics =
     w\<lparr>w_pending := w_pending w @ map Subscribe topics\<rparr>"
  by (induction topics arbitrary: w) (simp_all add: hand_over_def)

text \<open>What a turn of the bridge keeps, if the handlers of its two drained subscriptions keep it.\<close>

lemma bridge_turn_invariant:
  assumes P: "P w" and log: "\<And>w l s. P w \<Longrightarrow> P (log_at l s w)"
    and pend: "\<And>w p. P w \<Longrightarrow> P (w\<lparr>w_pending := p\<rparr>)"
    and ns: "\<And>evt w. P w \<Longrightarrow> P (on_node_started dcs evt w)"
    and cs: "\<And>evt w. P w \<Longrightarrow> P (on_connection_state dcs evt w)"
  shows "P (snd (snd (bridge_turn dcs b w)))"
proof -
  have fwd: "P (snd (forward_message dcs evt b w))" if "P w" for evt b w
    using that by (simp add: forward_message_def Let_def log split: option.split prod.split)
  have subs: "P (snd (forward_subscriptions b w))" if "P w" for b w
    using that pend by (simp add: forward_subscriptions_def with_display_def foldl_hand_over)
  let ?b0 = "b\<lparr>b_messages := snd (try_recv (b_messages b))\<rparr>"
  define w1 where "w1 = (case fst (try_recv (b_messages b)) of
      Received_item evt \<Rightarrow> snd (forward_message dcs evt ?b0 w) | _ \<Rightarrow> w)"
  have w1: "P w1" using P fwd by (simp add: w1_def split: recv_outcome.split)
  have ns': "P (snd (drain (on_node_started dcs) sub w))" if "P w" for sub w
    using that ns by (rule drain_invariant)
  have cs': "P (snd (drain (on_connection_state dcs) sub w))" if "P w" for sub w
    using that cs by (rule drain_invariant)
  show ?thesis
    unfolding bridge_turn_def Let_def case_prod_unfold
    using P w1 by (cases "fst (try_recv (b_messages b))") (simp_all add: w1_def subs ns' cs')
qed

lemma persist_chat_delivery:
  "persist_chat env cid d = Inr d' \<Longrightarrow> d_delivery_state d' = d_delivery_state d"
  "persist_chat env cid d = Inr d' \<Longrightarrow> d_chat_db d' \<noteq> None"
  by (auto simp: persist_chat_def and_then_Inr_iff)

lemma chat_record_message_delivery [simp]:
  "d_delivery_state (snd (chat_record_message env msg changed d)) = d_delivery_state d"
  by (simp add: chat_record_message_def Let_def case_prod_unfold split: option.split)

section \<open>Sessions\<close>

text \<open>What the module handle shows of its session: whether it is there, and its duplicate filter.\<close>

definition module_shape :: "'c module_handle \<Rightarrow> bool \<times> seen_messages option option" where
  "module_shape h =
     (mh_poisoned h, map_option (\<lambda>ms. map_option b_seen (ms_inbound_thread ms)) (mh_inner h))"

definition chat_part :: "'ms display \<Rightarrow> app_state \<times> 'ms connection option \<times> str \<times> str" where
  "chat_part d = (d_state d, d_chat_db d, d_intrinsic_name d, d_address d)"

lemma shape_None: "module_shape h = module_shape h' \<Longrightarrow> (mh_inner h = None) = (mh_inner h' = None)"
  by (auto simp: module_shape_def)

lemma with_client_shape [simp]: "module_shape (w_module (snd (with_client f w))) = module_shape (w_module w)"
  by (simp add: with_client_def with_state_mut_def module_shape_def run_transport_def case_prod_unfold Let_def
      option.map_comp comp_def split: option.split)

lemma group_details_shape [simp]:
  "module_shape (w_module (snd (group_details env cid kind w))) = module_shape (w_module w)"
proof -
  obtain r w' where c: "with_client (ca_group_metadata (e_client env) cid) w = (r, w')" by fastforce
  then have "module_shape (w_module w') = module_shape (w_module w)"
    using with_client_shape [of "ca_group_metadata (e_client env) cid" w] by simp
  then show ?thesis by (simp add: group_details_def c split: sum.split prod.split)
qed

subsection \<open>The delivery side leaves the chats alone\<close>

definition chat_frame ::
  "app_state \<times> 'ms connection option \<times> str \<times> str \<Rightarrow> 'c module_handle \<Rightarrow> ('c, 'ms) world \<Rightarrow> bool" where
  "chat_frame cp h w \<longleftrightarrow> chat_part (w_display w) = cp \<and> w_module w = h"

lemma chat_frame_simps [simp]:
  "chat_frame cp h (log_at l s w) = chat_frame cp h w"
  "chat_frame cp h (hand_over c w) = chat_frame cp h w"
  "chat_frame cp h (emit e w) = chat_frame cp h w"
  "chat_frame cp h (w\<lparr>w_pending := p\<rparr>) = chat_frame cp h w"
  "chat_frame cp h (w\<lparr>w_own_node_preset := x\<rparr>) = chat_frame cp h w"
  "chat_frame cp h (update_delivery f w) = chat_frame cp h w"
  by (simp_all add: chat_frame_def chat_part_def update_delivery_def)

lemma chat_frame_set_delivery_state [simp]:
  "chat_frame cp h (set_delivery_state st detail w) = chat_frame cp h w"
  by (simp add: set_delivery_state_def Let_def)

lemma chat_frame_delivery [simp]:
  "chat_frame cp h (record_node_started success msg w) = chat_frame cp h w"
  "chat_frame cp h (handle_connection_state st w) = chat_frame cp h w"
  "chat_frame cp h (on_node_started dcs evt w) = chat_frame cp h w"
  "chat_frame cp h (on_connection_state dcs evt w) = chat_frame cp h w"
  "chat_frame cp h (start_node w) = chat_frame cp h w"
  "chat_frame cp h (snd (claim_delivery_retry w)) = chat_frame cp h w"
  by (simp_all add: record_node_started_def handle_connection_state_def on_node_started_def
      on_connection_state_def start_node_def claim_delivery_retry_def Let_def split: option.split prod.split)

lemma chat_frame_complete [simp]: "chat_frame cp h (complete env call res w) = chat_frame cp h w"
  by (cases call; cases "delivery_outcome (e_render env) res")
    (simp_all add: create_node_done_def join_existing_node_def get_node_info_done_def start_done_def
      send_done_def subscribe_done_def set_delivery_error_def Let_def)

lemma session_turn_frame:
  assumes "session_turn dcs ms w = (ms', w')"
  shows "chat_part (w_display w') = chat_part (w_display w)" "w_module w' = w_module w"
proof -
  have "chat_frame (chat_part (w_display w)) (w_module w) (snd (snd (bridge_turn dcs b w)))" for b
    by (rule bridge_turn_invariant) (simp_all, simp add: chat_frame_def)
  then have "chat_frame (chat_part (w_display w)) (w_module w) w'"
    using assms
    by (cases "ms_inbound_thread ms") (auto simp: session_turn_def case_prod_unfold Let_def chat_frame_def)
  then show "chat_part (w_display w') = chat_part (w_display w)" "w_module w' = w_module w"
    by (simp_all add: chat_frame_def)
qed

subsection \<open>The chat side keeps the session\<close>

definition db_kept :: "('c, 'ms) world \<Rightarrow> ('c, 'ms) world \<Rightarrow> bool" where
  "db_kept w w' \<longleftrightarrow> module_shape (w_module w') = module_shape (w_module w) \<and>
     (d_chat_db (w_display w) \<noteq> None \<longrightarrow> d_chat_db (w_display w') \<noteq> None)"

lemma chat_record_message_db [simp]:
  "(\<exists>db. d_chat_db (snd (chat_record_message env msg changed d)) = Some db) = (\<exists>db. d_chat_db d = Some db)"
  by (auto simp: chat_record_message_def Let_def case_prod_unfold split: option.split)

lemma db_kept_serve: "db_kept w (snd (serve env req w))"
proof (cases req)
  case (Send_message cid content)
  then show ?thesis
    by (simp add: send_message_def Let_def case_prod_unfold db_kept_def split: sum.split)
qed (auto simp: set_installation_name_def create_conversation_def create_group_conversation_def
    add_group_member_def set_conversation_nickname_def delete_conversation_def Let_def case_prod_unfold
    db_kept_def split: sum.split option.split dest!: persist_chat_delivery(2))

lemma db_kept_answer: "db_kept w (snd (answer env q w))"
  by (cases q) (simp_all add: list_group_members_def Let_def case_prod_unfold db_kept_def split: sum.split)

lemma db_kept_conversation_started: "db_kept w (record_conversation_started env cid kind w)"
proof -
  obtain name desc w' where g: "group_details env cid kind w = ((name, desc), w')"
    by (metis prod.collapse)
  then have "w_display w' = w_display w" "module_shape (w_module w') = module_shape (w_module w)"
    using group_details_frame(1) [of env cid kind w] group_details_shape [of env cid kind w] by simp_all
  then show ?thesis
    by (auto simp: record_conversation_started_def g Let_def db_kept_def split: option.split sum.split
        dest!: persist_chat_delivery(2))
qed

lemma db_kept_message_received: "db_kept w (record_message_received env cid content account inst w)"
  by (simp add: record_message_received_def Let_def case_prod_unfold db_kept_def split: sum.split)

lemma db_kept_handle_event: "db_kept w (handle_event env evt w)"
  by (cases evt) (simp_all add: db_kept_conversation_started db_kept_message_received
      record_members_changed_def db_kept_def [of w w] db_kept_def [of w "log_at _ _ _"] db_kept_def [of w "emit _ _"])

lemma run_events_shape: "module_shape (w_module (run_events env evts w)) = module_shape (w_module w)"
  by (induction evts arbitrary: w) (auto simp: db_kept_handle_event [unfolded db_kept_def])

text \<open>Before an init and after a shutdown the display shows nothing, and requests change nothing.\<close>

definition idle :: "'ms display \<Rightarrow> bool" where
  "idle d \<longleftrightarrow> chat_part d = chat_part default_display"

lemma idleD:
  "idle d \<Longrightarrow> d_state d = default_app_state \<and> d_chat_db d = None \<and> d_intrinsic_name d = [] \<and> d_address d = []"
  by (simp add: idle_def chat_part_def default_display_def)

lemma idle_serve:
  assumes "idle (w_display w)" and "mh_inner (w_module w) = None" and "\<not> mh_poisoned (w_module w)"
  shows "w_display (snd (serve env req w)) = w_display w" and "isl (fst (serve env req w))"
proof -
  from idleD [OF assms(1)] have "d_chat_db (w_display w) = None" "chats (w_display w) = []"
    by (auto simp: default_app_state_def)
  then show "w_display (snd (serve env req w)) = w_display w" "isl (fst (serve env req w))"
    by (cases req; simp add: set_installation_name_def create_conversation_def check_live_def
        create_group_conversation_def add_group_member_def send_message_def set_conversation_nickname_def
        delete_conversation_def with_display_def hm_contains_def flatten_def case_prod_unfold Let_def
        as_result_def with_client_not_init [OF assms(3,2)])+
qed

subsection \<open>The invariant of the sessions\<close>

definition seen_ok :: "seen_messages option option \<Rightarrow> bool" where
  "seen_ok x \<longleftrightarrow> (case x of Some (Some sm) \<Rightarrow> seen_inv sm | _ \<Rightarrow> True)"

abbreviation session_filter :: "'c module_state option \<Rightarrow> seen_messages option option" where
  "session_filter ms \<equiv> map_option (\<lambda>ms. map_option b_seen (ms_inbound_thread ms)) ms"

definition sessions_ok :: "('c, 'ms) system \<Rightarrow> bool" where
  "sessions_ok s \<longleftrightarrow> (let w = sy_world s; inner = mh_inner (w_module w); cl = sy_closing s in
     \<not> mh_poisoned (w_module w) \<and> (cl \<noteq> None \<longrightarrow> inner = None) \<and>
     (inner = None \<and> cl = None \<longrightarrow> idle (w_display w)) \<and>
     (inner \<noteq> None \<or> cl \<noteq> None \<longrightarrow> d_chat_db (w_display w) \<noteq> None) \<and>
     seen_ok (session_filter inner) \<and> seen_ok (session_filter cl))"

lemma bridge_turn_seen:
  assumes "seen_inv (b_seen b)"
  shows "seen_inv (b_seen (fst (snd (bridge_turn dcs b w))))"
proof -
  have fwd: "seen_inv (b_seen (fst (forward_message dcs evt b w)))" if "seen_inv (b_seen b)" for evt b
    using that seen_inv_first_sighting [of "b_seen b"]
    by (simp add: forward_message_def Let_def split: option.split prod.split) (metis snd_conv)
  have subs: "b_seen (fst (forward_subscriptions b w)) = b_seen b" for b and w :: "('a, 'b) world"
    by (simp add: forward_subscriptions_def)
  show ?thesis
    unfolding bridge_turn_def Let_def case_prod_unfold
    using assms by (cases "fst (try_recv (b_messages b))") (simp_all add: subs fwd)
qed

lemma session_turn_seen:
  "session_turn dcs ms w = (ms', w') \<Longrightarrow> seen_ok (session_filter (Some ms)) \<Longrightarrow>
     seen_ok (session_filter (Some ms'))"
  using bridge_turn_seen [of _ dcs w]
  by (cases "ms_inbound_thread ms") (auto simp: session_turn_def seen_ok_def case_prod_unfold Let_def)

lemma arrive_seen [simp]: "b_seen (arrive k evt b) = b_seen b"
  by (cases k) simp_all

lemma session_arrive_seen [simp]:
  "map_option b_seen (ms_inbound_thread (session_arrive k evt ms)) = map_option b_seen (ms_inbound_thread ms)"
  by (simp add: session_arrive_def option.map_comp comp_def)

lemma initialize_module:
  assumes "initialize env ie w = (r, w')"
  shows "w_module w' = w_module w"
    and "r = Inr ms \<Longrightarrow> d_chat_db (w_display w') \<noteq> None \<and> session_filter (Some ms) = Some (Some seen_default)"
  using assms unfolding initialize_def
  by (auto simp: Let_def spawn_bridge_def split: sum.splits prod.splits)

lemma init_world_fresh:
  assumes "mh_inner (w_module w) = None" and "\<not> mh_poisoned (w_module w)"
    and "w' = snd (init_world env ie preset w)"
  shows "\<not> mh_poisoned (w_module w') \<and> (case mh_inner (w_module w') of
      None \<Rightarrow> w_display w' = w_display w
    | Some ms \<Rightarrow> d_chat_db (w_display w') \<noteq> None \<and> session_filter (Some ms) = Some (Some seen_default))"
proof -
  obtain r w0 where i: "initialize env ie w = (r, w0)" by fastforce
  show ?thesis
  proof (cases r)
    case (Inl e)
    then show ?thesis
      using assms i initialize_module(1) [OF i] initialize_Inl_display [of env ie w e w0]
      by (simp add: init_world_def install_with_def)
  next
    case (Inr ms)
    then show ?thesis
      using assms i initialize_module(1) [OF i] initialize_module(2) [OF i, of ms]
      by (simp add: init_world_def install_with_def start_delivery_bootstrap_def)
  qed
qed

lemma init_world_again:
  assumes "mh_inner (w_module w) = Some ms" and "\<not> mh_poisoned (w_module w)"
  shows "chat_frame (chat_part (w_display w)) (w_module w) (snd (init_world env ie preset w))"
proof -
  obtain c w1 where c: "claim_delivery_retry w = (c, w1)" by fastforce
  have "chat_frame (chat_part (w_display w)) (w_module w) w1"
    using chat_frame_delivery(6) [of _ _ w] by (simp add: c) (simp add: chat_frame_def)
  with assms show ?thesis
    by (simp add: init_world_def install_with_def c start_delivery_bootstrap_def)
qed

lemma sessions_ok_same:
  assumes "sessions_ok s" and "sy_closing t = sy_closing s"
    and "chat_frame (chat_part (w_display (sy_world s))) (w_module (sy_world s)) (sy_world t)"
  shows "sessions_ok t"
  using assms by (auto simp: sessions_ok_def chat_frame_def chat_part_def idle_def Let_def)

lemma sessions_ok_kept:
  assumes "sessions_ok s" and "sy_closing t = sy_closing s" and "db_kept (sy_world s) (sy_world t)"
    and "mh_inner (w_module (sy_world s)) = None \<Longrightarrow> sy_closing s = None \<Longrightarrow>
           chat_part (w_display (sy_world t)) = chat_part (w_display (sy_world s))"
  shows "sessions_ok t"
  using assms by (auto simp: sessions_ok_def db_kept_def module_shape_def idle_def Let_def)

lemma sessions_ok_step: "sys_step dcs s t \<Longrightarrow> sessions_ok s \<Longrightarrow> sessions_ok t"
proof (induction rule: sys_step.induct)
  case (Init w env ie preset)
  show ?case
  proof (cases "mh_inner (w_module w)")
    case None
    with Init init_world_fresh [OF None _ refl, of env ie preset] show ?thesis
      by (auto simp: sessions_ok_def seen_ok_def Let_def split: option.splits)
  next
    case (Some ms)
    with Init init_world_again [OF Some, of env ie preset] show ?thesis
      by (intro sessions_ok_same [OF Init]) (simp_all add: sessions_ok_def)
  qed
next
  case (Serve w env req)
  then show ?case
    by (intro sessions_ok_kept [OF Serve]) (simp_all add: db_kept_serve sessions_ok_def idle_serve)
next
  case (Answer w env q)
  then show ?case
    by (intro sessions_ok_kept [OF Answer]) (simp_all add: db_kept_answer)
next
  case (Shutdown_begins w ms h)
  then show ?case by (auto simp: sessions_ok_def take_state_def seen_ok_def Let_def split: if_splits)
next
  case (Shutdown_ends w ms env rest)
  have "module_shape (w_module (shutdown env dcs [] rest ms w)) = module_shape (w_module w)"
    by (simp add: shutdown_def stop_bridge_def Let_def run_events_shape split: option.split)
  moreover have "w_display (shutdown env dcs [] rest ms w) = default_display"
    by (simp add: shutdown_def Let_def)
  ultimately show ?case
    using Shutdown_ends by (auto simp: sessions_ok_def module_shape_def idle_def seen_ok_def Let_def)
next
  case (Turn w ms ms' w' cl)
  then show ?case
    using session_turn_frame [OF Turn(2)] session_turn_seen [OF Turn(2)]
    by (auto simp: sessions_ok_def install_def Let_def chat_part_def)
next
  case (Closing_turn ms w ms' w')
  then show ?case
    using session_turn_frame [OF Closing_turn(1)] session_turn_seen [OF Closing_turn(1)]
    by (auto simp: sessions_ok_def Let_def chat_part_def)
next
  case (Arrival w ms k evt cl)
  then show ?case by (auto simp: sessions_ok_def install_def Let_def)
next
  case (Closing_arrival w ms k evt)
  then show ?case by (auto simp: sessions_ok_def Let_def)
next
  case (Client_event w cl env evt)
  then show ?case
    by (intro sessions_ok_kept [OF Client_event(2)]) (auto simp: db_kept_handle_event)
next
  case (Completion w before call after cl env res)
  then show ?case by (intro sessions_ok_same [OF Completion(2)]) (simp_all, simp add: chat_frame_def)
qed

lemma initial_sessions_ok: "sys_init s \<Longrightarrow> sessions_ok s"
  by (simp add: sys_init_def sessions_ok_def initial_world_def module_handle_new_def idle_def seen_ok_def Let_def)

lemma reachable_sessions_ok: "system.reachable dcs s \<Longrightarrow> sessions_ok s"
  by (induction rule: system.reachable_invariant) (auto dest: initial_sessions_ok intro: sessions_ok_step)

end
