(* ===== verification/Delivery_Watch.thy ===== *)
theory Delivery_Watch
  imports System
begin

text \<open>
  Conditions on the delivery state and the events emitted so far, kept by every thread.  The locale
  \<open>delivery_watch\<close> names the ways the code changes them: a flag is set, an event of another kind is
  emitted, the state moves and the move is announced.  What these keep, every operation, callback and
  turn of the bridge keeps; \<open>delivery_life\<close> adds that init seeds the state and shutdown resets it.
  Two conditions are shown this way: online means started, and the state is what the events tell.
\<close>

fun delivery_event :: "event \<Rightarrow> bool" where
  "delivery_event (Delivery_state_changed st detail adopted) \<longleftrightarrow> True"
| "delivery_event _ \<longleftrightarrow> False"

lemma kept_None: "db_kept w w' \<Longrightarrow> (mh_inner (w_module w') = None) = (mh_inner (w_module w) = None)"
  by (auto simp: db_kept_def dest: shape_None)

section \<open>The interface\<close>

locale delivery_watch =
  fixes P :: "delivery_state \<Rightarrow> event list \<Rightarrow> bool"
  assumes other: "P ds es \<Longrightarrow> \<not> delivery_event e \<Longrightarrow> P ds (es @ [e])"
    and starting: "P ds es \<Longrightarrow> P (ds\<lparr>ds_starting := b\<rparr>) es"
    and adopted: "P ds es \<Longrightarrow> P (ds\<lparr>ds_adopted := b\<rparr>) es"
    and online_again: "P ds es \<Longrightarrow> ds_state ds = Online \<Longrightarrow> P (ds\<lparr>ds_started := True\<rparr>) es"
    and online: "P ds es \<Longrightarrow> P (ds\<lparr>ds_started := True, ds_state := Online, ds_detail := t\<rparr>)
          (es @ [Delivery_state_changed ''online'' t (ds_adopted ds)])"
    and failed: "P ds es \<Longrightarrow> P (ds\<lparr>ds_state := Error, ds_detail := t\<rparr>)
          (es @ [Delivery_state_changed ''error'' t (ds_adopted ds)])"
    and retried: "P ds es \<Longrightarrow> ds_state ds = Error \<Longrightarrow> \<not> ds_started ds \<Longrightarrow>
          P (ds\<lparr>ds_state := Initialising, ds_detail := []\<rparr>)
            (es @ [Delivery_state_changed ''initialising'' [] (ds_adopted ds)])"
begin

definition watched :: "('c, 'ms) world \<Rightarrow> bool" where
  "watched w \<longleftrightarrow> P (delivery_of w) (w_events w)"

lemma watched_frame [simp]:
  "watched (log_at l s w) = watched w" "watched (hand_over c w) = watched w"
  "watched (w\<lparr>w_pending := p\<rparr>) = watched w" "watched (w\<lparr>w_module := m\<rparr>) = watched w"
  "watched (w\<lparr>w_own_node_preset := x\<rparr>) = watched w"
  "watched (with_display_mut (update_chats f) w) = watched w"
  "watched (snd (with_client g w)) = watched w"
  by (simp_all add: watched_def)

lemma watched_emit [simp]: "watched w \<Longrightarrow> \<not> delivery_event e \<Longrightarrow> watched (emit e w)"
  by (simp add: watched_def other)

lemma watched_display:
  "watched w \<Longrightarrow> d_delivery_state (f (w_display w)) = delivery_of w \<Longrightarrow> watched (with_display_mut f w)"
  by (simp add: watched_def)

subsection \<open>Moves of the delivery state\<close>

lemma watched_flags [simp]:
  "watched w \<Longrightarrow> watched (update_delivery (\<lambda>ds. ds\<lparr>ds_starting := b\<rparr>) w)"
  "watched w \<Longrightarrow> watched (update_delivery (\<lambda>ds. ds\<lparr>ds_adopted := b\<rparr>) w)"
  by (simp_all add: watched_def update_delivery_def starting adopted)

lemma watched_error [simp]: "watched w \<Longrightarrow> watched (set_delivery_state Error detail w)"
  using failed [of "delivery_of w" "w_events w" detail]
  by (simp add: watched_def set_delivery_state_def update_delivery_def Let_def)

lemma watched_online:
  "watched w \<Longrightarrow> watched (set_delivery_state Online detail (update_delivery (\<lambda>ds. ds\<lparr>ds_started := True\<rparr>) w))"
  using online [of "delivery_of w" "w_events w" detail] online_again [of "delivery_of w" "w_events w"]
  by (auto simp: watched_def set_delivery_state_def update_delivery_def Let_def)

lemma watched_still_online: "watched w \<Longrightarrow> ds_started (delivery_of w) \<Longrightarrow> watched (set_delivery_state Online detail w)"
proof -
  assume w: "watched w" "ds_started (delivery_of w)"
  then have "update_delivery (\<lambda>ds. ds\<lparr>ds_started := True\<rparr>) w = w"
    by (simp add: update_delivery_def with_display_mut_def)
  then show ?thesis using watched_online [OF w(1), of detail] by simp
qed

lemma watched_record_node_started: "watched w \<Longrightarrow> watched (record_node_started success msg w)"
  by (simp add: record_node_started_def Let_def watched_online)

lemma watched_connection: "watched w \<Longrightarrow> watched (handle_connection_state st w)"
  by (auto simp: handle_connection_state_def connection_transition_def map_connection_status_def
      watched_still_online)

lemma watched_claim: "watched w \<Longrightarrow> watched (snd (claim_delivery_retry w))"
  using retried [of "delivery_of w" "w_events w"]
  by (simp add: claim_delivery_retry_def watched_def set_delivery_state_def update_delivery_def Let_def)

subsection \<open>Callbacks and the bridge\<close>

lemma watched_complete: "watched w \<Longrightarrow> watched (complete env call res w)"
  by (cases call; cases "delivery_outcome (e_render env) res";
      simp add: create_node_done_def start_node_def join_existing_node_def get_node_info_done_def
        start_done_def send_done_def subscribe_done_def set_delivery_error_def Let_def)

lemma watched_session_turn: "watched w \<Longrightarrow> watched (snd (session_turn dcs ms w))"
proof -
  assume w: "watched w"
  have "watched (snd (snd (bridge_turn dcs b w)))" for b
    by (rule bridge_turn_invariant [where P = watched, OF w])
      (simp_all add: on_node_started_def on_connection_state_def watched_record_node_started
        watched_connection split: option.split prod.split)
  then show ?thesis using w by (simp add: session_turn_def case_prod_unfold Let_def split: option.split)
qed

subsection \<open>Requests and client events\<close>

lemma watched_persisted:
  "watched w \<Longrightarrow> persist_chat env cid (w_display w) = Inr d \<Longrightarrow> watched (with_display_mut (\<lambda>_. d) w)"
  by (rule watched_display) (simp_all add: persist_chat_delivery)

lemma watched_serve: "watched w \<Longrightarrow> watched (snd (serve env req w))"
  by (cases req)
    (auto simp: set_installation_name_def create_conversation_def create_group_conversation_def
      add_group_member_def send_message_def set_conversation_nickname_def delete_conversation_def
      Let_def case_prod_unfold watched_def other split: sum.split option.split
      dest!: persist_chat_delivery(1))

lemma watched_answer: "watched w \<Longrightarrow> watched (snd (answer env q w))"
  by (cases q) (simp_all add: list_group_members_def Let_def case_prod_unfold split: sum.split)

lemma watched_conversation_started:
  assumes "watched w"
  shows "watched (record_conversation_started env cid kind w)"
proof -
  obtain name desc w' where g: "group_details env cid kind w = ((name, desc), w')"
    by (metis prod.collapse)
  then have "watched w'"
    using assms group_details_frame [of env cid kind w] by (simp add: watched_def)
  then show ?thesis
    by (auto simp: record_conversation_started_def g Let_def watched_persisted split: option.split sum.split)
qed

lemma watched_handle_event: "watched w \<Longrightarrow> watched (handle_event env evt w)"
proof (cases evt)
  case (MessageReceived cid content account inst)
  moreover assume "watched w"
  ultimately show ?thesis
    by (simp add: record_message_received_def Let_def case_prod_unfold watched_def other split: sum.split)
qed (simp_all add: watched_conversation_started record_members_changed_def)

lemma watched_run_events: "watched w \<Longrightarrow> watched (run_events env evts w)"
  by (induction evts arbitrary: w) (auto simp: watched_handle_event)

subsection \<open>Steps\<close>

text \<open>An init that finds no session seeds the state when it installs one.\<close>

lemma watched_init_world:
  assumes "watched w" and "w' = snd (init_world env ie preset w)"
  shows "if mh_inner (w_module w) = None \<and> mh_inner (w_module w') \<noteq> None
    then delivery_of w' = ds_initialising \<and> w_events w' = w_events w else watched w'"
proof -
  obtain r w0 where i: "initialize env ie w = (r, w0)" by fastforce
  obtain c w1 where c: "claim_delivery_retry w = (c, w1)" by fastforce
  have w1: "watched w1" using watched_claim [OF assms(1)] by (simp add: c)
  have m: "w_module w0 = w_module w" by (rule initialize_module(1) [OF i])
  show ?thesis
  proof (cases r)
    case (Inl e)
    then have "watched w0" using initialize_Inl_display [of env ie w e w0] i assms(1) by (simp add: watched_def)
    then show ?thesis
      using assms w1 Inl m by (auto simp: init_world_def install_with_def start_delivery_bootstrap_def i c)
  next
    case (Inr ms)
    have "w_events w0 = w_events w \<and> delivery_of w0 = ds_initialising"
      by (rule initialize_Inr [OF i [unfolded Inr]]) simp
    then show ?thesis
      using assms w1 Inr m by (auto simp: init_world_def install_with_def start_delivery_bootstrap_def i c)
  qed
qed

lemma watched_shutdown:
  "watched w \<Longrightarrow> delivery_of (shutdown env dcs [] rest ms w) = ds_stopped \<and>
     (\<exists>ds. P ds (w_events (shutdown env dcs [] rest ms w)))"
  using watched_run_events [of w env rest]
  by (auto simp: shutdown_def stop_bridge_def Let_def default_display_def watched_def split: option.split)

text \<open>A session begins when an init installs it, and ends when a shutdown gets to its end.\<close>

lemma watched_step:
  assumes "sys_step dcs s t" and "watched (sy_world s)"
  shows "if sy_closing s \<noteq> None \<and> sy_closing t = None
      then delivery_of (sy_world t) = ds_stopped \<and> (\<exists>ds. P ds (w_events (sy_world t)))
    else if mh_inner (w_module (sy_world s)) = None \<and> mh_inner (w_module (sy_world t)) \<noteq> None
      then delivery_of (sy_world t) = ds_initialising \<and> w_events (sy_world t) = w_events (sy_world s)
    else watched (sy_world t)"
  using assms
proof (induction rule: sys_step.induct)
  case (Init w env ie preset)
  then show ?case using watched_init_world [OF _ refl, of w env ie preset] by simp
next
  case (Serve w env req)
  then show ?case
    using watched_serve kept_None [OF db_kept_serve [of w env req]] by auto
next
  case (Answer w env q)
  then show ?case
    using watched_answer kept_None [OF db_kept_answer [of w env q]] by auto
next
  case (Shutdown_ends w ms env rest)
  then show ?case using watched_shutdown by simp
next
  case (Turn w ms ms' w' cl)
  then show ?case using watched_session_turn [of w dcs ms] by (auto simp: install_def)
next
  case (Closing_turn ms w ms' w')
  then show ?case
    using watched_session_turn [of w dcs ms] session_turn_frame(2) [OF Closing_turn(1)] by auto
next
  case (Client_event w cl env evt)
  then show ?case
    using watched_handle_event kept_None [OF db_kept_handle_event [of w env evt]] by auto
next
  case (Completion w before call after cl env res)
  have "w_module (complete env call res (w\<lparr>w_pending := before @ after\<rparr>)) = w_module w"
    using chat_frame_complete [of "chat_part (w_display w)" "w_module w" env call res "w\<lparr>w_pending := before @ after\<rparr>"]
    by (simp add: chat_frame_def)
  with Completion show ?case
    using watched_complete [of "w\<lparr>w_pending := before @ after\<rparr>" env call res] by auto
qed (auto simp: install_def take_state_def split: if_splits)

end

text \<open>A condition that may also begin and end with a session holds in every reachable state.\<close>

locale delivery_life = delivery_watch +
  assumes seeded: "P ds es \<Longrightarrow> P ds_initialising es"
    and reset: "P ds es \<Longrightarrow> P ds_stopped es"
    and initially: "P ds_stopped []"
begin

lemma watched_reachable: "system.reachable dcs s \<Longrightarrow> watched (sy_world s)"
proof (induction rule: system.reachable_invariant)
  case (init s)
  then show ?case by (simp add: sys_init_def initial_world_def default_display_def watched_def initially)
next
  case (step s t)
  from watched_step [OF step(2,1)] step(1) show ?case
    by (auto simp: watched_def seeded reset split: if_splits)
qed

end

section \<open>Online means started, and stopped is not announced\<close>

fun stopped_event :: "event \<Rightarrow> bool" where
  "stopped_event (Delivery_state_changed st _ _) \<longleftrightarrow> st = ''stopped''"
| "stopped_event _ \<longleftrightarrow> False"

lemma not_delivery_not_stopped: "\<not> delivery_event e \<Longrightarrow> \<not> stopped_event e"
  by (cases e) simp_all

interpretation sound: delivery_life "\<lambda>ds es. delivery_ok ds \<and> list_all (\<lambda>e. \<not> stopped_event e) es"
  by unfold_locales
    (auto simp: delivery_ok_def ds_initialising_def ds_stopped_def not_delivery_not_stopped)

lemma reachable_ok:
  "system.reachable dcs s \<Longrightarrow> delivery_ok (delivery_of (sy_world s)) \<and>
     list_all (\<lambda>e. \<not> stopped_event e) (w_events (sy_world s)) \<and> sessions_ok s"
  using sound.watched_reachable reachable_sessions_ok unfolding sound.watched_def by blast

section \<open>The state the events tell\<close>

text \<open>What \<open>status\<close> says of delivery, and what a consumer takes from an event.\<close>

definition status_text :: "('c, 'ms) world \<Rightarrow> str \<times> str" where
  "status_text w = (st_delivery_state (status w), st_detail (status w))"

fun tell :: "event \<Rightarrow> str \<times> str \<Rightarrow> str \<times> str" where
  "tell (Delivery_state_changed st detail adopted) s = (st, detail)"
| "tell _ s = s"

lemma tell_other: "\<not> delivery_event e \<Longrightarrow> tell e s = s"
  by (cases e) simp_all

interpretation told: delivery_watch
    "\<lambda>ds es. \<exists>evts. es = before @ evts \<and> (state_as_str (ds_state ds), ds_detail ds) = fold tell evts s"
  for before and s
proof (unfold_locales, goal_cases)
  case (1 ds es e)
  then obtain evts where "es = before @ evts" "(state_as_str (ds_state ds), ds_detail ds) = fold tell evts s" by blast
  with 1 show ?case by (intro exI [of _ "evts @ [e]"]) (simp add: tell_other)
next
  case (5 ds es t)
  then obtain evts where "es = before @ evts" by blast
  then show ?case by (intro exI [of _ "evts @ [Delivery_state_changed ''online'' t (ds_adopted ds)]"]) simp
next
  case (6 ds es t)
  then obtain evts where "es = before @ evts" by blast
  then show ?case by (intro exI [of _ "evts @ [Delivery_state_changed ''error'' t (ds_adopted ds)]"]) simp
next
  case (7 ds es)
  then obtain evts where "es = before @ evts" by blast
  then show ?case by (intro exI [of _ "evts @ [Delivery_state_changed ''initialising'' [] (ds_adopted ds)]"]) simp
qed auto

text \<open>C11: Whatever the threads do, a consumer of the events knows what \<open>status\<close> says of delivery: the
  state and its reason are those of the last \<open>delivery_state_changed\<close>, or what they were before, at every
  step but two that no event tells of, the init that installs a session, which shows initialising, and
  the end of a shutdown, which shows stopped.\<close>

theorem delivery_events_tell_the_status:
  assumes "sys_step dcs s t"
  shows "\<exists>evts. w_events (sy_world t) = w_events (sy_world s) @ evts \<and>
    status_text (sy_world t) =
     (if sy_closing s \<noteq> None \<and> sy_closing t = None then (''stopped'', [])
      else if mh_inner (w_module (sy_world s)) = None \<and> mh_inner (w_module (sy_world t)) \<noteq> None
        then (''initialising'', [])
      else fold tell evts (status_text (sy_world s)))"
proof -
  let ?E = "w_events (sy_world s)" and ?S = "status_text (sy_world s)"
  have st: "status_text w = (state_as_str (ds_state (delivery_of w)), ds_detail (delivery_of w))" for w :: "('a, 'b) world"
    by (simp add: status_text_def status_def with_display_def)
  have "told.watched ?E ?S (sy_world s)"
    unfolding told.watched_def by (intro exI [of _ "[]"]) (simp add: st)
  from told.watched_step [OF assms this] show ?thesis
    unfolding told.watched_def
    by (auto simp: st ds_stopped_def ds_initialising_def split: if_splits)
qed

lemma delivery_events_tell_the_status_witness:
  "let w = demo_world\<lparr>w_pending := []\<rparr>;
       w' = complete demo_env (Get_node_info ''Version'' ''logos.test'' ''refused'') (Inl ''gone'') w
   in \<exists>evts. w_events w' = w_events w @ evts \<and> status_text w' = fold tell evts (status_text w)"
proof -
  let ?call = "Get_node_info ''Version'' ''logos.test'' ''refused''" and ?w = "demo_world\<lparr>w_pending := []\<rparr>"
  let ?w' = "complete demo_env ?call (Inl ''gone'') ?w"
  have "sys_step demo_decoders \<lparr>sy_world = demo_world\<lparr>w_pending := [?call]\<rparr>, sy_closing = None\<rparr>
      \<lparr>sy_world = ?w', sy_closing = None\<rparr>"
    using sys_step.Completion [of "demo_world\<lparr>w_pending := [?call]\<rparr>" "[]" ?call "[]" demo_decoders None demo_env
        "Inl ''gone''"] by simp
  from delivery_events_tell_the_status [OF this] show ?thesis
    by (simp add: status_text_def status_def with_display_def demo_world_def demo_module_def)
qed

end
