(* ===== verification/System_Properties.thy ===== *)
theory System_Properties
  imports Delivery_Watch
begin

text \<open>
  What holds in every state the interleaved threads reach, and how the delivery bootstrap moves
  through its states: readiness, retries, adoption, and what an init and a shutdown leave.
\<close>

section \<open>Facts shared by the properties\<close>

lemma set_delivery_state_delivery:
  "ds_state (delivery_of (set_delivery_state st detail w)) = st"
  "ds_detail (delivery_of (set_delivery_state st detail w)) = detail"
  "ds_starting (delivery_of (set_delivery_state st detail w)) = ds_starting (delivery_of w)"
  "ds_started (delivery_of (set_delivery_state st detail w)) = ds_started (delivery_of w)"
  "ds_adopted (delivery_of (set_delivery_state st detail w)) = ds_adopted (delivery_of w)"
  by (simp_all add: set_delivery_state_def update_delivery_def Let_def)

lemma set_delivery_state_events:
  "w_events (set_delivery_state st detail w) = w_events w @
     (if ds_state (delivery_of w) = st \<and> ds_detail (delivery_of w) = detail then []
      else [Delivery_state_changed (state_as_str st) detail (ds_adopted (delivery_of w))])"
  by (simp add: set_delivery_state_def update_delivery_def Let_def)

lemma update_delivery_simps [simp]:
  "delivery_of (update_delivery f w) = f (delivery_of w)" "w_events (update_delivery f w) = w_events w"
  "w_pending (update_delivery f w) = w_pending w"
  "w_own_node_preset (update_delivery f w) = w_own_node_preset w"
  by (simp_all add: update_delivery_def)

lemma start_node_simps [simp]:
  "delivery_of (start_node w) = (delivery_of w)\<lparr>ds_starting := True\<rparr>"
  "w_events (start_node w) = w_events w" "w_pending (start_node w) = w_pending w @ [Start]"
  "w_own_node_preset (start_node w) = w_own_node_preset w"
  by (simp_all add: start_node_def)

lemma node_started_success:
  assumes "ds_starting (delivery_of w)" and "dc_node_started dcs evt = Some (True, msg)"
    and "ds_state (delivery_of w) \<noteq> Online"
  shows "delivery_of (on_node_started dcs evt w) = (delivery_of w)\<lparr>ds_state := Online, ds_detail := [],
      ds_starting := False, ds_started := True\<rparr>"
    and "w_events (on_node_started dcs evt w) = w_events w @
      [Delivery_state_changed ''online'' [] (ds_adopted (delivery_of w))]"
  using assms
  by (simp_all add: on_node_started_def record_node_started_def Let_def set_delivery_state_events
      delivery_state.equality set_delivery_state_delivery)

section \<open>Reachable states\<close>

text \<open>A run to use as an example: init, the node created, its start reported, the bridge's turn.\<close>

lemma demo_reachable: "system.reachable dcs \<lparr>sy_world = demo_world, sy_closing = None\<rparr>"
proof -
  have "sys_step dcs \<lparr>sy_world = initial_world, sy_closing = None\<rparr> \<lparr>sy_world = demo_world, sy_closing = None\<rparr>"
    using sys_step.Init [of dcs initial_world demo_env "demo_ie empty_db" "''logos.test''"]
    by (simp add: demo_init)
  moreover have "system.reachable dcs \<lparr>sy_world = initial_world, sy_closing = None\<rparr>"
    by (rule system.start) (simp add: sys_init_def)
  ultimately show ?thesis by (rule system.next_state [rotated])
qed

lemma demo_online:
  "\<exists>s :: (nat, message list) system. system.reachable demo_decoders s \<and>
     ds_state (delivery_of (sy_world s)) = Online"
proof -
  define w1 where "w1 = create_node_done demo_env ''logos.test'' (Inr (envelope True JNull JNull))
    (demo_world\<lparr>w_pending := []\<rparr>)"
  define ms where "ms = session_arrive On_node_started node_started_event (the (mh_inner demo_module))"
  let ?w2 = "install ms w1"
  obtain ms' w3 where turn: "session_turn demo_decoders ms ?w2 = (ms', w3)" by fastforce
  have "system.reachable demo_decoders \<lparr>sy_world = w1, sy_closing = None\<rparr>"
    using system.next_state [OF demo_reachable sys_step.Completion [of demo_world "[]"
          "Create_node (config_json ''logos.test'') ''logos.test''" "[]" demo_decoders None demo_env
          "Inr (envelope True JNull JNull)"]]
    by (simp add: w1_def demo_world_def)
  moreover have m: "mh_inner (w_module w1) = mh_inner demo_module"
    by (simp add: w1_def create_node_done_def start_node_def update_delivery_def demo_world_def)
  ultimately have "system.reachable demo_decoders \<lparr>sy_world = ?w2, sy_closing = None\<rparr>"
    using sys_step.Arrival [of w1 "the (mh_inner demo_module)" demo_decoders None On_node_started
        node_started_event] m
    by (auto simp: ms_def demo_module_def intro: system.next_state)
  then have "system.reachable demo_decoders \<lparr>sy_world = install ms' w3, sy_closing = None\<rparr>"
    using sys_step.Turn [OF _ turn] by (auto simp: install_def intro: system.next_state)
  moreover have "ds_state (delivery_of (snd (session_turn demo_decoders ms ?w2))) = Online"
    by (simp add: session_turn_def ms_def session_arrive_def demo_module_def demo_bridge_def
        spawn_bridge_def idle_subscription_def bridge_turn_def try_recv_def drain_eq w1_def
        create_node_done_def demo_world_def ds_initialising_def on_node_started_def demo_decoders_def
        node_started_event_def record_node_started_def forward_subscriptions_def Let_def
        case_prod_unfold with_display_def install_def foldl_hand_over set_delivery_state_delivery)
  ultimately show ?thesis using turn by (intro exI conjI) (assumption, simp add: install_def)
qed





text \<open>An installed session has its database open and a sound duplicate filter, no shutdown
  is under way beside it, and no lock is ever poisoned.\<close>

theorem installed_session_is_backed:
  assumes "system.reachable dcs s" and "mh_inner (w_module (sy_world s)) = Some ms"
  shows "d_chat_db (w_display (sy_world s)) \<noteq> None \<and> sy_closing s = None \<and>
    \<not> mh_poisoned (w_module (sy_world s)) \<and>
    (case ms_inbound_thread ms of None \<Rightarrow> True | Some b \<Rightarrow> seen_inv (b_seen b))"
  using reachable_ok [OF assms(1)] assms(2)
  by (auto simp: sessions_ok_def seen_ok_def Let_def split: option.splits)

lemma installed_session_is_backed_witness:
  "d_chat_db (w_display demo_world) \<noteq> None \<and> \<not> mh_poisoned (w_module demo_world)"
  using installed_session_is_backed [OF demo_reachable]
  by (auto simp: demo_world_def demo_module_def)

text \<open>No \<open>delivery_state_changed\<close> event ever carries \<open>stopped\<close>: a shutdown resets the state
  without announcing it.\<close>

theorem stopped_is_never_announced:
  assumes "system.reachable dcs s"
  shows "Delivery_state_changed ''stopped'' detail adopted \<notin> set (w_events (sy_world s))"
  using reachable_ok [OF assms] by (auto simp: list_all_iff)

lemma stopped_is_never_announced_witness:
  "Delivery_state_changed ''stopped'' [] False \<notin> set (w_events demo_world)"
  using stopped_is_never_announced [OF demo_reachable, of "[]" False] by simp


section \<open>The bootstrap\<close>

text \<open>Setting the delivery state announces exactly the changes of state or detail, with the
  adoption flag, and touches no other flag.\<close>

theorem delivery_changes_are_announced:
  "w_events (set_delivery_state st detail w) = w_events w @
     (if (ds_state (delivery_of w), ds_detail (delivery_of w)) = (st, detail) then []
      else [Delivery_state_changed (state_as_str st) detail (ds_adopted (delivery_of w))]) \<and>
   delivery_of (set_delivery_state st detail w) = (delivery_of w)\<lparr>ds_state := st, ds_detail := detail\<rparr>"
  by (auto simp: set_delivery_state_events set_delivery_state_def update_delivery_def Let_def)

text \<open>C29: A node this init created comes online when delivery reports its start: the preset is
  remembered, \<open>start\<close> is dispatched once, and online is announced with the node not adopted.\<close>

theorem own_node_comes_online:
  assumes "delivery_of w = ds_initialising" and "delivery_outcome (e_render env) res = Inr v"
    and "dc_node_started dcs evt = Some (True, msg)" and "w1 = create_node_done env preset res w"
  shows "w_own_node_preset w1 = Some preset \<and> w_pending w1 = w_pending w @ [Start] \<and> w_events w1 = w_events w \<and>
    delivery_of (on_node_started dcs evt w1) = ds_initialising\<lparr>ds_state := Online, ds_started := True\<rparr> \<and>
    w_events (on_node_started dcs evt w1) = w_events w @ [Delivery_state_changed ''online'' [] False]"
proof -
  have w1: "w1 = start_node (w\<lparr>w_own_node_preset := Some preset\<rparr>)"
    using assms(2,4) by (simp add: create_node_done_def)
  then show ?thesis
    using node_started_success [OF _ assms(3), of w1] assms(1) by (simp add: ds_initialising_def)
qed

lemma own_node_comes_online_witness:
  "delivery_of (on_node_started demo_decoders node_started_event
     (create_node_done demo_env ''logos.test'' (Inr (envelope True JNull JNull)) demo_world)) =
   ds_initialising\<lparr>ds_state := Online, ds_started := True\<rparr>"
  using own_node_comes_online [of demo_world demo_env "Inr (envelope True JNull JNull)" JNull
      demo_decoders node_started_event "''done''" _ "''logos.test''", OF _ _ _ refl]
  by (simp add: demo_world_def demo_decoders_def node_started_event_def)

text \<open>C30: When createNode is refused but a node exists, that node is started and joined; it is
  reported as adopted exactly when this process did not create it with this preset.\<close>

theorem existing_node_is_joined:
  assumes "delivery_of w = ds_initialising" and "delivery_outcome (e_render env) res = Inl reason"
    and "delivery_outcome (e_render env) info = Inr v" and "dc_node_started dcs evt = Some (True, msg)"
    and "w1 = create_node_done env preset res w" and "w2 = get_node_info_done env preset reason info w1"
  shows "w_pending w1 = w_pending w @ [Get_node_info ''Version'' preset reason] \<and>
    w_pending w2 = w_pending w1 @ [Start] \<and> w_own_node_preset w2 = w_own_node_preset w \<and>
    w_events (on_node_started dcs evt w2) = w_events w @
      [Delivery_state_changed ''online'' [] (w_own_node_preset w \<noteq> Some preset)] \<and>
    st_delivery_adopted (status (on_node_started dcs evt w2)) = (w_own_node_preset w \<noteq> Some preset)"
proof -
  have w1: "w1 = join_existing_node preset reason w" using assms(2,5) by (simp add: create_node_done_def)
  have w2: "w2 = start_node (update_delivery (\<lambda>ds. ds\<lparr>ds_adopted := w_own_node_preset w \<noteq> Some preset\<rparr>)
      (if w_own_node_preset w \<noteq> Some preset then log_at WARN
         (''delivery_module already has a node this module did not create with preset ''
          @ preset @ ''; joining it with the settings it was created with'') w1 else w1))"
    using assms(3,6) by (simp add: get_node_info_done_def w1 join_existing_node_def)
  have f: "w_pending w2 = w_pending w1 @ [Start]" "w_own_node_preset w2 = w_own_node_preset w"
    "w_events w2 = w_events w" "delivery_of w2 = (delivery_of w)\<lparr>ds_adopted := w_own_node_preset w \<noteq> Some preset,
      ds_starting := True\<rparr>"
    unfolding w2 by (simp_all add: w1 join_existing_node_def)
  with assms(1) node_started_success [OF _ assms(4), of w2] show ?thesis
    by (simp add: status_def with_display_def ds_initialising_def) (simp add: w1 join_existing_node_def)
qed

lemma existing_node_is_joined_witness:
  "st_delivery_adopted (status (on_node_started demo_decoders node_started_event
     (get_node_info_done demo_env ''logos.test'' ''exists'' (Inr (envelope True JNull JNull))
       (create_node_done demo_env ''logos.test'' (Inl ''exists'') demo_world))))"
  using existing_node_is_joined [of demo_world demo_env "Inl ''exists''" "''exists''"
      "Inr (envelope True JNull JNull)" JNull demo_decoders node_started_event "''done''" _ "''logos.test''",
      OF _ _ _ _ refl refl]
  by (simp add: demo_world_def demo_decoders_def node_started_event_def)

text \<open>The adoption flag of a failed bootstrap survives a retry whose createNode succeeds: the
  module's own node is then announced as adopted.\<close>

theorem retry_keeps_adopted_flag:
  assumes "ds_adopted (delivery_of w)" and "ds_state (delivery_of w) = Error" and "\<not> ds_started (delivery_of w)"
    and "delivery_outcome (e_render env) res = Inr v" and "dc_node_started dcs evt = Some (True, msg)"
    and "w1 = create_node_done env preset res (snd (claim_delivery_retry w))"
  shows "fst (claim_delivery_retry w) \<and> w_own_node_preset w1 = Some preset \<and>
    st_delivery_adopted (status (on_node_started dcs evt w1)) \<and>
    last (w_events (on_node_started dcs evt w1)) = Delivery_state_changed ''online'' [] True"
proof -
  let ?w0 = "set_delivery_state Initialising [] w"
  have w1: "w1 = start_node (?w0\<lparr>w_own_node_preset := Some preset\<rparr>)"
    using assms(2-4,6) by (simp add: claim_delivery_retry_def create_node_done_def)
  have "ds_starting (delivery_of w1)" "ds_state (delivery_of w1) = Initialising" "ds_adopted (delivery_of w1)"
    using assms(1) by (simp_all add: w1 set_delivery_state_delivery)
  with node_started_success [OF _ assms(5), of w1] assms(2,3) show ?thesis
    by (simp add: w1 claim_delivery_retry_def status_def with_display_def)
qed

definition failed_adopted_world :: "(nat, message list) world" where
  "failed_adopted_world = update_delivery (\<lambda>ds. ds\<lparr>ds_state := Error, ds_adopted := True\<rparr>) demo_world"

lemma retry_keeps_adopted_flag_witness:
  "st_delivery_adopted (status (on_node_started demo_decoders node_started_event
     (create_node_done demo_env ''logos.test'' (Inr (envelope True JNull JNull))
       (snd (claim_delivery_retry failed_adopted_world)))))"
  using retry_keeps_adopted_flag [of failed_adopted_world demo_env "Inr (envelope True JNull JNull)" JNull
      demo_decoders node_started_event "''done''" _ "''logos.test''", OF _ _ _ _ _ refl]
  by (simp add: failed_adopted_world_def demo_world_def ds_initialising_def demo_decoders_def
      node_started_event_def)

text \<open>Delivery's start reports count once per dispatched start: a report this init does not wait
  for, and every further one, changes nothing.\<close>

theorem start_report_counts_once:
  "record_node_started success2 msg2 (record_node_started success1 msg1 w) = record_node_started success1 msg1 w \<and>
   (\<not> ds_starting (delivery_of w) \<longrightarrow> record_node_started success1 msg1 w = w)"
proof -
  have "\<not> ds_starting (delivery_of (record_node_started success1 msg1 w))"
    by (simp add: record_node_started_def Let_def set_delivery_state_delivery)
  then show ?thesis by (simp add: record_node_started_def [of success2] record_node_started_def [of success1 _ w])
qed

lemma start_report_counts_once_witness:
  "record_node_started True ''late'' demo_world = demo_world"
  using start_report_counts_once [of True "''late''" True "''late''" demo_world]
  by (simp add: demo_world_def ds_initialising_def)

text \<open>Connectivity counts only once this init started its node; from then on a connected node
  is online, and any status but the two connected ones is an error, unknown ones included.\<close>

theorem connectivity_counts_once_started:
  "(if ds_started (delivery_of w)
    then st_delivery_state (status (handle_connection_state st w)) =
      (if st \<in> {''Connected'', ''PartiallyConnected''} then ''online'' else ''error'')
    else handle_connection_state st w = w) \<and>
   ds_started (delivery_of (handle_connection_state st w)) = ds_started (delivery_of w) \<and>
   w_events (handle_connection_state st (handle_connection_state st w)) = w_events (handle_connection_state st w)"
  by (simp add: handle_connection_state_def connection_transition_def map_connection_status_def
      status_def with_display_def set_delivery_state_delivery set_delivery_state_events)

section \<open>Init and shutdown\<close>

lemma initialize_pending: "\<exists>sends. w_pending (snd (initialize env ie w)) = w_pending w @ send_calls sends"
proof (cases "prepare_local env ie")
  case (Inl e)
  then show ?thesis by (intro exI [of _ "[]"]) (simp add: initialize_def send_calls_def)
next
  case (Inr x)
  obtain client rx sends db st where "x = (client, rx, sends, db, st)" by (cases x)
  with Inr show ?thesis
    by (intro exI [of _ sends]) (simp add: initialize_def Let_def split: sum.split prod.split)
qed

text \<open>C32: An init that fails installs no session, leaves the display and the database closed as
  they were, starts no bootstrap and announces nothing.\<close>

theorem failed_init_leaves_no_session:
  assumes "init_world env ie preset w = (Inl e, w')" and "\<not> mh_poisoned (w_module w)"
  shows "w_module w' = w_module w \<and> mh_inner (w_module w') = None \<and> w_display w' = w_display w \<and>
    w_events w' = w_events w \<and> (\<exists>sends. w_pending w' = w_pending w @ send_calls sends) \<and>
    (\<exists>err. initialize env ie w = (Inl err, w'\<lparr>w_log := butlast (w_log w')\<rparr>) \<and> e = init_error_text err)"
proof -
  obtain r w0 where i: "initialize env ie w = (r, w0)" by fastforce
  have none: "mh_inner (w_module w) = None"
    using assms by (auto simp: init_world_def install_with_def case_prod_unfold Let_def split: if_splits)
  obtain err where r: "r = Inl err"
    using assms none i by (cases r) (simp_all add: init_world_def install_with_def)
  have "init_world env ie preset w =
      (Inl (init_error_text err), log_at ERROR (''init: '' @ init_error_text err) w0)"
    using none i r assms(2) by (simp add: init_world_def install_with_def)
  then have e: "e = init_error_text err" and w': "w' = log_at ERROR (''init: '' @ init_error_text err) w0"
    using assms(1) by simp_all
  have "\<exists>sends. w_pending w0 = w_pending w @ send_calls sends"
    using initialize_pending [of env ie w] by (simp add: i)
  then show ?thesis
    using none i r e w' initialize_module(1) [OF i] initialize_Inl_display [of env ie w err w0]
    by (simp add: log_at_def)
qed

lemma failed_init_leaves_no_session_witness:
  "\<exists>w'. init_world demo_env ((demo_ie empty_db)\<lparr>ie_context := Some []\<rparr>) ''p'' initial_world =
     (Inl (init_error_text NoPersistencePath), w') \<and> mh_inner (w_module w') = None"
proof -
  let ?ie = "(demo_ie empty_db)\<lparr>ie_context := Some []\<rparr>"
  have "init_world demo_env ?ie ''p'' initial_world = (Inl (init_error_text NoPersistencePath),
      snd (init_world demo_env ?ie ''p'' initial_world))"
    by (simp add: init_world_def install_with_def initialize_def prepare_local_def initial_world_def
        module_handle_new_def)
  with failed_init_leaves_no_session [OF this] show ?thesis
    by (auto simp: initial_world_def module_handle_new_def)
qed

text \<open>C31: An init on an installed module keeps the session and its arguments: it bootstraps again
  exactly when the bootstrap failed before the node started, and the next init does not.\<close>

theorem repeated_init_retries_once:
  assumes "mh_inner (w_module w) = Some ms" and "\<not> mh_poisoned (w_module w)"
    and "w1 = snd (init_world env ie preset w)" and "w2 = snd (init_world env' ie' preset' w1)"
  shows "fst (init_world env ie preset w) = Inr JNull \<and>
    w_module w1 = w_module w \<and> chat_part (w_display w1) = chat_part (w_display w) \<and>
    w_pending w1 = w_pending w @
      (if ds_state (delivery_of w) = Error \<and> \<not> ds_started (delivery_of w)
       then [Create_node (config_json preset) preset] else []) \<and>
    w_pending w2 = w_pending w1 \<and> w_module w2 = w_module w"
proof -
  have step: "w_pending (snd (init_world env ie preset w)) = w_pending w @
      (if ds_state (delivery_of w) = Error \<and> \<not> ds_started (delivery_of w)
       then [Create_node (config_json preset) preset] else [])"
    "fst (init_world env ie preset w) = Inr JNull"
    "ds_state (delivery_of (snd (init_world env ie preset w))) = Error \<longrightarrow>
       ds_started (delivery_of (snd (init_world env ie preset w)))"
    if "mh_inner (w_module w) = Some ms" "\<not> mh_poisoned (w_module w)" for env ie preset and w :: "('a, 'b) world"
    using that by (auto simp: init_world_def install_with_def claim_delivery_retry_def
        start_delivery_bootstrap_def set_delivery_state_delivery)
  have f1: "chat_part (w_display w1) = chat_part (w_display w)" "w_module w1 = w_module w"
    using init_world_again [OF assms(1,2), of env ie preset] by (simp_all add: assms(3) chat_frame_def)
  have "w_module w2 = w_module w1"
    using init_world_again [of w1 ms env' ie' preset'] f1 assms(1,2) by (simp add: assms(4) chat_frame_def)
  moreover have "w_pending w2 = w_pending w1"
    using step(1) [of w1 env' ie' preset'] step(3) [OF assms(1,2), of env ie preset] f1 assms
    by auto
  ultimately show ?thesis
    using f1 step(1,2) [OF assms(1,2), of env ie preset] by (simp add: assms(3))
qed

lemma repeated_init_retries_once_witness:
  "w_pending (snd (init_world demo_env (demo_ie empty_db) ''p'' demo_world)) = w_pending demo_world"
proof -
  have "mh_inner (w_module demo_world) = Some (the (mh_inner demo_module))" "\<not> mh_poisoned (w_module demo_world)"
    by (simp_all add: demo_world_def demo_module_def)
  from repeated_init_retries_once [OF this refl refl, of demo_env "demo_ie empty_db" "''p''"] show ?thesis
    by (simp add: demo_world_def ds_initialising_def)
qed

end
