(* ===== verification/Delivery_Properties.thy ===== *)
theory Delivery_Properties
  imports System
begin

text \<open>
  What holds at the delivery boundary: verdicts, topics, the order in which sends, subscriptions and
  received payloads pass, and the duplicate filter; and of the clock the messages are stamped with.
\<close>

section \<open>Received messages\<close>

text \<open>The chat messages among a run of \<open>messageReceived\<close> events, and the bridge after them.\<close>

definition chat_messages :: "decoders \<Rightarrow> event_data list \<Rightarrow> received_message list" where
  "chat_messages dcs evts =
     filter (\<lambda>m. prefix TOPIC_PREFIX (rm_content_topic m)) (List.map_filter (dc_message_received dcs) evts)"

definition forward_all ::
  "decoders \<Rightarrow> event_data list \<Rightarrow> bridge \<times> ('c, 'ms) world \<Rightarrow> bridge \<times> ('c, 'ms) world" where
  "forward_all dcs evts bw = fold (\<lambda>evt (b, w). forward_message dcs evt b w) evts bw"

lemma chat_messages_Cons:
  "chat_messages dcs (evt # evts) =
     (case dc_message_received dcs evt of
        None \<Rightarrow> chat_messages dcs evts
      | Some m \<Rightarrow> (if prefix TOPIC_PREFIX (rm_content_topic m) then [m] else []) @ chat_messages dcs evts)"
  by (simp add: chat_messages_def map_filter_simps split: option.split)

lemma forward_message_cases:
  assumes "ch_receiver (b_inbound_tx b)"
  shows "b_seen (fst (forward_message dcs evt b w)) =
      (case dc_message_received dcs evt of Some m \<Rightarrow>
         if prefix TOPIC_PREFIX (rm_content_topic m) then snd (first_sighting (rm_message_hash m) (b_seen b))
         else b_seen b | None \<Rightarrow> b_seen b)"
    and "ch_queue (b_inbound_tx (fst (forward_message dcs evt b w))) = ch_queue (b_inbound_tx b) @
      (case dc_message_received dcs evt of Some m \<Rightarrow>
         if prefix TOPIC_PREFIX (rm_content_topic m) \<and> fst (first_sighting (rm_message_hash m) (b_seen b))
         then [rm_payload m] else [] | None \<Rightarrow> [])"
    and "ch_receiver (b_inbound_tx (fst (forward_message dcs evt b w)))"
  using assms
  by (simp_all add: forward_message_def channel_send_def Let_def split: option.split prod.split)

lemma forward_all_payloads:
  assumes "ch_receiver (b_inbound_tx b)"
    and "list_all (\<lambda>m. rm_payload m = payload_of (rm_message_hash m)) (chat_messages dcs evts)"
  shows "b_seen (fst (forward_all dcs evts (b, w))) =
      seen.after (map rm_message_hash (chat_messages dcs evts)) (b_seen b) \<and>
    ch_queue (b_inbound_tx (fst (forward_all dcs evts (b, w)))) = ch_queue (b_inbound_tx b) @
      map payload_of (seen.passed (map rm_message_hash (chat_messages dcs evts)) (b_seen b))"
  using assms
proof (induction evts arbitrary: b w)
  case Nil
  then show ?case by (simp add: forward_all_def chat_messages_def map_filter_simps)
next
  case (Cons evt evts)
  obtain b' w' where f: "forward_message dcs evt b w = (b', w')" by fastforce
  note step = forward_message_cases [OF Cons.prems(1), of dcs evt w, unfolded f fst_conv]
  have "list_all (\<lambda>m. rm_payload m = payload_of (rm_message_hash m)) (chat_messages dcs evts)"
    using Cons.prems(2) by (simp add: chat_messages_Cons split: option.splits if_splits)
  with Cons.IH [OF step(3), of w'] have IH:
    "b_seen (fst (forward_all dcs evts (b', w'))) =
      seen.after (map rm_message_hash (chat_messages dcs evts)) (b_seen b')"
    "ch_queue (b_inbound_tx (fst (forward_all dcs evts (b', w')))) = ch_queue (b_inbound_tx b') @
      map payload_of (seen.passed (map rm_message_hash (chat_messages dcs evts)) (b_seen b'))"
    by simp_all
  have "forward_all dcs (evt # evts) (b, w) = forward_all dcs evts (b', w')"
    by (simp add: forward_all_def f)
  then show ?case
    using IH step Cons.prems(2)
    by (simp add: chat_messages_Cons case_prod_unfold split: option.splits if_splits)
qed

text \<open>C18: The duplicate filter forgets nothing too early and nothing too late: after any run of
  hashes it lets one pass exactly when it is none of the last 10000 that passed, and it never holds
  more than those.\<close>

theorem filter_remembers_last_10000:
  "(fst (first_sighting h (seen.after hs seen_default)) \<longleftrightarrow>
     h \<notin> set (last_n SEEN_CAPACITY (seen.passed hs seen_default))) \<and>
   sm_order (seen.after hs seen_default) = last_n SEEN_CAPACITY (seen.passed hs seen_default) \<and>
   seen_inv (seen.after hs seen_default)"
proof -
  have inv: "seen_inv (seen.after hs seen_default)" by (rule seen.inv_after) simp
  have "sm_order (seen.after hs seen_default) = last_n SEEN_CAPACITY (seen.passed hs seen_default)"
    by (simp only: seen.window_after [OF seen_inv_default, of hs])
      (simp add: last_n_def seen_default_def Let_def)
  then show ?thesis using inv seen.sight_verdict [OF inv, of h] by simp
qed

text \<open>C16: A run of \<open>messageReceived\<close> events hands the client, in order, the payloads of the chat
  messages the filter lets pass, and nothing else: malformed events, other applications' topics and
  repeats are dropped.\<close>

theorem payloads_forwarded_once_in_order:
  assumes "ch_receiver (b_inbound_tx b)" and "b_seen b = seen_default"
    and "list_all (\<lambda>m. rm_payload m = payload_of (rm_message_hash m)) (chat_messages dcs evts)"
    and "b' = fst (forward_all dcs evts (b, w))"
  shows "ch_queue (b_inbound_tx b') = ch_queue (b_inbound_tx b) @
      map payload_of (seen.passed (map rm_message_hash (chat_messages dcs evts)) seen_default) \<and>
    set (seen.passed (map rm_message_hash (chat_messages dcs evts)) seen_default) =
      set (map rm_message_hash (chat_messages dcs evts))"
  using forward_all_payloads [OF assms(1,3), of w] seen.set_passed [OF seen_inv_default]
  by (simp add: assms(2,4) seen_default_def)

lemma payloads_forwarded_once_in_order_witness:
  "ch_queue (b_inbound_tx (fst (forward_all demo_decoders
     [\<lparr>ev_name = ''m'', ev_args = JStr ''a''\<rparr>, \<lparr>ev_name = ''m'', ev_args = JNull\<rparr>,
      \<lparr>ev_name = ''m'', ev_args = JStr ''a''\<rparr>] (demo_bridge, demo_world)))) = [''a'']"
proof -
  let ?evts = "[\<lparr>ev_name = ''m'', ev_args = JStr ''a''\<rparr>, \<lparr>ev_name = ''m'', ev_args = JNull\<rparr>,
      \<lparr>ev_name = ''m'', ev_args = JStr ''a''\<rparr>]"
  have m: "map rm_message_hash (chat_messages demo_decoders ?evts) = [''a'', ''a'']"
    "list_all (\<lambda>m. rm_payload m = rm_message_hash m) (chat_messages demo_decoders ?evts)"
    by (simp_all add: chat_messages_Cons demo_decoders_def) (simp_all add: chat_messages_def map_filter_simps)
  have "seen.passed [''a'', ''a''] seen_default = [''a'']"
    by (simp add: first_sighting_def seen_default_def SEEN_CAPACITY_def)
  with payloads_forwarded_once_in_order [where b = demo_bridge and payload_of = "\<lambda>x. x" and
      dcs = demo_decoders and evts = ?evts and w = demo_world, OF _ _ _ refl] m show ?thesis
    by (simp add: demo_bridge_def spawn_bridge_def unbounded_def)
qed

section \<open>Sends and subscriptions\<close>

lemma foldl_publisher_call: "foldl publisher_call p cs = publisher.calls cs p"
proof -
  have "publisher_call = publisher.call"
  proof (intro ext)
    show "publisher_call p c = publisher.call p c" for p c by (cases c) simp_all
  qed
  then show ?thesis by (simp add: publisher.calls_def)
qed

text \<open>C27: What the client publishes and subscribes to during a call on it reaches delivery in that
  order: the sends are handed over on the recipients' topics, the subscriptions queue for the
  bridge.\<close>

theorem client_traffic_is_handed_over_in_order:
  assumes "\<not> mh_poisoned (w_module w)" and "mh_inner (w_module w) = Some ms"
    and "ms_inbound_thread ms = Some b" and "ch_receiver (b_subscribe_rx b)"
    and "f (ms_client ms) = (r, c', cs)" and "w' = snd (with_client f w)"
  shows "fst (with_client f w) = Inr r \<and>
    w_pending w' = w_pending w @ map (\<lambda>(topic, data). Send topic data) (concat (map published cs)) \<and>
    (\<exists>ms' b'. mh_inner (w_module w') = Some ms' \<and> ms_client ms' = c' \<and> ms_inbound_thread ms' = Some b' \<and>
       ch_queue (b_subscribe_rx b') = ch_queue (b_subscribe_rx b) @ concat (map requested cs))"
  using assms publisher.sends_calls [of cs "\<lparr>sp_subscribe_tx = b_subscribe_rx b, sp_sends = []\<rparr>"]
    publisher.queued_calls [of cs "\<lparr>sp_subscribe_tx = b_subscribe_rx b, sp_sends = []\<rparr>"]
  by (simp add: with_client_def with_state_mut_def run_transport_def send_calls_def foldl_publisher_call
      case_prod_unfold Let_def)

lemma client_traffic_is_handed_over_in_order_witness:
  "w_pending (snd (with_client (ca_send_message demo_client ''dm'' ''hi'') chat_world)) =
     w_pending chat_world @ [Send (content_topic_for ''dm'') ''hi'']"
  using client_traffic_is_handed_over_in_order [where w = chat_world and f = "ca_send_message demo_client ''dm'' ''hi''",
      OF _ _ _ _ _ refl]
  by (simp add: demo_module_def demo_bridge_def spawn_bridge_def demo_client_def)

lemma on_node_events_pending [simp]:
  "w_pending (on_node_started dcs evt w) = w_pending w"
  "w_pending (on_connection_state dcs evt w) = w_pending w"
  by (simp_all add: on_node_started_def record_node_started_def on_connection_state_def
      handle_connection_state_def update_delivery_def Let_def split: option.split prod.split)

lemma forward_message_frame:
  "w_pending (snd (forward_message dcs evt b w)) = w_pending w"
  "b_subscribe_rx (fst (forward_message dcs evt b w)) = b_subscribe_rx b"
  by (simp_all add: forward_message_def Let_def split: option.split prod.split)

lemma drain_pending [simp]:
  "w_pending (snd (drain (on_node_started dcs) sub w)) = w_pending w"
  "w_pending (snd (drain (on_connection_state dcs) sub w)) = w_pending w"
  by (rule drain_invariant [where P = "\<lambda>x. w_pending x = w_pending w"]; simp)+

text \<open>C26: A turn of the bridge hands over every queued subscription, in order, when the display is
  online at its end, and otherwise keeps them all for later.\<close>

theorem subscriptions_wait_for_online:
  assumes "bridge_turn dcs b w = (False, b', w')"
  shows "if ds_state (delivery_of w') = Online
    then ch_queue (b_subscribe_rx b') = [] \<and>
      w_pending w' = w_pending w @ map Subscribe (ch_queue (b_subscribe_rx b))
    else b_subscribe_rx b' = b_subscribe_rx b \<and> w_pending w' = w_pending w"
proof -
  let ?item = "fst (try_recv (b_messages b))" and ?b0 = "b\<lparr>b_messages := snd (try_recv (b_messages b))\<rparr>"
  define bw where "bw = (case ?item of Received_item evt \<Rightarrow> forward_message dcs evt ?b0 w | _ \<Rightarrow> (?b0, w))"
  define w1 where "w1 = snd (drain (on_node_started dcs) (b_node_started (fst bw)) (snd bw))"
  define w2 where "w2 = snd (drain (on_connection_state dcs) (b_conn (fst bw)) w1)"
  have bw: "w_pending (snd bw) = w_pending w" "b_subscribe_rx (fst bw) = b_subscribe_rx b"
    by (simp_all add: bw_def forward_message_frame split: recv_outcome.split)
  let ?b2 = "(fst bw)\<lparr>b_node_started := fst (drain (on_node_started dcs) (b_node_started (fst bw)) (snd bw)),
    b_conn := fst (drain (on_connection_state dcs) (b_conn (fst bw)) w1)\<rparr>"
  have f: "forward_subscriptions ?b2 w2 = (b', w')"
    using assms unfolding bridge_turn_def Let_def case_prod_unfold
    by (simp add: bw_def [symmetric] w1_def [symmetric] w2_def [symmetric] prod_eq_iff split: if_splits)
  have "w_pending w2 = w_pending w" by (simp add: w2_def w1_def bw)
  with f bw(2) show ?thesis
    by (auto simp: forward_subscriptions_def with_display_def foldl_hand_over split: if_splits)
qed

lemma subscriptions_wait_for_online_witness:
  "\<exists>b' w'. bridge_turn demo_decoders demo_bridge demo_world = (False, b', w') \<and>
     b_subscribe_rx b' = b_subscribe_rx demo_bridge"
proof -
  obtain stop b' w' where t: "bridge_turn demo_decoders demo_bridge demo_world = (stop, b', w')"
    by (metis prod.collapse)
  then have "\<not> stop" "ds_state (delivery_of w') \<noteq> Online"
    by (auto simp: bridge_turn_def try_recv_def demo_bridge_def spawn_bridge_def idle_subscription_def
        drain_eq forward_subscriptions_def demo_world_def ds_initialising_def with_display_def Let_def)
  with t subscriptions_wait_for_online [of demo_decoders demo_bridge demo_world b' w'] show ?thesis by auto
qed

section \<open>Verdicts, topics and stamps\<close>

text \<open>A call on delivery_module succeeded exactly when its envelope says so, whatever the call
  itself reported; a refusal always has a reason to show.\<close>

theorem verdict_is_the_envelopes:
  "(delivery_outcome render res = Inr v \<longleftrightarrow>
     (\<exists>e. res = Inr e \<and> json_get e ''success'' = Some (JBool True) \<and>
        v = unwrap_or (json_get e ''value'') JNull)) \<and>
   (delivery_outcome render res = Inl [] \<longleftrightarrow> res = Inl [])"
proof (cases res)
  case (Inr e)
  let ?verdict = "Option.bind (json_get e ''success'') as_bool"
  have "as_bool j = Some b \<longleftrightarrow> j = JBool b" for j b by (cases j) auto
  then have v: "?verdict = Some b \<longleftrightarrow> json_get e ''success'' = Some (JBool b)" for b
    by (auto simp: bind_eq_Some_conv)
  have reason: "unwrap_or (opt_filter (\<lambda>r. r \<noteq> []) x) ''no reason given'' \<noteq> []" for x
    by (cases x) auto
  show ?thesis
  proof (cases ?verdict)
    case None
    then show ?thesis using Inr v [of True] by (simp add: delivery_outcome_def)
  next
    case (Some b)
    then show ?thesis using Inr v [of b] reason by (cases b) (auto simp: delivery_outcome_def)
  qed
qed simp

text \<open>Every topic the module sends or subscribes on passes its own inbound filter, and
  different addresses have different topics.\<close>

lemma own_topics_pass_the_filter:
  "prefix TOPIC_PREFIX (content_topic_for a) \<and> (content_topic_for a = content_topic_for b \<longleftrightarrow> a = b) \<and>
   list_all (\<lambda>(topic, data). prefix TOPIC_PREFIX topic) (concat (map published cs)) \<and>
   list_all (prefix TOPIC_PREFIX) (concat (map requested cs))"
proof -
  have "list_all (\<lambda>(topic, data). prefix TOPIC_PREFIX topic) (published c)"
    "list_all (prefix TOPIC_PREFIX) (requested c)" for c
    by (cases c; simp)+
  then show ?thesis by (induction cs) simp_all
qed

text \<open>A message is stamped with the wall clock in whole milliseconds, read back unchanged as a
  signed number until the year 292 million; a clock before 1970 stamps zero.\<close>

theorem stamp_is_the_clock_in_ms:
  assumes "clock < 2 ^ 63 * 1000000"
  shows "sint (as_i64 (now_ms clock)) = max 0 (clock div 1000000)"
proof (cases "clock < 0")
  case True
  then have "clock div 1000000 < 0" by (simp add: div_neg_pos_less0)
  with True show ?thesis by (simp add: now_ms_def as_i64_def)
next
  case False
  let ?m = "clock div 1000000"
  have b: "0 \<le> ?m" "?m < 2 ^ 63" using False assms by simp_all
  then have "uint (word_of_int ?m :: u64) = ?m"
    by (simp add: uint_word_of_int take_bit_int_eq_self)
  with b have "unat (word_of_int ?m :: u64) < 2 ^ 63" "int (unat (word_of_int ?m :: u64)) = ?m"
    by (simp_all add: nat_less_iff flip: nat_uint_eq)
  then show ?thesis using False b sint_as_i64 [of "word_of_int ?m"] by (simp add: now_ms_def)
qed

lemma stamp_is_the_clock_in_ms_witness: "sint (as_i64 (now_ms 5000000)) = 5"
  using stamp_is_the_clock_in_ms [of 5000000] by simp

end
