(* ===== verification/Two_Modules.thy ===== *)
theory Two_Modules
  imports Delivery_Properties
begin

text \<open>
  Two instances of the module over one delivery network: what the client of one publishes, the bridge of
  the other hands to its client.
\<close>

context duplicate_filter
begin

text \<open>While the hashes of a run fit into the window, none passes twice.\<close>

lemma subseq_passed: "subseq (passed hs s) hs"
  by (induction hs arbitrary: s) (auto simp: case_prod_unfold Let_def)

lemma distinct_passed:
  assumes "inv s" and "window s = []" and "card (set hs) \<le> capacity"
  shows "distinct (passed hs s)"
proof -
  have sub: "set (passed hs s) \<subseteq> set hs" using subseq_passed [of hs s] by (auto simp: subseq_conv_nths dest: in_set_nthsD)
  have "distinct xs" if "passed hs s = xs @ ys" for xs ys
    using that
  proof (induction xs arbitrary: ys rule: rev_induct)
    case (snoc x xs)
    then have p: "passed hs s = xs @ x # ys" by simp
    have d: "distinct xs" by (rule snoc.IH [OF p])
    have "set xs \<subseteq> set hs" using sub p by auto
    then have "length xs \<le> capacity"
      using card_mono [of "set hs" "set xs"] distinct_card [OF d] assms(3) by simp
    then show ?case using passed_fresh [OF assms(1) p] d assms(2) by simp
  qed simp
  from this [of _ "[]"] show ?thesis by simp
qed

end

lemma with_client_sends:
  assumes "\<not> mh_poisoned (w_module w)" and "mh_inner (w_module w) = Some ms"
    and "ms_inbound_thread ms = Some b" and "ch_receiver (b_subscribe_rx b)"
    and "f (ms_client ms) = (r, c', cs)"
  shows "w_pending (snd (with_client f w)) = w_pending w @ send_calls (concat (map published cs))"
  using assms publisher.sends_calls [of cs "\<lparr>sp_subscribe_tx = b_subscribe_rx b, sp_sends = []\<rparr>"]
  by (simp add: with_client_def with_state_mut_def run_transport_def foldl_publisher_call case_prod_unfold Let_def)

text \<open>The network hands the receiver the published messages, each under its hash, in any order and any
  number of times.\<close>

definition delivered :: "(nat \<Rightarrow> str) \<Rightarrow> str \<Rightarrow> (str \<times> bytes) list \<Rightarrow> nat list \<Rightarrow> received_message list" where
  "delivered hash source sends is = map (\<lambda>i. \<lparr>rm_message_hash = hash i, rm_content_topic = fst (sends ! i),
     rm_payload = snd (sends ! i), rm_source = source\<rparr>) is"

text \<open>C17: What the client of one module publishes, the client of another receives: if the network
  delivers every published message at least once, in whatever order and however often, each payload is
  put into the other client's inbound channel exactly once, in an order of arrival; no message is taken
  for another application's.\<close>

theorem published_traffic_reaches_the_peer:
  assumes "\<not> mh_poisoned (w_module w)" and "mh_inner (w_module w) = Some ms"
    and "ms_inbound_thread ms = Some a" and "ch_receiver (b_subscribe_rx a)"
    and "f (ms_client ms) = (r, c', cs)" and "sends = concat (map published cs)"
    and "length sends \<le> SEEN_CAPACITY" and "inj hash" and "set is = {..<length sends}"
    and "List.map_filter (dc_message_received dcs) evts = delivered hash source sends is"
    and "ch_receiver (b_inbound_tx b)" and "b_seen b = seen_default"
    and "b' = fst (forward_all dcs evts (b, v))"
  shows "w_pending (snd (with_client f w)) = w_pending w @ map (\<lambda>(topic, data). Send topic data) sends \<and>
    (\<exists>js. subseq js is \<and> distinct js \<and> set js = {..<length sends} \<and>
       ch_queue (b_inbound_tx b') = ch_queue (b_inbound_tx b) @ map (\<lambda>j. snd (sends ! j)) js)"
proof
  show "w_pending (snd (with_client f w)) = w_pending w @ map (\<lambda>(topic, data). Send topic data) sends"
    using with_client_sends [where f = f, OF assms(1-5)] assms(6) by (simp add: send_calls_def)
next
  let ?msgs = "chat_messages dcs evts" and ?payload = "\<lambda>h. snd (sends ! inv hash h)"
  let ?hs = "map rm_message_hash ?msgs"
  have "prefix TOPIC_PREFIX (fst (sends ! i))" if "i \<in> set is" for i
  proof -
    have "sends ! i \<in> set sends" using that assms(9) by simp
    then show ?thesis using own_topics_pass_the_filter assms(6) by (fastforce simp: list_all_iff)
  qed
  then have msgs: "?msgs = delivered hash source sends is"
    unfolding chat_messages_def assms(10) by (simp add: delivered_def)
  then have hs: "?hs = map hash is" by (simp add: delivered_def comp_def)
  have "list_all (\<lambda>m. rm_payload m = ?payload (rm_message_hash m)) ?msgs"
    unfolding msgs by (simp add: delivered_def list_all_iff inv_f_f [OF assms(8)])
  with forward_all_payloads [OF assms(11) this, of v] assms(12,13)
  have q: "ch_queue (b_inbound_tx b') = ch_queue (b_inbound_tx b) @ map ?payload (seen.passed ?hs seen_default)"
    by simp
  obtain js where js: "subseq js is" "seen.passed ?hs seen_default = map hash js"
    using seen.subseq_passed [of ?hs seen_default] unfolding hs subseq_conv_nths nths_map by blast
  have "card (set ?hs) \<le> SEEN_CAPACITY"
    unfolding hs using assms(7,8,9) by (simp add: card_image inj_on_subset [OF assms(8)])
  then have "distinct (map hash js)"
    using seen.distinct_passed [OF seen_inv_default, of ?hs] js(2) by (simp add: seen_default_def)
  moreover have "set (map hash js) = set ?hs"
    using seen.set_passed [OF seen_inv_default, of ?hs] js(2) by (simp add: seen_default_def)
  then have "set js = {..<length sends}"
    using inj_image_eq_iff [OF assms(8), of "set js" "set is"] assms(9) by (simp add: hs)
  ultimately show "\<exists>js. subseq js is \<and> distinct js \<and> set js = {..<length sends} \<and>
       ch_queue (b_inbound_tx b') = ch_queue (b_inbound_tx b) @ map (\<lambda>j. snd (sends ! j)) js"
    using js q by (intro exI [of _ js]) (auto simp: distinct_map inv_f_f [OF assms(8)])
qed

lemma published_traffic_reaches_the_peer_witness:
  "w_pending (snd (with_client (ca_send_message demo_client ''inbox'' ''hi'') chat_world)) =
     w_pending chat_world @ [Send (content_topic_for ''inbox'') ''hi''] \<and>
   ch_queue (b_inbound_tx (fst (forward_all demo_decoders
     [\<lparr>ev_name = ''m'', ev_args = JStr ''hi''\<rparr>, \<lparr>ev_name = ''m'', ev_args = JStr ''hi''\<rparr>]
     (demo_bridge, demo_world)))) = [''hi'']"
proof -
  let ?evts = "[\<lparr>ev_name = ''m'', ev_args = JStr ''hi''\<rparr>, \<lparr>ev_name = ''m'', ev_args = JStr ''hi''\<rparr>]"
  let ?sends = "[(content_topic_for ''inbox'', ''hi'')]" and ?hash = "\<lambda>i. ''hi'' @ replicate i CHR ''x''"
  have evts: "List.map_filter (dc_message_received demo_decoders) ?evts = delivered ?hash ''relay'' ?sends [0, 0]"
    by (simp add: demo_decoders_def delivered_def map_filter_simps)
  have inj: "inj ?hash" by (rule injI) (metis append_same_eq length_replicate same_append_eq)
  have b: "ch_receiver (b_inbound_tx demo_bridge)" "b_seen demo_bridge = seen_default"
    "ch_receiver (b_subscribe_rx demo_bridge)" "ch_queue (b_inbound_tx demo_bridge) = []"
    by (simp_all add: demo_bridge_def spawn_bridge_def unbounded_def)
  have "w_pending (snd (with_client (ca_send_message demo_client ''inbox'' ''hi'') chat_world)) =
      w_pending chat_world @ map (\<lambda>(topic, data). Send topic data) ?sends \<and>
    (\<exists>js. subseq js [0, 0] \<and> distinct js \<and> set js = {..<length ?sends} \<and>
       ch_queue (b_inbound_tx (fst (forward_all demo_decoders ?evts (demo_bridge, demo_world)))) =
         ch_queue (b_inbound_tx demo_bridge) @ map (\<lambda>j. snd (?sends ! j)) js)"
    by (rule published_traffic_reaches_the_peer [where hash = ?hash and source = "''relay''"
        and ms = "\<lparr>ms_client = 0, ms_inbound_thread = Some demo_bridge, ms_event_thread = Some ()\<rparr>"
        and cs = "[Publish \<lparr>ae_delivery_address = ''inbox'', ae_data = ''hi''\<rparr>]"
        and r = "Inr ()" and c' = 0, OF _ _ _ b(3) _ _ _ inj _ evts b(1,2) refl])
      (auto simp: demo_module_def demo_client_def SEEN_CAPACITY_def)
  then obtain js where "w_pending (snd (with_client (ca_send_message demo_client ''inbox'' ''hi'') chat_world)) =
      w_pending chat_world @ [Send (content_topic_for ''inbox'') ''hi'']"
    and js: "distinct js" "set js = {..<1::nat}" and
    q: "ch_queue (b_inbound_tx (fst (forward_all demo_decoders ?evts (demo_bridge, demo_world)))) =
      map (\<lambda>j. snd (?sends ! j)) js"
    by (auto simp: b(4))
  moreover have "length js = 1" using distinct_card [OF js(1)] js(2) by simp
  then have "js = [0]" using js(2) by (cases js) (simp_all add: lessThan_Suc)
  ultimately show ?thesis by simp
qed

end
