(* ===== verification/Tasks.thy ===== *)
theory Tasks
  imports Runs
begin

text \<open>
  Threads that share a state under locks.  A \<open>task\<close> is what a thread has left to do: take or
  release a lock, act on the shared state and go on depending on what it saw, start another thread
  or wait for its end.  A \<open>pool\<close> is the shared state with its threads; \<open>pool_step\<close> lets any thread
  that is not waiting make its next move.

  \<open>disciplined\<close> says that a thread takes locks in increasing order, holds none while it waits for a
  thread, and waits only for threads it started.  Disciplined threads never block each other for
  good (\<open>disciplined_progress\<close>) and every run of a pool ends (\<open>pool_step_wf\<close>).  The locale
  \<open>guarded_data\<close> is about the part of the state that one lock guards: what every critical section
  establishes holds whenever the lock is free.
\<close>

section \<open>Tasks\<close>

text \<open>
  \<open>Act u k\<close> changes the state by \<open>u\<close> and continues with \<open>k\<close> of the state before.  \<open>Try_lock\<close> goes
  on with its second task when the lock is taken.  Threads are known by their place in the pool.
\<close>

datatype ('l, 's) task =
    Done
  | Lock 'l "('l, 's) task"
  | Unlock 'l "('l, 's) task"
  | Try_lock 'l "('l, 's) task" "('l, 's) task"
  | Act "'s \<Rightarrow> 's" "'s \<Rightarrow> ('l, 's) task"
  | Spawn nat "('l, 's) task"
  | Join nat "('l, 's) task"

text \<open>The state a task leaves when it runs alone.\<close>

primrec exec :: "('l, 's) task \<Rightarrow> 's \<Rightarrow> 's" where
  "exec Done s = s"
| "exec (Lock l t) s = exec t s"
| "exec (Unlock l t) s = exec t s"
| "exec (Try_lock l t e) s = exec t s"
| "exec (Act u k) s = exec (k s) (u s)"
| "exec (Spawn j t) s = exec t s"
| "exec (Join j t) s = exec t s"

abbreviation look :: "('s \<Rightarrow> ('l, 's) task) \<Rightarrow> ('l, 's) task" where
  "look k \<equiv> Act (\<lambda>s. s) k"

abbreviation run :: "('s \<Rightarrow> 's) \<Rightarrow> ('l, 's) task \<Rightarrow> ('l, 's) task" where
  "run u t \<equiv> Act u (\<lambda>_. t)"

text \<open>A closure run under a lock, its result handed on once the lock is released.\<close>

definition locked :: "'l \<Rightarrow> ('s \<Rightarrow> 'r \<times> 's) \<Rightarrow> ('r \<Rightarrow> ('l, 's) task) \<Rightarrow> ('l, 's) task" where
  "locked l f k = Lock l (Act (\<lambda>s. snd (f s)) (\<lambda>s. Unlock l (k (fst (f s)))))"

lemma exec_locked [simp]: "exec (locked l f k) s = exec (k (fst (f s))) (snd (f s))"
  by (simp add: locked_def)

section \<open>Pools of threads\<close>

record ('l, 's) thread =
  th_started :: bool
  th_held :: "'l list"
  th_task :: "('l, 's) task"

record ('l, 's) pool =
  po_state :: 's
  po_threads :: "('l, 's) thread list"

definition free :: "'l \<Rightarrow> ('l, 's) thread list \<Rightarrow> bool" where
  "free l ts \<longleftrightarrow> (\<forall>t\<in>set ts. l \<notin> set (th_held t))"

lemma free_nth: "free l ts \<longleftrightarrow> (\<forall>i < length ts. l \<notin> set (th_held (ts ! i)))"
  by (simp add: free_def all_set_conv_all_nth)

definition ended :: "nat \<Rightarrow> ('l, 's) thread list \<Rightarrow> bool" where
  "ended j ts \<longleftrightarrow> (j < length ts \<longrightarrow> th_task (ts ! j) = Done)"

definition start_thread :: "nat \<Rightarrow> ('l, 's) thread list \<Rightarrow> ('l, 's) thread list" where
  "start_thread j ts = ts[j := (ts ! j)\<lparr>th_started := True\<rparr>]"

text \<open>
  The moves of thread \<open>i\<close>: what its task comes to next, and what that does to the state and to the
  locks it holds.
\<close>

inductive pool_step :: "('l, 's) pool \<Rightarrow> ('l, 's) pool \<Rightarrow> bool" where
  Takes: "i < length ts \<Longrightarrow> ts ! i = \<lparr>th_started = True, th_held = h, th_task = Lock l t\<rparr> \<Longrightarrow> free l ts \<Longrightarrow>
    pool_step \<lparr>po_state = s, po_threads = ts\<rparr>
      \<lparr>po_state = s, po_threads = ts[i := \<lparr>th_started = True, th_held = l # h, th_task = t\<rparr>]\<rparr>"
| Releases: "i < length ts \<Longrightarrow> ts ! i = \<lparr>th_started = True, th_held = h, th_task = Unlock l t\<rparr> \<Longrightarrow>
    pool_step \<lparr>po_state = s, po_threads = ts\<rparr>
      \<lparr>po_state = s, po_threads = ts[i := \<lparr>th_started = True, th_held = remove1 l h, th_task = t\<rparr>]\<rparr>"
| Gets: "i < length ts \<Longrightarrow> ts ! i = \<lparr>th_started = True, th_held = h, th_task = Try_lock l t e\<rparr> \<Longrightarrow> free l ts \<Longrightarrow>
    pool_step \<lparr>po_state = s, po_threads = ts\<rparr>
      \<lparr>po_state = s, po_threads = ts[i := \<lparr>th_started = True, th_held = l # h, th_task = t\<rparr>]\<rparr>"
| Misses: "i < length ts \<Longrightarrow> ts ! i = \<lparr>th_started = True, th_held = h, th_task = Try_lock l t e\<rparr> \<Longrightarrow> \<not> free l ts \<Longrightarrow>
    pool_step \<lparr>po_state = s, po_threads = ts\<rparr>
      \<lparr>po_state = s, po_threads = ts[i := \<lparr>th_started = True, th_held = h, th_task = e\<rparr>]\<rparr>"
| Acts: "i < length ts \<Longrightarrow> ts ! i = \<lparr>th_started = True, th_held = h, th_task = Act u k\<rparr> \<Longrightarrow>
    pool_step \<lparr>po_state = s, po_threads = ts\<rparr>
      \<lparr>po_state = u s, po_threads = ts[i := \<lparr>th_started = True, th_held = h, th_task = k s\<rparr>]\<rparr>"
| Spawns: "i < length ts \<Longrightarrow> ts ! i = \<lparr>th_started = True, th_held = h, th_task = Spawn j t\<rparr> \<Longrightarrow>
    pool_step \<lparr>po_state = s, po_threads = ts\<rparr>
      \<lparr>po_state = s, po_threads =
        start_thread j (ts[i := \<lparr>th_started = True, th_held = h, th_task = t\<rparr>])\<rparr>"
| Joins: "i < length ts \<Longrightarrow> ts ! i = \<lparr>th_started = True, th_held = h, th_task = Join j t\<rparr> \<Longrightarrow> ended j ts \<Longrightarrow>
    pool_step \<lparr>po_state = s, po_threads = ts\<rparr>
      \<lparr>po_state = s, po_threads = ts[i := \<lparr>th_started = True, th_held = h, th_task = t\<rparr>]\<rparr>"

inductive_cases pool_stepE: "pool_step p q"

text \<open>Every started thread has come to its end.\<close>

definition at_rest :: "('l, 's) pool \<Rightarrow> bool" where
  "at_rest p \<longleftrightarrow> (\<forall>t\<in>set (po_threads p). th_started t \<longrightarrow> th_task t = Done)"

section \<open>Every run ends\<close>

definition subtask :: "(('l, 's) task \<times> ('l, 's) task) set" where
  "subtask = {(t, t'). (\<exists>l. t' = Lock l t) \<or> (\<exists>l. t' = Unlock l t) \<or> (\<exists>l e. t' = Try_lock l t e) \<or>
     (\<exists>l g. t' = Try_lock l g t) \<or> (\<exists>u k s. t' = Act u k \<and> t = k s) \<or> (\<exists>j. t' = Spawn j t) \<or>
     (\<exists>j. t' = Join j t)}"

lemma wf_subtask: "wf subtask"
proof (rule wfUNIVI)
  fix P :: "('l, 's) task \<Rightarrow> bool" and t
  assume "\<forall>x. (\<forall>y. (y, x) \<in> subtask \<longrightarrow> P y) \<longrightarrow> P x"
  then have step: "\<And>x. (\<And>y. (y, x) \<in> subtask \<Longrightarrow> P y) \<Longrightarrow> P x" by blast
  show "P t"
    by (induction t) (rule step; auto simp: subtask_def)+
qed

lemma map_update_same: "(map f xs)[j := f (xs ! j)] = map f xs"
  by (metis list_update_id map_update)

lemma start_thread_tasks [simp]: "map th_task (start_thread j ts) = map th_task ts"
proof -
  have "map th_task (start_thread j ts) = (map th_task ts)[j := th_task (ts ! j)]"
    by (simp add: start_thread_def map_update)
  then show ?thesis by (simp only: map_update_same)
qed

lemma subtasks [simp]:
  "(t, Lock l t) \<in> subtask" "(t, Unlock l t) \<in> subtask" "(t, Try_lock l t e) \<in> subtask"
  "(e, Try_lock l t e) \<in> subtask" "(k s, Act u k) \<in> subtask" "(t, Spawn j t) \<in> subtask"
  "(t, Join j t) \<in> subtask"
  by (auto simp: subtask_def)

lemma tasks_shrink:
  assumes "i < length ts" and "(th_task x, th_task (ts ! i)) \<in> subtask"
  shows "(map th_task (ts[i := x]), map th_task ts) \<in> listrel1 subtask"
  unfolding listrel1_iff_update
  using assms by (intro exI [of _ "th_task (ts ! i)"] exI [of _ i]) (simp add: map_update map_update_same)

lemma pool_step_tasks:
  "pool_step p q \<Longrightarrow> (map th_task (po_threads q), map th_task (po_threads p)) \<in> listrel1 subtask"
  by (induction rule: pool_step.induct) (simp_all add: tasks_shrink)

theorem pool_step_wf: "wfp (\<lambda>q p. pool_step p q)"
proof -
  have "wf (inv_image (listrel1 subtask) (\<lambda>p. map th_task (po_threads p)))"
    by (intro wf_inv_image) (simp add: wf_subtask)
  then have "wf {(q, p). pool_step p q}"
    by (rule wf_subset) (auto simp: inv_image_def dest: pool_step_tasks)
  then show ?thesis by (simp add: wfp_def)
qed

section \<open>Disciplined threads make progress\<close>

text \<open>
  For a thread at place \<open>i\<close> that has started the threads \<open>sp\<close> and holds the locks \<open>h\<close>.
\<close>

primrec disciplined :: "('l::linorder, 's) task \<Rightarrow> nat \<Rightarrow> nat set \<Rightarrow> 'l list \<Rightarrow> bool" where
  "disciplined Done i sp h \<longleftrightarrow> h = []"
| "disciplined (Lock l t) i sp h \<longleftrightarrow> (\<forall>m\<in>set h. m < l) \<and> disciplined t i sp (l # h)"
| "disciplined (Unlock l t) i sp h \<longleftrightarrow> l \<in> set h \<and> disciplined t i sp (remove1 l h)"
| "disciplined (Try_lock l t e) i sp h \<longleftrightarrow>
     (l \<notin> set h \<longrightarrow> disciplined t i sp (l # h)) \<and> disciplined e i sp h"
| "disciplined (Act u k) i sp h \<longleftrightarrow> (\<forall>s. disciplined (k s) i sp h)"
| "disciplined (Spawn j t) i sp h \<longleftrightarrow> i < j \<and> disciplined t i (insert j sp) h"
| "disciplined (Join j t) i sp h \<longleftrightarrow> h = [] \<and> i < j \<and> j \<in> sp \<and> disciplined t i sp h"

text \<open>What \<open>disciplined\<close> comes to for a closure under a lock, when nothing is held.\<close>

lemma disciplined_locked [simp]:
  "disciplined (locked l f k) i sp h \<longleftrightarrow> (\<forall>m\<in>set h. m < l) \<and> (\<forall>s. disciplined (k (fst (f s))) i sp h)"
  by (auto simp: locked_def)

definition started :: "('l, 's) thread list \<Rightarrow> nat set" where
  "started ts = {j. j < length ts \<longrightarrow> th_started (ts ! j)}"

definition thread_ok :: "nat set \<Rightarrow> nat \<Rightarrow> ('l::linorder, 's) thread \<Rightarrow> bool" where
  "thread_ok st i t \<longleftrightarrow> (\<exists>sp \<subseteq> st. disciplined (th_task t) i sp (th_held t))"

definition pool_ok :: "('l::linorder, 's) pool \<Rightarrow> bool" where
  "pool_ok p \<longleftrightarrow> (\<forall>i < length (po_threads p). thread_ok (started (po_threads p)) i (po_threads p ! i))"

lemma started_update [simp]:
  "i < length ts \<Longrightarrow> th_started (ts ! i) \<Longrightarrow> th_started x \<Longrightarrow> started (ts[i := x]) = started ts"
  by (auto simp: started_def nth_list_update)

lemma started_start_thread [simp]: "started (start_thread j ts) = insert j (started ts)"
proof -
  have "i \<in> started (start_thread j ts) \<longleftrightarrow> i = j \<or> i \<in> started ts" for i
    by (cases "i = j") (auto simp: started_def start_thread_def)
  then show ?thesis by blast
qed

lemma start_thread_length [simp]: "length (start_thread j ts) = length ts"
  by (simp add: start_thread_def)

lemma start_thread_nth [simp]:
  "th_task (start_thread j ts ! i) = th_task (ts ! i)"
  "th_held (start_thread j ts ! i) = th_held (ts ! i)"
proof -
  have "start_thread j ts ! i = (if i = j \<and> j < length ts then (ts ! i)\<lparr>th_started := True\<rparr> else ts ! i)"
    by (cases "j < length ts"; cases "i = j") (simp_all add: start_thread_def not_less list_update_beyond)
  then show "th_task (start_thread j ts ! i) = th_task (ts ! i)" "th_held (start_thread j ts ! i) = th_held (ts ! i)"
    by simp_all
qed

lemma thread_ok_start [simp]:
  "thread_ok st i (start_thread j ts ! k) = thread_ok st i (ts ! k)"
  by (simp add: thread_ok_def)

lemma thread_ok_mono: "thread_ok st i t \<Longrightarrow> st \<subseteq> st' \<Longrightarrow> thread_ok st' i t"
  by (meson order_trans thread_ok_def)

lemma thread_ok_next:
  "thread_ok st i \<lparr>th_started = True, th_held = h, th_task = Lock l t\<rparr> \<Longrightarrow>
     thread_ok st i \<lparr>th_started = True, th_held = l # h, th_task = t\<rparr>"
  "thread_ok st i \<lparr>th_started = True, th_held = h, th_task = Unlock l t\<rparr> \<Longrightarrow>
     thread_ok st i \<lparr>th_started = True, th_held = remove1 l h, th_task = t\<rparr>"
  "thread_ok st i \<lparr>th_started = True, th_held = h, th_task = Try_lock l t e\<rparr> \<Longrightarrow> l \<notin> set h \<Longrightarrow>
     thread_ok st i \<lparr>th_started = True, th_held = l # h, th_task = t\<rparr>"
  "thread_ok st i \<lparr>th_started = True, th_held = h, th_task = Try_lock l t e\<rparr> \<Longrightarrow>
     thread_ok st i \<lparr>th_started = True, th_held = h, th_task = e\<rparr>"
  "thread_ok st i \<lparr>th_started = True, th_held = h, th_task = Act u k\<rparr> \<Longrightarrow>
     thread_ok st i \<lparr>th_started = True, th_held = h, th_task = k s\<rparr>"
  "thread_ok st i \<lparr>th_started = True, th_held = h, th_task = Join j t\<rparr> \<Longrightarrow>
     thread_ok st i \<lparr>th_started = True, th_held = h, th_task = t\<rparr>"
  by (auto simp: thread_ok_def)

lemma thread_ok_spawn:
  assumes "thread_ok st i \<lparr>th_started = True, th_held = h, th_task = Spawn j t\<rparr>"
  shows "thread_ok (insert j st) i \<lparr>th_started = True, th_held = h, th_task = t\<rparr>"
proof -
  from assms obtain sp where "sp \<subseteq> st" "disciplined t i (insert j sp) h" by (auto simp: thread_ok_def)
  then show ?thesis unfolding thread_ok_def by (intro exI [of _ "insert j sp"]) auto
qed

lemma pool_okD: "pool_ok p \<Longrightarrow> i < length (po_threads p) \<Longrightarrow> po_threads p ! i = t \<Longrightarrow>
    thread_ok (started (po_threads p)) i t"
  by (auto simp: pool_ok_def)

lemma pool_ok_update:
  assumes "pool_ok \<lparr>po_state = s, po_threads = ts\<rparr>" and "i < length ts" and "th_started (ts ! i)"
    and "thread_ok (started ts) i x" and "th_started x"
  shows "pool_ok \<lparr>po_state = s', po_threads = ts[i := x]\<rparr>"
proof -
  have "thread_ok (started ts) k (ts[i := x] ! k)" if "k < length ts" for k
    using assms that by (cases "k = i") (simp_all add: pool_ok_def)
  then show ?thesis using assms(2,3,5) by (simp add: pool_ok_def)
qed

lemma pool_ok_step: "pool_step p q \<Longrightarrow> pool_ok p \<Longrightarrow> pool_ok q"
proof (induction rule: pool_step.induct)
  case (Spawns i ts h j t s)
  let ?x = "\<lparr>th_started = True, th_held = h, th_task = t\<rparr>"
  have "thread_ok (insert j (started ts)) k (ts[i := ?x] ! k)" if "k < length ts" for k
  proof (cases "k = i")
    case True
    then show ?thesis using pool_okD [OF Spawns(3), of i] Spawns(1,2) thread_ok_spawn by simp
  next
    case False
    then show ?thesis
      using pool_okD [OF Spawns(3), of k] that by (auto intro: thread_ok_mono)
  qed
  then show ?case using Spawns(1,2) by (simp add: pool_ok_def)
next
  case (Takes i ts h l t s)
  then show ?case using pool_okD [OF Takes(4), of i] by (auto intro!: pool_ok_update thread_ok_next(1))
next
  case (Releases i ts h l t s)
  then show ?case using pool_okD [OF Releases(3), of i] by (auto intro!: pool_ok_update thread_ok_next(2))
next
  case (Gets i ts h l t e s)
  have "l \<notin> set h" using Gets(1-3) nth_mem [OF Gets(1)] by (auto simp: free_def)
  then show ?case
    using Gets pool_okD [OF Gets(4), of i] thread_ok_next(3) by (auto intro!: pool_ok_update)
next
  case (Misses i ts h l t e s)
  then show ?case using pool_okD [OF Misses(4), of i] thread_ok_next(4) by (auto intro!: pool_ok_update)
next
  case (Acts i ts h u k s)
  then show ?case using pool_okD [OF Acts(3), of i] thread_ok_next(5) by (auto intro!: pool_ok_update)
next
  case (Joins i ts h j t s)
  then show ?case using pool_okD [OF Joins(4), of i] thread_ok_next(6) by (auto intro!: pool_ok_update)
qed

text \<open>
  With a lock taken anywhere, the holder of the greatest one is not waiting; with none taken, the
  last thread that has not ended is not.
\<close>

definition can_move :: "('l, 's) pool \<Rightarrow> bool" where
  "can_move p \<longleftrightarrow> (\<exists>q. pool_step p q)"

lemma thread_moves:
  assumes "i < length (po_threads p)" and "th_started (po_threads p ! i)"
    and "case th_task (po_threads p ! i) of Done \<Rightarrow> False | Lock l t \<Rightarrow> free l (po_threads p)
      | Join j t \<Rightarrow> ended j (po_threads p) | _ \<Rightarrow> True"
  shows "can_move p"
proof -
  obtain s ts where p: "p = \<lparr>po_state = s, po_threads = ts\<rparr>" by (cases p) auto
  obtain h t where th: "ts ! i = \<lparr>th_started = True, th_held = h, th_task = t\<rparr>"
    using assms(2) p by (cases "ts ! i") auto
  have i: "i < length ts" using assms(1) p by simp
  show ?thesis
  proof (cases t)
    case (Try_lock l t e)
    then show ?thesis
      using pool_step.Gets [OF i, of h l t e s] pool_step.Misses [OF i, of h l t e s] th
      unfolding can_move_def p by blast
  qed (use assms(3) i th in \<open>auto simp: can_move_def p intro: pool_step.intros [OF i]\<close>)
qed

theorem disciplined_progress:
  assumes ok: "pool_ok p" and held: "\<forall>t\<in>set (po_threads p). \<not> th_started t \<longrightarrow> th_held t = []"
  shows "at_rest p \<or> can_move p"
proof (rule disjCI)
  assume stuck: "\<not> can_move p"
  let ?ts = "po_threads p" and ?taken = "\<Union>i<length (po_threads p). set (th_held (po_threads p ! i))"
  have d: "\<exists>sp \<subseteq> started ?ts. disciplined (th_task (?ts ! i)) i sp (th_held (?ts ! i))"
    if "i < length ?ts" for i
    using ok that by (simp add: pool_ok_def thread_ok_def)
  have none: "?taken = {}"
  proof (rule ccontr)
    assume ne: "?taken \<noteq> {}"
    have fin: "finite ?taken" by blast
    then have "Max ?taken \<in> ?taken" using ne by (rule Max_in)
    then obtain i where i: "i < length ?ts" "Max ?taken \<in> set (th_held (?ts ! i))"
      by blast
    then have st: "th_started (?ts ! i)"
      using held by (metis empty_iff list.set(1) nth_mem)
    obtain sp where sp: "disciplined (th_task (?ts ! i)) i sp (th_held (?ts ! i))" using d [OF i(1)] by blast
    have "free l ?ts" if "th_task (?ts ! i) = Lock l t" for l t
    proof (rule ccontr)
      assume "\<not> free l ?ts"
      then have "l \<in> ?taken" by (auto simp: free_nth)
      then have "l \<le> Max ?taken" using fin by (simp add: Max_ge)
      moreover have "Max ?taken < l" using sp i(2) that by auto
      ultimately show False by simp
    qed
    then show False
      using thread_moves [OF i(1) st] stuck sp i(2) by (cases "th_task (?ts ! i)") auto
  qed
  then have free: "free l ?ts" for l by (auto simp: free_nth)
  show "at_rest p"
  proof (rule ccontr)
    let ?busy = "{i. i < length ?ts \<and> th_started (?ts ! i) \<and> th_task (?ts ! i) \<noteq> Done}"
    assume "\<not> at_rest p"
    then have ne: "?busy \<noteq> {}" by (auto simp: at_rest_def in_set_conv_nth)
    have fin: "finite ?busy" by simp
    let ?i = "Max ?busy"
    have i: "?i < length ?ts" "th_started (?ts ! ?i)" "th_task (?ts ! ?i) \<noteq> Done"
      using Max_in [OF fin ne] by auto
    obtain sp where sp: "sp \<subseteq> started ?ts" "disciplined (th_task (?ts ! ?i)) ?i sp (th_held (?ts ! ?i))"
      using d [OF i(1)] by blast
    have "ended j ?ts" if "th_task (?ts ! ?i) = Join j t" for j t
    proof -
      have "?i < j" "j \<in> started ?ts" using sp that by auto
      then have "j \<notin> ?busy" using Max_ge [OF fin, of j] by fastforce
      then show ?thesis using \<open>j \<in> started ?ts\<close> by (auto simp: ended_def started_def)
    qed
    then show False
      using thread_moves [OF i(1,2)] stuck i(3) free by (cases "th_task (?ts ! ?i)") auto
  qed
qed

section \<open>Locks exclude each other\<close>

text \<open>No lock is held twice; a thread that was not started holds none.\<close>

definition exclusive :: "('l, 's) pool \<Rightarrow> bool" where
  "exclusive p \<longleftrightarrow>
     (\<forall>i < length (po_threads p). distinct (th_held (po_threads p ! i)) \<and>
        (\<not> th_started (po_threads p ! i) \<longrightarrow> th_held (po_threads p ! i) = [])) \<and>
     (\<forall>i < length (po_threads p). \<forall>j < length (po_threads p). i \<noteq> j \<longrightarrow>
        set (th_held (po_threads p ! i)) \<inter> set (th_held (po_threads p ! j)) = {})"

lemma exclusive_update:
  assumes "exclusive \<lparr>po_state = s, po_threads = ts\<rparr>" and "i < length ts"
    and "distinct (th_held x)" and "th_started x"
    and "\<And>l. l \<in> set (th_held x) \<Longrightarrow> l \<in> set (th_held (ts ! i)) \<or> free l ts"
  shows "exclusive \<lparr>po_state = s', po_threads = ts[i := x]\<rparr>"
proof -
  have old: "set (th_held (ts ! j)) \<inter> set (th_held (ts ! k)) = {}"
    if "j < length ts" "k < length ts" "j \<noteq> k" for j k
    using assms(1) that by (simp add: exclusive_def)
  have new: "set (th_held x) \<inter> set (th_held (ts ! j)) = {}" if "j < length ts" "j \<noteq> i" for j
    using assms(5) old [OF assms(2) that(1)] that by (auto simp: free_nth)
  have "set (th_held (ts[i := x] ! j)) \<inter> set (th_held (ts[i := x] ! k)) = {}"
    if "j < length ts" "k < length ts" "j \<noteq> k" for j k
    using that new [of j] new [of k] old [OF that] by (cases "j = i"; cases "k = i") (simp_all add: Int_commute)
  moreover have "distinct (th_held (ts[i := x] ! j)) \<and> (\<not> th_started (ts[i := x] ! j) \<longrightarrow> th_held (ts[i := x] ! j) = [])"
    if "j < length ts" for j
    using assms(1,3,4) that by (cases "j = i") (simp_all add: exclusive_def)
  ultimately show ?thesis by (simp add: exclusive_def)
qed

lemma exclusive_start:
  assumes "exclusive \<lparr>po_state = s, po_threads = ts\<rparr>"
  shows "exclusive \<lparr>po_state = s, po_threads = start_thread j ts\<rparr>"
proof -
  have "th_started (ts ! i) \<Longrightarrow> th_started (start_thread j ts ! i)" if "i < length ts" for i
    using that by (cases "i = j") (simp_all add: start_thread_def)
  then show ?thesis using assms by (auto simp: exclusive_def)
qed

lemma exclusive_step: "pool_step p q \<Longrightarrow> exclusive p \<Longrightarrow> exclusive q"
proof (induction rule: pool_step.induct)
  case (Spawns i ts h j t s)
  then show ?case
    by (intro exclusive_start exclusive_update [OF Spawns(3)]) (auto simp: exclusive_def)
next
  case (Takes i ts h l t s)
  then have "l \<notin> set h" by (auto simp: free_nth)
  with Takes show ?case by (intro exclusive_update [OF Takes(4)]) (auto simp: exclusive_def)
next
  case (Gets i ts h l t e s)
  then have "l \<notin> set h" by (auto simp: free_nth)
  with Gets show ?case by (intro exclusive_update [OF Gets(4)]) (auto simp: exclusive_def)
next
  case (Releases i ts h l t s)
  then show ?case
    by (intro exclusive_update [OF Releases(3)]) (auto simp: exclusive_def dest: notin_set_remove1)
next
  case (Misses i ts h l t e s)
  then show ?case by (intro exclusive_update [OF Misses(4)]) (auto simp: exclusive_def)
next
  case (Acts i ts h u k s)
  then show ?case by (intro exclusive_update [OF Acts(3)]) (auto simp: exclusive_def)
next
  case (Joins i ts h j t s)
  then show ?case by (intro exclusive_update [OF Joins(4)]) (auto simp: exclusive_def)
qed

text \<open>A run of a disciplined pool ends with all started threads ended and all locks free.\<close>

lemma steps_keep:
  assumes "pool_step\<^sup>*\<^sup>* p q" and "pool_ok p" and "exclusive p"
  shows "pool_ok q \<and> exclusive q"
  using assms by (induction rule: rtranclp_induct) (auto intro: pool_ok_step exclusive_step)

lemma exclusive_unstarted:
  "exclusive p \<Longrightarrow> t \<in> set (po_threads p) \<Longrightarrow> \<not> th_started t \<Longrightarrow> th_held t = []"
  by (auto simp: exclusive_def in_set_conv_nth)

theorem never_stuck:
  assumes "pool_step\<^sup>*\<^sup>* p q" and "pool_ok p" and "exclusive p"
  shows "at_rest q \<or> can_move q"
proof -
  have "pool_ok q" "exclusive q" using steps_keep [OF assms] by simp_all
  then show ?thesis using exclusive_unstarted by (intro disciplined_progress) blast+
qed

lemma at_rest_free:
  assumes "pool_ok p" and "exclusive p" and "at_rest p"
  shows "free l (po_threads p)"
proof -
  have "th_held (po_threads p ! i) = []" if i: "i < length (po_threads p)" for i
  proof (cases "th_started (po_threads p ! i)")
    case True
    then have "th_task (po_threads p ! i) = Done" using assms(3) i by (simp add: at_rest_def)
    then show ?thesis using assms(1) i by (auto simp: pool_ok_def thread_ok_def)
  qed (use assms(2) i in \<open>simp add: exclusive_def\<close>)
  then show ?thesis by (simp add: free_nth)
qed

section \<open>The data a lock guards\<close>

text \<open>
  \<open>guard\<close> guards the part \<open>data\<close> of the state.  A task is safe when it changes the data only while
  it holds the lock, and whenever it has taken the lock with \<open>inv\<close> true of the data it has made
  \<open>inv\<close> true again before it releases it.  The second argument of \<open>safe\<close> is the data as the thread
  knows it, when it holds the lock.
\<close>

locale guarded_data =
  fixes guard :: 'l and data :: "'s \<Rightarrow> 'd" and inv :: "'d \<Rightarrow> bool"
begin

primrec safe :: "('l, 's) task \<Rightarrow> 'd option \<Rightarrow> bool" where
  "safe Done x \<longleftrightarrow> x = None"
| "safe (Lock l t) x \<longleftrightarrow> (if l = guard then x = None \<and> (\<forall>d. inv d \<longrightarrow> safe t (Some d)) else safe t x)"
| "safe (Unlock l t) x \<longleftrightarrow> (if l = guard then (\<exists>d. x = Some d \<and> inv d) \<and> safe t None else safe t x)"
| "safe (Try_lock l t e) x \<longleftrightarrow>
     (if l = guard then (x = None \<longrightarrow> (\<forall>d. inv d \<longrightarrow> safe t (Some d))) else safe t x) \<and> safe e x"
| "safe (Act u k) x \<longleftrightarrow>
     (\<forall>s. case x of None \<Rightarrow> data (u s) = data s \<and> safe (k s) None
        | Some d \<Rightarrow> data s = d \<longrightarrow> safe (k s) (Some (data (u s))))"
| "safe (Spawn j t) x \<longleftrightarrow> safe t x"
| "safe (Join j t) x \<longleftrightarrow> safe t x"

text \<open>What a thread that holds the locks \<open>h\<close> knows of the data.\<close>

definition known :: "'l list \<Rightarrow> 's \<Rightarrow> 'd option" where
  "known h s = (if guard \<in> set h then Some (data s) else None)"

lemma known_simps [simp]:
  "known (l # h) s = (if l = guard then Some (data s) else known h s)"
  "distinct h \<Longrightarrow> known (remove1 l h) s = (if l = guard then None else known h s)"
  "guard \<notin> set h \<Longrightarrow> known h s = None" "guard \<in> set h \<Longrightarrow> known h s = Some (data s)"
  by (simp_all add: known_def)

definition pool_safe :: "('l, 's) pool \<Rightarrow> bool" where
  "pool_safe p \<longleftrightarrow>
     (\<forall>i < length (po_threads p).
        safe (th_task (po_threads p ! i)) (known (th_held (po_threads p ! i)) (po_state p))) \<and>
     (free guard (po_threads p) \<longrightarrow> inv (data (po_state p)))"

text \<open>A move of thread \<open>i\<close> that changes the data only if \<open>i\<close> holds the guard.\<close>

lemma pool_safe_move:
  assumes p: "pool_safe \<lparr>po_state = s, po_threads = ts\<rparr>" and ex: "exclusive \<lparr>po_state = s, po_threads = ts\<rparr>"
    and i: "i < length ts" and new: "safe (th_task x) (known (th_held x) s')"
    and data: "guard \<notin> set (th_held (ts ! i)) \<Longrightarrow> data s' = data s"
    and free: "free guard (ts[i := x]) \<Longrightarrow> inv (data s')"
  shows "pool_safe \<lparr>po_state = s', po_threads = ts[i := x]\<rparr>"
proof -
  have "known (th_held (ts ! j)) s' = known (th_held (ts ! j)) s" if "j < length ts" "j \<noteq> i" for j
  proof (cases "guard \<in> set (th_held (ts ! j))")
    case True
    then have "guard \<notin> set (th_held (ts ! i))" using ex i that by (fastforce simp: exclusive_def)
    then show ?thesis using True data by simp
  qed simp
  then have "safe (th_task (ts[i := x] ! j)) (known (th_held (ts[i := x] ! j)) s')" if "j < length ts" for j
    using p new that by (cases "j = i") (simp_all add: pool_safe_def)
  then show ?thesis using free by (simp add: pool_safe_def)
qed

lemma free_updateD: "i < length ts \<Longrightarrow> free l (ts[i := x]) \<Longrightarrow> l \<notin> set (th_held x)"
  by (force simp: free_nth nth_list_update)

lemma free_update:
  assumes "i < length ts" and "free l (ts[i := x])"
    and "l \<in> set (th_held (ts ! i)) \<Longrightarrow> l \<in> set (th_held x)"
  shows "free l ts"
proof -
  have "l \<notin> set (th_held (ts ! j))" if "j < length ts" for j
    using assms free_updateD [OF assms(1,2)] that
    by (cases "j = i") (auto simp: free_nth nth_list_update)
  then show ?thesis by (simp add: free_nth)
qed

lemma pool_safe_start: "pool_safe \<lparr>po_state = s, po_threads = start_thread j ts\<rparr> =
    pool_safe \<lparr>po_state = s, po_threads = ts\<rparr>"
  by (simp add: pool_safe_def free_nth)

lemma pool_safeD:
  assumes "pool_safe \<lparr>po_state = s, po_threads = ts\<rparr>"
  shows "i < length ts \<Longrightarrow> safe (th_task (ts ! i)) (known (th_held (ts ! i)) s)"
    and "free guard ts \<Longrightarrow> inv (data s)"
  using assms by (simp_all add: pool_safe_def)

lemma pool_safe_step: "pool_step p q \<Longrightarrow> exclusive p \<Longrightarrow> pool_safe p \<Longrightarrow> pool_safe q"
proof (induction rule: pool_step.induct)
  case (Takes i ts h l t s)
  note inv = pool_safeD [OF Takes(5)]
  have "guard \<notin> set h" if "l = guard" using that Takes(1,2,3) by (auto simp: free_nth)
  then have "safe t (known (l # h) s)"
    using Takes(2,3) inv(1) [OF Takes(1)] inv(2) by (auto split: if_splits)
  moreover have "inv (data s)" if "free guard (ts[i := \<lparr>th_started = True, th_held = l # h, th_task = t\<rparr>])"
    using inv(2) free_update [OF Takes(1) that] Takes(2) by simp
  ultimately show ?case by (intro pool_safe_move [OF Takes(5,4,1)]) simp_all
next
  case (Releases i ts h l t s)
  note inv = pool_safeD [OF Releases(4)]
  have d: "distinct h" using Releases(1,2,3) by (auto simp: exclusive_def)
  show ?case
  proof (rule pool_safe_move [OF Releases(4,3,1)])
    show "safe (th_task \<lparr>th_started = True, th_held = remove1 l h, th_task = t\<rparr>)
        (known (th_held \<lparr>th_started = True, th_held = remove1 l h, th_task = t\<rparr>) s)"
      using inv(1) [OF Releases(1)] Releases(2) d by (auto split: if_splits)
    assume f: "free guard (ts[i := \<lparr>th_started = True, th_held = remove1 l h, th_task = t\<rparr>])"
    show "inv (data s)"
    proof (cases "guard \<in> set h")
      case True
      with free_updateD [OF Releases(1) f] d have "l = guard" by (cases "l = guard") (auto simp: in_set_remove1)
      then show ?thesis using inv(1) [OF Releases(1)] Releases(2) True by auto
    next
      case False
      then show ?thesis using inv(2) free_update [OF Releases(1) f] Releases(2) by simp
    qed
  qed simp
next
  case (Gets i ts h l t e s)
  note inv = pool_safeD [OF Gets(5)]
  have "guard \<notin> set h" if "l = guard" using that Gets(1,2,3) by (auto simp: free_nth)
  then have "safe t (known (l # h) s)"
    using Gets(2,3) inv(1) [OF Gets(1)] inv(2) by (auto split: if_splits)
  moreover have "inv (data s)" if "free guard (ts[i := \<lparr>th_started = True, th_held = l # h, th_task = t\<rparr>])"
    using inv(2) free_update [OF Gets(1) that] Gets(2) by simp
  ultimately show ?case by (intro pool_safe_move [OF Gets(5,4,1)]) simp_all
next
  case (Misses i ts h l t e s)
  note inv = pool_safeD [OF Misses(5)]
  from Misses inv(1) [OF Misses(1)] inv(2) show ?case
    by (intro pool_safe_move [OF Misses(5,4,1)]) (auto dest: free_updateD free_update)
next
  case (Acts i ts h u k s)
  note inv = pool_safeD [OF Acts(4)]
  show ?case
  proof (cases "guard \<in> set h")
    case True
    with Acts inv(1) [OF Acts(1)] show ?thesis
      by (intro pool_safe_move [OF Acts(4,3,1)]) (auto dest: free_updateD)
  next
    case False
    with Acts inv(1) [OF Acts(1)] inv(2) show ?thesis
      by (intro pool_safe_move [OF Acts(4,3,1)]) (auto dest: free_update)
  qed
next
  case (Spawns i ts h j t s)
  note inv = pool_safeD [OF Spawns(4)]
  from Spawns inv(1) [OF Spawns(1)] inv(2) show ?case
    unfolding pool_safe_start
    by (intro pool_safe_move [OF Spawns(4,3,1)]) (auto dest: free_updateD free_update)
next
  case (Joins i ts h j t s)
  note inv = pool_safeD [OF Joins(5)]
  from Joins inv(1) [OF Joins(1)] inv(2) show ?case
    by (intro pool_safe_move [OF Joins(5,4,1)]) (auto dest: free_updateD free_update)
qed

text \<open>Whatever the threads do: whenever the guard is free, the invariant holds.\<close>

theorem guarded_invariant:
  assumes "pool_step\<^sup>*\<^sup>* p q" and "exclusive p" and "pool_safe p" and "free guard (po_threads q)"
  shows "inv (data (po_state q))"
proof -
  have "exclusive q \<and> pool_safe q"
    using assms(1-3) by (induction rule: rtranclp_induct) (auto intro: exclusive_step pool_safe_step)
  then show ?thesis using assms(4) by (simp add: pool_safe_def)
qed

lemma safe_locked_guard:
  "safe (locked guard f k) None \<longleftrightarrow>
     (\<forall>s. inv (data s) \<longrightarrow> inv (data (snd (f s))) \<and> safe (k (fst (f s))) None)"
  by (auto simp: locked_def)

lemma safe_locked_other:
  "l \<noteq> guard \<Longrightarrow> safe (locked l f k) None \<longleftrightarrow>
     (\<forall>s. data (snd (f s)) = data s \<and> safe (k (fst (f s))) None)"
  by (auto simp: locked_def)

end

end
