(* ===== verification/Lock_Programs.thy ===== *)
theory Lock_Programs
  imports System Tasks
begin

text \<open>
  The operations as the threads run them, lock by lock.  Theories Actions, Inbound, Lifecycle and
  Chat_Module give what an operation computes when nothing runs in between; here each is a task
  (theory Tasks) that takes and releases the program's locks where the code does: a closure given
  to \<open>with_display\<close>, \<open>with_display_mut\<close> or \<open>with_client\<close> runs under its lock, a \<open>tracing\<close> event takes
  the run log's lock to write its line, \<open>install_with\<close> keeps the module lock over \<open>initialize\<close>.  The
  continuation of an operation gets its result, so a task reads in the order of the source.

  The shared state is \<open>system\<close> of theory System: the world, and the session a shutdown has taken out
  of the lock.  A bridge's own state is kept in its session record; \<open>initialize\<close> puts the record in
  place before it starts the workers, which no holder of the module lock can tell from doing so
  afterwards.
\<close>

section \<open>The locks\<close>

text \<open>
  In the order in which they are nested: the two \<open>Once\<close> guards of \<open>init\<close>, \<open>ModuleHandle::inner\<close>,
  \<open>OWN_NODE_PRESET\<close>, \<open>DISPLAY\<close>, \<open>LOG_PATH\<close>, and the mutex inside \<open>RunLog\<close>.
\<close>

datatype lock = Hook_once | Logging_once | Module_lock | Preset_lock | Display_lock | Log_path_lock
  | Run_log_lock

fun rank :: "lock \<Rightarrow> nat" where
  "rank Hook_once = 0"
| "rank Logging_once = 1"
| "rank Module_lock = 2"
| "rank Preset_lock = 3"
| "rank Display_lock = 4"
| "rank Log_path_lock = 5"
| "rank Run_log_lock = 6"

lemma rank_inject [simp]: "rank a = rank b \<longleftrightarrow> a = b"
  by (cases a; cases b) simp_all

instantiation lock :: linorder
begin

definition less_eq_lock :: "lock \<Rightarrow> lock \<Rightarrow> bool" where
  "a \<le> b \<longleftrightarrow> rank a \<le> rank b"

definition less_lock :: "lock \<Rightarrow> lock \<Rightarrow> bool" where
  "a < b \<longleftrightarrow> rank a < rank b"

instance
  by standard (auto simp: less_eq_lock_def less_lock_def simp flip: rank_inject)

end

type_synonym ('c, 'ms) prog = "(lock, ('c, 'ms) system) task"

section \<open>Sections under a lock\<close>

definition on_world :: "(('c, 'ms) world \<Rightarrow> ('c, 'ms) world) \<Rightarrow> ('c, 'ms) system \<Rightarrow> ('c, 'ms) system" where
  "on_world f s = s\<lparr>sy_world := f (sy_world s)\<rparr>"

definition in_world ::
  "(('c, 'ms) world \<Rightarrow> 'r \<times> ('c, 'ms) world) \<Rightarrow> ('c, 'ms) system \<Rightarrow> 'r \<times> ('c, 'ms) system" where
  "in_world f s = (fst (f (sy_world s)), on_world (\<lambda>w. snd (f w)) s)"

text \<open>A \<open>tracing\<close> event: the subscriber's file layer locks the run log for its line.\<close>

definition log_task :: "level \<Rightarrow> str \<Rightarrow> ('c, 'ms) prog \<Rightarrow> ('c, 'ms) prog" where
  "log_task l line k = Lock Run_log_lock (run (on_world (log_at l line)) (Unlock Run_log_lock k))"

definition emit_task :: "event \<Rightarrow> ('c, 'ms) prog \<Rightarrow> ('c, 'ms) prog" where
  "emit_task e k = run (on_world (emit e)) k"

definition hand_over_task :: "delivery_call \<Rightarrow> ('c, 'ms) prog \<Rightarrow> ('c, 'ms) prog" where
  "hand_over_task c k = run (on_world (hand_over c)) k"

definition client_task ::
  "('c, 'r) client_call \<Rightarrow> (core_error + 'r \<Rightarrow> ('c, 'ms) prog) \<Rightarrow> ('c, 'ms) prog" where
  "client_task f k = locked Module_lock (in_world (with_client f)) k"

definition display_task ::
  "(('c, 'ms) world \<Rightarrow> 'r \<times> ('c, 'ms) world) \<Rightarrow> ('r \<Rightarrow> ('c, 'ms) prog) \<Rightarrow> ('c, 'ms) prog" where
  "display_task f k = locked Display_lock (in_world f) k"

definition check_live_task :: "str \<Rightarrow> (core_error + unit \<Rightarrow> ('c, 'ms) prog) \<Rightarrow> ('c, 'ms) prog" where
  "check_live_task convo_id k = display_task (\<lambda>w. (check_live convo_id w, w)) k"

section \<open>Conversations\<close>

text \<open>A session goes into the display and its row into \<open>chat.db\<close>, in one closure.\<close>

definition enter_session ::
  "('c, 'ms) env \<Rightarrow> str \<Rightarrow> chat_session \<Rightarrow> ('c, 'ms) world \<Rightarrow> (core_error + unit) \<times> ('c, 'ms) world" where
  "enter_session env chat_id session w =
     (let w = with_display_mut (update_chats (hm_insert chat_id session)) w
      in case persist_chat env chat_id (w_display w) of
           Inl e \<Rightarrow> (Inl e, w)
         | Inr d \<Rightarrow> (Inr (), with_display_mut (\<lambda>_. d) w))"

definition create_conversation_task ::
  "('c, 'ms) env \<Rightarrow> str \<Rightarrow> (core_error + str \<Rightarrow> ('c, 'ms) prog) \<Rightarrow> ('c, 'ms) prog" where
  "create_conversation_task env peer_address k =
     client_task (ca_create_direct_conversation (e_client env) peer_address) (\<lambda>r.
       case flatten r of
         Inl e \<Rightarrow> k (Inl e)
       | Inr chat_id \<Rightarrow>
           log_task INFO (''created direct conversation '' @ chat_id)
           (display_task (enter_session env chat_id
              (new_session chat_id Direct None None (Some peer_address))) (\<lambda>r.
            case r of
              Inl e \<Rightarrow> k (Inl e)
            | Inr _ \<Rightarrow> emit_task (Conversation_created chat_id True (short_label chat_id)
                (kind_as_str Direct) [] []) (k (Inr chat_id)))))"

definition create_group_conversation_task ::
  "('c, 'ms) env \<Rightarrow> str \<Rightarrow> str \<Rightarrow> (core_error + str \<Rightarrow> ('c, 'ms) prog) \<Rightarrow> ('c, 'ms) prog" where
  "create_group_conversation_task env name desc k =
     client_task (ca_create_group_conversation (e_client env) [] (name, desc)) (\<lambda>r.
       case flatten r of
         Inl e \<Rightarrow> k (Inl e)
       | Inr chat_id \<Rightarrow>
           log_task INFO (''created group conversation '' @ chat_id)
           (display_task (enter_session env chat_id
              (new_session chat_id Group (non_empty name) (non_empty desc) None)) (\<lambda>r.
            case r of
              Inl e \<Rightarrow> k (Inl e)
            | Inr _ \<Rightarrow> emit_task (Conversation_created chat_id True (short_label chat_id)
                (kind_as_str Group) name desc) (k (Inr chat_id)))))"

definition add_group_member_task ::
  "('c, 'ms) env \<Rightarrow> str \<Rightarrow> str \<Rightarrow> (core_error + unit \<Rightarrow> ('c, 'ms) prog) \<Rightarrow> ('c, 'ms) prog" where
  "add_group_member_task env convo_id peer_address k =
     check_live_task convo_id (\<lambda>live. case live of
       Inl e \<Rightarrow> k (Inl e)
     | Inr _ \<Rightarrow>
         client_task (ca_add_group_participants (e_client env) convo_id [peer_address]) (\<lambda>r.
           case flatten r of
             Inl e \<Rightarrow> k (Inl e)
           | Inr _ \<Rightarrow> emit_task (Conversation_updated convo_id) (k (Inr ()))))"

definition list_group_members_task ::
  "('c, 'ms) env \<Rightarrow> str \<Rightarrow> (group_member list \<Rightarrow> ('c, 'ms) prog) \<Rightarrow> ('c, 'ms) prog" where
  "list_group_members_task env convo_id k =
     check_live_task convo_id (\<lambda>live. case live of
       Inl e \<Rightarrow> k []
     | Inr _ \<Rightarrow> client_task (members_and_pending env convo_id) (\<lambda>roster. case roster of
         Inr (Inr (committed, invited)) \<Rightarrow>
           k (map (\<lambda>(member, pending). \<lparr>gm_address = member, gm_pending = pending\<rparr>)
                (map (\<lambda>member. (member, False)) committed @ map (\<lambda>member. (member, True)) invited))
       | Inr (Inl e) \<Rightarrow> log_task WARN (''list_group_members failed: '' @ e) (k [])
       | Inl e \<Rightarrow> log_task WARN (''list_group_members: '' @ core_error_text env e) (k [])))"

text \<open>The closure of \<open>send_message\<close> that records what was sent.\<close>

definition record_sent ::
  "('c, 'ms) env \<Rightarrow> str \<Rightarrow> bytes \<Rightarrow> ('c, 'ms) world \<Rightarrow> (core_error + unit) \<times> ('c, 'ms) world" where
  "record_sent env convo_id content w =
     (let (recorded, d) = chat_record_message env
            (chat_message convo_id Sent (now_ms (e_clock env)) content) False (w_display w)
      in (recorded, with_display_mut (\<lambda>_. d) w))"

definition send_message_task ::
  "('c, 'ms) env \<Rightarrow> str \<Rightarrow> str \<Rightarrow> (core_error + unit \<Rightarrow> ('c, 'ms) prog) \<Rightarrow> ('c, 'ms) prog" where
  "send_message_task env convo_id content k =
     check_live_task convo_id (\<lambda>live. case live of
       Inl e \<Rightarrow> k (Inl e)
     | Inr _ \<Rightarrow> client_task (ca_send_message (e_client env) convo_id content) (\<lambda>r.
         case flatten r of
           Inl e \<Rightarrow> k (Inl e)
         | Inr _ \<Rightarrow>
             log_task INFO (''sent '' @ dec (length content) @ '' bytes to '' @ convo_id)
             (display_task (record_sent env convo_id content) (\<lambda>r. case r of
                Inl e \<Rightarrow> k (Inl e)
              | Inr _ \<Rightarrow> emit_task (Message_sent convo_id content (as_i64 (now_ms (e_clock env))))
                  (k (Inr ()))))))"

definition rename_section ::
  "('c, 'ms) env \<Rightarrow> str \<Rightarrow> str \<Rightarrow> ('c, 'ms) world \<Rightarrow> (core_error + unit) \<times> ('c, 'ms) world" where
  "rename_section env convo_id nickname w =
     (case hm_get (chats (w_display w)) convo_id of
        None \<Rightarrow> (Inl NotFound, w)
      | Some session \<Rightarrow> enter_session env convo_id
          (session\<lparr>cs_nickname := if nickname = [] then None else Some nickname\<rparr>) w)"

definition set_conversation_nickname_task ::
  "('c, 'ms) env \<Rightarrow> str \<Rightarrow> str \<Rightarrow> (core_error + unit \<Rightarrow> ('c, 'ms) prog) \<Rightarrow> ('c, 'ms) prog" where
  "set_conversation_nickname_task env convo_id nickname k =
     display_task (rename_section env convo_id nickname) (\<lambda>r. case r of
       Inl e \<Rightarrow> k (Inl e)
     | Inr _ \<Rightarrow> emit_task (Conversation_updated convo_id) (k (Inr ())))"

definition delete_section ::
  "('c, 'ms) env \<Rightarrow> str \<Rightarrow> ('c, 'ms) world \<Rightarrow> (core_error + unit) \<times> ('c, 'ms) world" where
  "delete_section env convo_id w =
     (let d = w_display w in
      if \<not> hm_contains (chats d) convo_id then (Inl NotFound, w)
      else (case d_chat_db d of
         None \<Rightarrow> (Inl NotInit, w)
       | Some chat_db \<Rightarrow>
           let (r, chat_db) = delete_chat (e_store env) (e_fault env) chat_db convo_id;
               w = with_display_mut (\<lambda>d. d\<lparr>d_chat_db := Some chat_db\<rparr>) w
           in case r of
                Inl e \<Rightarrow> (Inl (Store e), w)
              | Inr _ \<Rightarrow> (Inr (), with_display_mut (\<lambda>d.
                  d\<lparr>d_state := (d_state d)\<lparr>as_chats := hm_remove convo_id (chats d),
                      as_deleted := insert convo_id (as_deleted (d_state d))\<rparr>\<rparr>) w)))"

definition delete_conversation_task ::
  "('c, 'ms) env \<Rightarrow> str \<Rightarrow> (core_error + unit \<Rightarrow> ('c, 'ms) prog) \<Rightarrow> ('c, 'ms) prog" where
  "delete_conversation_task env convo_id k =
     display_task (delete_section env convo_id) (\<lambda>r. case r of
       Inl e \<Rightarrow> k (Inl e)
     | Inr _ \<Rightarrow> emit_task (Conversation_deleted convo_id) (k (Inr ())))"

fun serve_task ::
  "('c, 'ms) env \<Rightarrow> request \<Rightarrow> (str + json \<Rightarrow> ('c, 'ms) prog) \<Rightarrow> ('c, 'ms) prog" where
  "serve_task env (Set_installation_name name) k =
     display_task (set_installation_name env name) (\<lambda>r. k (map_err (core_error_text env) (map_ok (\<lambda>_. JNull) r)))"
| "serve_task env (Create_conversation peer_address) k =
     create_conversation_task env peer_address (\<lambda>r. k (map_err (core_error_text env) (map_ok JStr r)))"
| "serve_task env (Create_group_conversation name desc) k =
     create_group_conversation_task env name desc (\<lambda>r. k (map_err (core_error_text env) (map_ok JStr r)))"
| "serve_task env (Add_group_member convo_id peer_address) k =
     add_group_member_task env convo_id peer_address
       (\<lambda>r. k (map_err (core_error_text env) (map_ok (\<lambda>_. JNull) r)))"
| "serve_task env (Send_message convo_id content) k =
     send_message_task env convo_id content (\<lambda>r. k (map_err (core_error_text env) (map_ok (\<lambda>_. JNull) r)))"
| "serve_task env (Set_conversation_nickname convo_id nickname) k =
     set_conversation_nickname_task env convo_id nickname
       (\<lambda>r. k (map_err (core_error_text env) (map_ok (\<lambda>_. JNull) r)))"
| "serve_task env (Delete_conversation convo_id) k =
     delete_conversation_task env convo_id (\<lambda>r. k (map_err (core_error_text env) (map_ok (\<lambda>_. JNull) r)))"

text \<open>The getters read under the display lock; \<open>health\<close> takes none.\<close>

fun answer_task ::
  "('c, 'ms) env \<Rightarrow> query \<Rightarrow> (reply \<Rightarrow> ('c, 'ms) prog) \<Rightarrow> ('c, 'ms) prog" where
  "answer_task env Health k = k (Flag health)"
| "answer_task env (List_group_members convo_id) k = list_group_members_task env convo_id (\<lambda>ms. k (Members ms))"
| "answer_task env Get_installation_name k = display_task (\<lambda>w. (Text (installation_name w), w)) k"
| "answer_task env Get_address k = display_task (\<lambda>w. (Text (get_address w), w)) k"
| "answer_task env List_conversations k = display_task (\<lambda>w. (Conversations (list_conversations w), w)) k"
| "answer_task env (Get_messages convo_id) k = display_task (\<lambda>w. (Messages (get_messages convo_id w), w)) k"
| "answer_task env Get_status k = display_task (\<lambda>w. (Status_reply (status w), w)) k"

section \<open>The delivery state\<close>

text \<open>These run while the display lock is held; the line they log takes the run log's lock inside it.\<close>

definition set_delivery_state_task ::
  "delivery_state_kind \<Rightarrow> str \<Rightarrow> ('c, 'ms) prog \<Rightarrow> ('c, 'ms) prog" where
  "set_delivery_state_task st detail k = look (\<lambda>s.
     if ds_state (delivery_of (sy_world s)) = st \<and> ds_detail (delivery_of (sy_world s)) = detail then k
     else
       run (on_world (update_delivery (\<lambda>ds. ds\<lparr>ds_state := st, ds_detail := detail\<rparr>)))
       (log_task (if st = Error then ERROR else INFO)
          (if st = Error then ''delivery failed: '' @ detail
           else if detail = [] then ''delivery is '' @ state_as_str st
           else ''delivery is '' @ state_as_str st @ '': '' @ detail)
        (run (on_world (\<lambda>w. emit (Delivery_state_changed (state_as_str st) detail
            (ds_adopted (delivery_of w))) w)) k)))"

definition record_node_started_task :: "bool \<Rightarrow> str \<Rightarrow> ('c, 'ms) prog \<Rightarrow> ('c, 'ms) prog" where
  "record_node_started_task success msg k = look (\<lambda>s.
     if \<not> ds_starting (delivery_of (sy_world s)) then k
     else run (on_world (update_delivery (\<lambda>ds. ds\<lparr>ds_starting := False\<rparr>)))
       (if success
        then run (on_world (update_delivery (\<lambda>ds. ds\<lparr>ds_started := True\<rparr>)))
               (set_delivery_state_task Online [] k)
        else set_delivery_state_task Error (''delivery_module.start failed: '' @ msg) k))"

definition set_delivery_error_task :: "str \<Rightarrow> ('c, 'ms) prog \<Rightarrow> ('c, 'ms) prog" where
  "set_delivery_error_task detail k =
     Lock Display_lock (set_delivery_state_task Error detail (Unlock Display_lock k))"

definition claim_delivery_retry_task :: "(bool \<Rightarrow> ('c, 'ms) prog) \<Rightarrow> ('c, 'ms) prog" where
  "claim_delivery_retry_task k = Lock Display_lock (look (\<lambda>s.
     if ds_state (delivery_of (sy_world s)) \<noteq> Error \<or> ds_started (delivery_of (sy_world s))
     then Unlock Display_lock (k False)
     else set_delivery_state_task Initialising [] (Unlock Display_lock (k True))))"

section \<open>The callbacks of delivery_module\<close>

definition start_node_task :: "('c, 'ms) prog \<Rightarrow> ('c, 'ms) prog" where
  "start_node_task k =
     display_task (\<lambda>w. ((), update_delivery (\<lambda>ds. ds\<lparr>ds_starting := True\<rparr>) w)) (\<lambda>_.
       hand_over_task Start k)"

fun complete_task ::
  "('c, 'ms) env \<Rightarrow> delivery_call \<Rightarrow> str + json \<Rightarrow> ('c, 'ms) prog \<Rightarrow> ('c, 'ms) prog" where
  "complete_task env (Create_node config preset) res k =
     (case delivery_outcome (e_render env) res of
        Inr _ \<Rightarrow> locked Preset_lock (in_world (\<lambda>w. ((), w\<lparr>w_own_node_preset := Some preset\<rparr>)))
                   (\<lambda>_. start_node_task k)
      | Inl reason \<Rightarrow> hand_over_task (Get_node_info ''Version'' preset reason) k)"
| "complete_task env (Get_node_info item preset reason) res k =
     (case delivery_outcome (e_render env) res of
        Inr _ \<Rightarrow>
          locked Preset_lock (in_world (\<lambda>w. (w_own_node_preset w \<noteq> Some preset, w))) (\<lambda>adopted.
            let joined = display_task (\<lambda>w. ((), update_delivery (\<lambda>ds. ds\<lparr>ds_adopted := adopted\<rparr>) w))
                  (\<lambda>_. start_node_task k)
            in if adopted then log_task WARN
                 (''delivery_module already has a node this module did not create with preset ''
                  @ preset @ ''; joining it with the settings it was created with'') joined
               else joined)
      | Inl _ \<Rightarrow> set_delivery_error_task (''delivery_module.createNode failed: '' @ reason) k)"
| "complete_task env Start res k =
     (case delivery_outcome (e_render env) res of
        Inr _ \<Rightarrow> k
      | Inl e \<Rightarrow> Lock Display_lock
          (run (on_world (update_delivery (\<lambda>ds. ds\<lparr>ds_starting := False\<rparr>)))
            (set_delivery_state_task Error (''delivery_module.start failed: '' @ e)
              (Unlock Display_lock k))))"
| "complete_task env (Send topic data) res k =
     (case delivery_outcome (e_render env) res of
        Inr _ \<Rightarrow> k
      | Inl e \<Rightarrow> log_task ERROR (''delivery_module.send failed: '' @ e) k)"
| "complete_task env (Subscribe topic) res k =
     (case delivery_outcome (e_render env) res of
        Inr _ \<Rightarrow> k
      | Inl e \<Rightarrow> log_task ERROR (''delivery_module.subscribe failed: '' @ e) k)"

text \<open>A callback comes once its call has been handed over, and once only.\<close>

definition callback_task :: "('c, 'ms) env \<Rightarrow> delivery_call \<Rightarrow> str + json \<Rightarrow> ('c, 'ms) prog" where
  "callback_task env call res =
     Act (on_world (\<lambda>w. w\<lparr>w_pending := remove1 call (w_pending w)\<rparr>))
       (\<lambda>s. if call \<in> set (w_pending (sy_world s)) then complete_task env call res Done else Done)"

section \<open>The event consumer\<close>

definition group_details_task ::
  "('c, 'ms) env \<Rightarrow> str \<Rightarrow> conversation_kind \<Rightarrow> (str option \<times> str option \<Rightarrow> ('c, 'ms) prog) \<Rightarrow>
     ('c, 'ms) prog" where
  "group_details_task env convo_id kind k =
     (if kind = Group then
        client_task (ca_group_metadata (e_client env) convo_id) (\<lambda>r. case r of
          Inr (Inr (n, d)) \<Rightarrow> k (non_empty n, non_empty d)
        | Inr (Inl e) \<Rightarrow> log_task WARN (''group_metadata failed: '' @ e) (k (None, None))
        | Inl e \<Rightarrow> log_task WARN (''group_metadata: '' @ core_error_text env e) (k (None, None)))
      else k (None, None))"

definition record_conversation_started_task ::
  "('c, 'ms) env \<Rightarrow> str \<Rightarrow> conversation_kind \<Rightarrow> ('c, 'ms) prog \<Rightarrow> ('c, 'ms) prog" where
  "record_conversation_started_task env convo_id kind k =
     group_details_task env convo_id kind (\<lambda>(name, description).
       Lock Display_lock (look (\<lambda>s.
         if convo_id \<in> as_deleted (d_state (w_display (sy_world s))) then Unlock Display_lock k
         else case hm_get (chats (w_display (sy_world s))) convo_id of
           Some session \<Rightarrow>
             if cs_history_only session
             then run (on_world (with_display_mut (update_chats
                    (hm_insert convo_id (session\<lparr>cs_history_only := False\<rparr>)))))
                    (emit_task (Conversation_updated convo_id) (Unlock Display_lock k))
             else Unlock Display_lock k
         | None \<Rightarrow>
             run (on_world (with_display_mut (update_chats (hm_insert convo_id
               (new_session convo_id kind name description None)))))
             (emit_task (Conversation_created convo_id False (short_label convo_id)
                (kind_as_str kind) (unwrap_or name []) (unwrap_or description []))
              (Act (on_world (\<lambda>w. case persist_chat env convo_id (w_display w) of
                      Inr d \<Rightarrow> with_display_mut (\<lambda>_. d) w | Inl e \<Rightarrow> w))
                 (\<lambda>s. case persist_chat env convo_id (w_display (sy_world s)) of
                    Inr d \<Rightarrow> Unlock Display_lock k
                  | Inl e \<Rightarrow> log_task ERROR
                      (''saving a conversation failed after it started: '' @ core_error_text env e)
                      (Unlock Display_lock k)))))))"

text \<open>The part of \<open>record_message_received\<close> between its two log lines.\<close>

definition record_inbound ::
  "('c, 'ms) env \<Rightarrow> str \<Rightarrow> bytes \<Rightarrow> str \<Rightarrow> str \<Rightarrow> ('c, 'ms) world \<Rightarrow> (core_error + unit) \<times> ('c, 'ms) world" where
  "record_inbound env convo_id content account installation w =
     (let (chat_changed, session) = inbound_session convo_id account (w_display w);
          (recorded, d) = chat_record_message env
             (inbound_message env convo_id content account installation) chat_changed
             (update_chats (hm_insert convo_id session) (w_display w))
      in (recorded, with_display_mut (\<lambda>_. d) w))"

definition record_message_received_task ::
  "('c, 'ms) env \<Rightarrow> str \<Rightarrow> bytes \<Rightarrow> str \<Rightarrow> str \<Rightarrow> ('c, 'ms) prog \<Rightarrow> ('c, 'ms) prog" where
  "record_message_received_task env convo_id content account installation k =
     (let announce = emit_task (Message_received convo_id (from_utf8_lossy content)
            (as_i64 (now_ms (e_clock env))) account) (Unlock Display_lock k)
      in Lock Display_lock (look (\<lambda>s.
           if convo_id \<in> as_deleted (d_state (w_display (sy_world s))) then Unlock Display_lock k
           else log_task INFO (''received '' @ dec (length content) @ '' bytes in '' @ convo_id
                  @ '' from '' @ short_label account)
             (Act (\<lambda>s. snd (in_world (record_inbound env convo_id content account installation) s))
                (\<lambda>s. case fst (record_inbound env convo_id content account installation (sy_world s)) of
                   Inl e \<Rightarrow> log_task ERROR
                     (''recording an inbound message failed: '' @ core_error_text env e) announce
                 | Inr _ \<Rightarrow> announce)))))"

definition record_members_changed_task :: "str \<Rightarrow> ('c, 'ms) prog \<Rightarrow> ('c, 'ms) prog" where
  "record_members_changed_task convo_id k = Lock Display_lock (look (\<lambda>s.
     if convo_id \<in> as_deleted (d_state (w_display (sy_world s)))
        \<or> \<not> hm_contains (chats (w_display (sy_world s))) convo_id
     then Unlock Display_lock k
     else emit_task (Members_changed convo_id) (Unlock Display_lock k)))"

fun handle_event_task :: "('c, 'ms) env \<Rightarrow> client_event \<Rightarrow> ('c, 'ms) prog \<Rightarrow> ('c, 'ms) prog" where
  "handle_event_task env (ConversationStarted convo_id cls) k =
     record_conversation_started_task env convo_id (kind_for_class cls) k"
| "handle_event_task env (MessageReceived convo_id content account signer) k =
     record_message_received_task env convo_id content account signer k"
| "handle_event_task env (ConversationMembersChanged convo_id) k = record_members_changed_task convo_id k"
| "handle_event_task env (InboundError msg) k = log_task WARN (''inbound error: '' @ msg) k"
| "handle_event_task env OtherEvent k = k"

fun events_task :: "('c, 'ms) env \<Rightarrow> (moment \<times> client_event) list \<Rightarrow> ('c, 'ms) prog" where
  "events_task env [] = Done"
| "events_task env ((mo, evt) # evts) = handle_event_task (at env mo) evt (events_task env evts)"

section \<open>The bridge\<close>

text \<open>The session's bridge: of the installed session, or of the one being shut down.\<close>

definition the_bridge :: "('c, 'ms) system \<Rightarrow> bridge option" where
  "the_bridge s = Option.bind
     (case sy_closing s of Some ms \<Rightarrow> Some ms | None \<Rightarrow> mh_inner (w_module (sy_world s))) ms_inbound_thread"

definition over_bridge :: "(bridge \<Rightarrow> bridge) \<Rightarrow> ('c, 'ms) system \<Rightarrow> ('c, 'ms) system" where
  "over_bridge f s =
     (let over = map_option (\<lambda>ms. ms\<lparr>ms_inbound_thread := map_option f (ms_inbound_thread ms)\<rparr>) in
      case sy_closing s of
        Some _ \<Rightarrow> s\<lparr>sy_closing := over (sy_closing s)\<rparr>
      | None \<Rightarrow> on_world (\<lambda>w. w\<lparr>w_module := (w_module w)\<lparr>mh_inner := over (mh_inner (w_module w))\<rparr>\<rparr>) s)"

definition forward_message_task ::
  "decoders \<Rightarrow> event_data \<Rightarrow> ('c, 'ms) prog \<Rightarrow> ('c, 'ms) prog" where
  "forward_message_task dcs evt k =
     (case dc_message_received dcs evt of
        None \<Rightarrow> log_task WARN ''inbound: messageReceived payload missing or malformed'' k
      | Some msg \<Rightarrow>
          if \<not> prefix TOPIC_PREFIX (rm_content_topic msg) then k
          else Act (over_bridge (\<lambda>b.
                 let (first, seen) = first_sighting (rm_message_hash msg) (b_seen b);
                     b = b\<lparr>b_seen := seen\<rparr>
                 in if first then b\<lparr>b_inbound_tx := snd (channel_send (rm_payload msg) (b_inbound_tx b))\<rparr>
                    else b))
               (\<lambda>s. case the_bridge s of
                  Some b \<Rightarrow> if fst (first_sighting (rm_message_hash msg) (b_seen b)) then k
                    else log_task DEBUG (''inbound: dropped a repeat of '' @ rm_message_hash msg
                           @ '' ('' @ rm_source msg @ '')'') k
                | None \<Rightarrow> k))"

definition on_node_started_task :: "decoders \<Rightarrow> event_data \<Rightarrow> ('c, 'ms) prog \<Rightarrow> ('c, 'ms) prog" where
  "on_node_started_task dcs evt k =
     (case dc_node_started dcs evt of
        Some (success, msg) \<Rightarrow>
          Lock Display_lock (record_node_started_task success msg (Unlock Display_lock k))
      | None \<Rightarrow> k)"

definition on_connection_state_task :: "decoders \<Rightarrow> event_data \<Rightarrow> ('c, 'ms) prog \<Rightarrow> ('c, 'ms) prog" where
  "on_connection_state_task dcs evt k =
     (case dc_connection_state_changed dcs evt of
        Some st \<Rightarrow> Lock Display_lock (look (\<lambda>s.
          case connection_transition (ds_started (delivery_of (sy_world s))) st of
            Some next_state \<Rightarrow> set_delivery_state_task next_state [] (Unlock Display_lock k)
          | None \<Rightarrow> Unlock Display_lock k))
      | None \<Rightarrow> k)"

text \<open>
  \<open>drain\<close>: what waits in the subscription is taken out and handled, event by event; one that arrives
  meanwhile is handled in the next turn.
\<close>

fun waiting :: "subscription option \<Rightarrow> event_data list" where
  "waiting None = []"
| "waiting (Some events) = sub_queue events"

fun drained :: "subscription option \<Rightarrow> subscription option" where
  "drained None = None"
| "drained (Some events) = (if sub_connected events then Some (events\<lparr>sub_queue := []\<rparr>) else None)"

primrec each_task :: "('e \<Rightarrow> ('l, 's) task \<Rightarrow> ('l, 's) task) \<Rightarrow> 'e list \<Rightarrow> ('l, 's) task \<Rightarrow> ('l, 's) task" where
  "each_task h [] k = k"
| "each_task h (e # es) k = h e (each_task h es k)"

definition drain_task ::
  "(event_data \<Rightarrow> ('c, 'ms) prog \<Rightarrow> ('c, 'ms) prog) \<Rightarrow> (bridge \<Rightarrow> subscription option) \<Rightarrow>
     (bridge \<Rightarrow> bridge) \<Rightarrow> ('c, 'ms) prog \<Rightarrow> ('c, 'ms) prog" where
  "drain_task handle sub clear k =
     Act (over_bridge clear) (\<lambda>s. each_task handle (waiting (Option.bind (the_bridge s) sub)) k)"

definition forward_subscriptions_task :: "('c, 'ms) prog \<Rightarrow> ('c, 'ms) prog" where
  "forward_subscriptions_task k =
     display_task (\<lambda>w. (ds_state (delivery_of w), w)) (\<lambda>st.
       if st \<noteq> Online then k
       else run (\<lambda>s. case the_bridge s of
              Some b \<Rightarrow> on_world (\<lambda>w. foldl (\<lambda>w topic. hand_over (Subscribe topic) w) w
                                        (ch_queue (b_subscribe_rx b)))
                (over_bridge (\<lambda>b. b\<lparr>b_subscribe_rx := (b_subscribe_rx b)\<lparr>ch_queue := []\<rparr>\<rparr>) s)
            | None \<Rightarrow> s) k)"

text \<open>A turn of the loop; the continuation learns whether the function returns.\<close>

definition bridge_turn_task :: "decoders \<Rightarrow> (bool \<Rightarrow> ('c, 'ms) prog) \<Rightarrow> ('c, 'ms) prog" where
  "bridge_turn_task dcs k =
     Act (over_bridge (\<lambda>b. b\<lparr>b_messages := snd (try_recv (b_messages b))\<rparr>)) (\<lambda>s.
       case the_bridge s of
         None \<Rightarrow> k True
       | Some b \<Rightarrow>
           let rest = drain_task (on_node_started_task dcs) b_node_started
                        (\<lambda>b. b\<lparr>b_node_started := drained (b_node_started b)\<rparr>)
                     (drain_task (on_connection_state_task dcs) b_conn
                        (\<lambda>b. b\<lparr>b_conn := drained (b_conn b)\<rparr>)
                     (forward_subscriptions_task (k False)))
           in (case fst (try_recv (b_messages b)) of
                 Disconnected \<Rightarrow> k True
               | Empty \<Rightarrow> rest
               | Received_item evt \<Rightarrow> forward_message_task dcs evt rest))"

text \<open>\<open>run_bridge\<close>, for as many turns as it gets: it reads the stop flag before each.\<close>

primrec bridge_task :: "decoders \<Rightarrow> nat \<Rightarrow> ('c, 'ms) prog" where
  "bridge_task dcs 0 = Done"
| "bridge_task dcs (Suc n) = look (\<lambda>s. case the_bridge s of
     Some b \<Rightarrow> if b_stop b then Done
       else bridge_turn_task dcs (\<lambda>returns. if returns then Done else bridge_task dcs n)
   | None \<Rightarrow> Done)"

section \<open>Lifecycle\<close>

text \<open>
  The locks \<open>panic_hook::install_once\<close> and \<open>logging::install_once\<close> take; what they compute is in
  theories Logging and Chat_Module.
\<close>

definition install_once_locks :: "('c, 'ms) prog \<Rightarrow> ('c, 'ms) prog" where
  "install_once_locks k =
     Lock Hook_once (Unlock Hook_once
     (Lock Logging_once
       (Lock Run_log_lock (Unlock Run_log_lock
       (Lock Log_path_lock (Unlock Log_path_lock
     (Unlock Logging_once k)))))))"

definition bootstrap_task :: "str \<Rightarrow> ('c, 'ms) prog \<Rightarrow> ('c, 'ms) prog" where
  "bootstrap_task preset k = run (on_world (start_delivery_bootstrap preset)) k"

definition seed_display ::
  "('c, 'ms) env \<Rightarrow> 'c \<Rightarrow> 'ms connection \<Rightarrow> app_state \<Rightarrow> ('c, 'ms) world \<Rightarrow> ('c, 'ms) world" where
  "seed_display env client chat_db state w =
     with_display_mut (\<lambda>d. d\<lparr>d_state := state, d_chat_db := Some chat_db,
       d_delivery_state := ds_initialising, d_intrinsic_name := ca_installation_name (e_client env) client,
       d_address := ca_addr (e_client env) client\<rparr>) w"

text \<open>
  The part of \<open>initialize\<close> after everything local is prepared, under the module lock: the workers
  run at places \<open>j\<close> and \<open>Suc j\<close> of the pool, and the display is seeded after they started.
\<close>

definition start_session_task ::
  "('c, 'ms) env \<Rightarrow> ('c, 'ms) init_env \<Rightarrow> nat \<Rightarrow>
     'c \<times> str channel \<times> (str \<times> bytes) list \<times> 'ms connection \<times> app_state \<Rightarrow>
     (init_error + unit \<Rightarrow> ('c, 'ms) prog) \<Rightarrow> ('c, 'ms) prog" where
  "start_session_task env ie j prepared k =
     (case prepared of (client, subscribe_rx, sends, chat_db, state) \<Rightarrow>
        run (on_world (\<lambda>w. w\<lparr>w_pending := w_pending w @ send_calls sends\<rparr>))
        (case ie_on_message_received ie of
           Inl e \<Rightarrow> k (Inl (Delivery (''subscribe(messageReceived) failed: '' @ e)))
         | Inr messages_sub \<Rightarrow> (case ie_on_node_started ie of
             Inl e \<Rightarrow> k (Inl (Delivery (''subscribe(nodeStarted) failed: '' @ e)))
           | Inr started_sub \<Rightarrow>
               let go = (\<lambda>conn_sub.
                     run (on_world (install \<lparr>ms_client = client,
                       ms_inbound_thread = Some (spawn_bridge messages_sub started_sub conn_sub unbounded subscribe_rx),
                       ms_event_thread = Some ()\<rparr>))
                     (Spawn j (Spawn (Suc j)
                       (display_task (\<lambda>w. ((), seed_display env client chat_db state w)) (\<lambda>_. k (Inr ()))))))
               in (case ie_on_connection_state_changed ie of
                     Inr sub \<Rightarrow> go (Some sub)
                   | Inl e \<Rightarrow> log_task ERROR
                       (''init: subscribe(connectionStateChanged) failed: '' @ e) (go None)))))"

text \<open>\<open>init\<close>; the continuation learns whether a session was installed.\<close>

definition init_task ::
  "('c, 'ms) env \<Rightarrow> ('c, 'ms) init_env \<Rightarrow> str \<Rightarrow> nat \<Rightarrow> (bool \<Rightarrow> str + json \<Rightarrow> ('c, 'ms) prog) \<Rightarrow> ('c, 'ms) prog" where
  "init_task env ie preset j k = install_once_locks (Lock Module_lock (look (\<lambda>s.
     if mh_poisoned (w_module (sy_world s)) then Unlock Module_lock (k False (Inl ERR_LOCK_POISONED))
     else if mh_inner (w_module (sy_world s)) \<noteq> None then
       Unlock Module_lock (claim_delivery_retry_task (\<lambda>claimed.
         if claimed
         then log_task INFO (''init: delivery never started, joining delivery preset '' @ preset)
                (bootstrap_task preset (k False (Inr JNull)))
         else log_task WARN (''init: already initialised; any new arguments are ignored, ''
                  @ ''call shutdown() first to reconfigure'') (k False (Inr JNull))))
     else
       let failed = (\<lambda>e. Unlock Module_lock (log_task ERROR (''init: '' @ init_error_text e)
                             (k False (Inl (init_error_text e)))))
       in case prepare_local env ie of
            Inl e \<Rightarrow> failed e
          | Inr prepared \<Rightarrow> start_session_task env ie j prepared (\<lambda>r. case r of
              Inl e \<Rightarrow> failed e
            | Inr _ \<Rightarrow> Unlock Module_lock
                (log_task INFO (''init: state installed, joining delivery preset '' @ preset)
                  (bootstrap_task preset (k True (Inr JNull))))))))"

text \<open>
  \<open>shutdown\<close>: the session leaves the lock, the bridge is told to stop and joined, then the event
  consumer, and the display is reset.  \<open>workers\<close> is the place of the session's workers, when the
  host started it.
\<close>

definition take_session :: "('c, 'ms) system \<Rightarrow> (lock_poisoned + bool) \<times> ('c, 'ms) system" where
  "take_session s =
     (case take_state (w_module (sy_world s)) of
        (Inl e, h) \<Rightarrow> (Inl e, s)
      | (Inr None, h) \<Rightarrow> (Inr False, on_world (\<lambda>w. w\<lparr>w_module := h\<rparr>) s)
      | (Inr (Some ms), h) \<Rightarrow> (Inr True, (on_world (\<lambda>w. w\<lparr>w_module := h\<rparr>) s)\<lparr>sy_closing := Some ms\<rparr>))"

fun join_workers :: "nat option \<Rightarrow> ('c, 'ms) prog \<Rightarrow> ('c, 'ms) prog" where
  "join_workers None k = k"
| "join_workers (Some j) k = Join j (Join (Suc j) k)"

definition shutdown_task ::
  "nat option \<Rightarrow> (bool \<Rightarrow> str + json \<Rightarrow> ('c, 'ms) prog) \<Rightarrow> ('c, 'ms) prog" where
  "shutdown_task workers k =
     locked Module_lock take_session (\<lambda>taken. case taken of
       Inl _ \<Rightarrow> k False (Inl ERR_LOCK_POISONED)
     | Inr False \<Rightarrow> k False (Inr JNull)
     | Inr True \<Rightarrow>
         run (over_bridge (\<lambda>b. b\<lparr>b_stop := True\<rparr>))
         (join_workers workers
           (display_task (\<lambda>w. ((), with_display_mut (\<lambda>_. default_display) w)) (\<lambda>_.
              run (\<lambda>s. s\<lparr>sy_closing := None\<rparr>) (k True (Inr JNull))))))"

section \<open>The threads of the process\<close>

text \<open>
  The host makes its calls one after the other (the methods take \<open>&mut self\<close>), each at its own
  moment; an \<open>init\<close> names the places of the workers it would start.
\<close>

datatype ('c, 'ms) host_call =
    Call_init "('c, 'ms) init_env" str nat
  | Call_serve request
  | Call_query query
  | Call_shutdown

fun host_task ::
  "('c, 'ms) env \<Rightarrow> (moment \<times> ('c, 'ms) host_call) list \<Rightarrow> nat option \<Rightarrow> ('c, 'ms) prog" where
  "host_task env [] workers = Done"
| "host_task env ((mo, Call_init ie preset j) # calls) workers =
     init_task (at env mo) ie preset j (\<lambda>installed _.
       host_task env calls (if installed then Some j else workers))"
| "host_task env ((mo, Call_serve req) # calls) workers =
     serve_task (at env mo) req (\<lambda>_. host_task env calls workers)"
| "host_task env ((mo, Call_query q) # calls) workers =
     answer_task (at env mo) q (\<lambda>_. host_task env calls workers)"
| "host_task env ((mo, Call_shutdown) # calls) workers =
     shutdown_task workers (\<lambda>taken _. host_task env calls (if taken then None else workers))"

text \<open>
  What the threads besides the host run: a bridge, an event consumer, a callback of delivery_module.
\<close>

datatype worker =
    Bridge_worker nat
  | Events_worker "(moment \<times> client_event) list"
  | Callback moment delivery_call "str + json"

fun worker_task :: "('c, 'ms) env \<Rightarrow> decoders \<Rightarrow> worker \<Rightarrow> ('c, 'ms) prog" where
  "worker_task env dcs (Bridge_worker turns) = bridge_task dcs turns"
| "worker_task env dcs (Events_worker evts) = events_task env evts"
| "worker_task env dcs (Callback mo call res) = callback_task (at env mo) call res"

fun runs_from_start :: "worker \<Rightarrow> bool" where
  "runs_from_start (Callback mo call res) = True"
| "runs_from_start _ = False"

text \<open>
  The process: the host at place 0, the workers after it.  A callback may come at any time; bridges
  and consumers run once an \<open>init\<close> has started them, or, for a session that is already there, from
  the beginning.
\<close>

definition process_pool ::
  "('c, 'ms) env \<Rightarrow> decoders \<Rightarrow> (moment \<times> ('c, 'ms) host_call) list \<Rightarrow> (bool \<times> worker) list \<Rightarrow>
     ('c, 'ms) system \<Rightarrow> (lock, ('c, 'ms) system) pool" where
  "process_pool env dcs calls workers s =
     \<lparr>po_state = s,
      po_threads = \<lparr>th_started = True, th_held = [], th_task = host_task env calls None\<rparr>
        # map (\<lambda>(running, w). \<lparr>th_started = running \<or> runs_from_start w, th_held = [],
                                th_task = worker_task env dcs w\<rparr>) workers\<rparr>"

end
