(* ===== verification/Lock_Safety.thy ===== *)
theory Lock_Safety
  imports Lock_Programs
begin

text \<open>
  What the lock-by-lock tasks of theory Lock_Programs have in common with the operations they
  split: alone, each computes the operation (\<open>exec_\<dots>\<close>), and each keeps the lock discipline of theory
  Tasks (\<open>disciplined_\<dots>\<close>).  The collections \<open>exec_rules\<close> and \<open>lock_rules\<close> have the rules of the
  building blocks.
\<close>

named_theorems exec_rules "what a task computes alone"
named_theorems lock_rules "the lock discipline of the building blocks"

section \<open>Building blocks\<close>

lemma on_world_simps [simp]:
  "sy_world (on_world f s) = f (sy_world s)" "sy_closing (on_world f s) = sy_closing s"
  "on_world f (on_world g s) = on_world (\<lambda>w. f (g w)) s" "on_world (\<lambda>w. w) s = s"
  by (simp_all add: on_world_def)

lemma in_world_simps [simp]:
  "fst (in_world f s) = fst (f (sy_world s))" "snd (in_world f s) = on_world (\<lambda>w. snd (f w)) s"
  by (simp_all add: in_world_def)

lemma on_world_cong: "f (sy_world s) = g (sy_world s) \<Longrightarrow> on_world f s = on_world g s"
  by (simp add: on_world_def)

lemma exec_blocks [exec_rules]:
  "exec (log_task l line k) s = exec k (on_world (log_at l line) s)"
  "exec (emit_task e k) s = exec k (on_world (emit e) s)"
  "exec (hand_over_task c k) s = exec k (on_world (hand_over c) s)"
  "exec (client_task f kc) s = exec (kc (fst (with_client f (sy_world s)))) (on_world (\<lambda>w. snd (with_client f w)) s)"
  "exec (display_task g kd) s = exec (kd (fst (g (sy_world s)))) (on_world (\<lambda>w. snd (g w)) s)"
  "exec (check_live_task cid kl) s = exec (kl (check_live cid (sy_world s))) s"
  by (simp_all add: log_task_def emit_task_def hand_over_task_def client_task_def display_task_def
      check_live_task_def)

lemma disciplined_blocks [lock_rules]:
  fixes kc :: "core_error + 'r \<Rightarrow> ('c, 'ms) prog" and kl :: "core_error + unit \<Rightarrow> ('c, 'ms) prog"
    and kd :: "'q \<Rightarrow> ('c, 'ms) prog"
  shows "disciplined (log_task l line k) i sp h \<longleftrightarrow> (\<forall>m\<in>set h. m < Run_log_lock) \<and> disciplined k i sp h"
  "disciplined (emit_task e k) i sp h \<longleftrightarrow> disciplined k i sp h"
  "disciplined (hand_over_task c k) i sp h \<longleftrightarrow> disciplined k i sp h"
  "disciplined (client_task f kc) i sp h \<longleftrightarrow>
     (\<forall>m\<in>set h. m < Module_lock) \<and> (\<forall>s :: ('c, 'ms) system. disciplined (kc (fst (with_client f (sy_world s)))) i sp h)"
  "disciplined (display_task g kd) i sp h \<longleftrightarrow>
     (\<forall>m\<in>set h. m < Display_lock) \<and> (\<forall>s :: ('c, 'ms) system. disciplined (kd (fst (g (sy_world s)))) i sp h)"
  "disciplined (check_live_task cid kl) i sp h \<longleftrightarrow>
     (\<forall>m\<in>set h. m < Display_lock) \<and> (\<forall>s :: ('c, 'ms) system. disciplined (kl (check_live cid (sy_world s))) i sp h)"
  by (simp_all add: log_task_def emit_task_def hand_over_task_def client_task_def display_task_def
      check_live_task_def)

lemmas request_task_defs = create_conversation_task_def create_group_conversation_task_def
  add_group_member_task_def list_group_members_task_def send_message_task_def
  set_conversation_nickname_task_def delete_conversation_task_def

declare less_lock_def [simp]

section \<open>Requests and queries\<close>

lemma exec_serve:
  "exec (serve_task env req k) s =
     exec (k (fst (serve env req (sy_world s)))) (on_world (\<lambda>w. snd (serve env req w)) s)"
proof (cases req)
  case (Create_conversation a)
  obtain r w where "with_client (ca_create_direct_conversation (e_client env) a) (sy_world s) = (r, w)"
    by fastforce
  then show ?thesis
    using Create_conversation by (cases "flatten r")
      (simp_all add: create_conversation_task_def create_conversation_def enter_session_def exec_rules
        Let_def as_result_def on_world_def split: sum.split)
next
  case (Create_group_conversation n de)
  obtain r w where "with_client (ca_create_group_conversation (e_client env) [] (n, de)) (sy_world s) = (r, w)"
    by fastforce
  then show ?thesis
    using Create_group_conversation by (cases "flatten r")
      (simp_all add: create_group_conversation_task_def create_group_conversation_def enter_session_def
        exec_rules Let_def as_result_def on_world_def split: sum.split)
next
  case (Send_message cid content)
  obtain r w where c: "with_client (ca_send_message (e_client env) cid content) (sy_world s) = (r, w)"
    by fastforce
  obtain rec d where "chat_record_message env (chat_message cid Sent (now_ms (e_clock env)) content) False
      (w_display w) = (rec, d)"
    by fastforce
  with c show ?thesis
    using Send_message by (cases "check_live cid (sy_world s)"; cases "flatten r")
      (simp_all add: send_message_task_def send_message_def record_sent_def exec_rules Let_def
        as_result_def on_world_def split: sum.split)
next
  case (Add_group_member cid a)
  obtain r w where "with_client (ca_add_group_participants (e_client env) cid [a]) (sy_world s) = (r, w)"
    by fastforce
  then show ?thesis
    using Add_group_member by (cases "check_live cid (sy_world s)"; cases "flatten r")
      (simp_all add: add_group_member_task_def add_group_member_def exec_rules Let_def as_result_def on_world_def)
next
  case (Set_installation_name name)
  then show ?thesis by (simp add: exec_rules as_result_def)
next
  case (Set_conversation_nickname cid n)
  then show ?thesis
    by (simp add: set_conversation_nickname_task_def set_conversation_nickname_def rename_section_def
        enter_session_def exec_rules Let_def as_result_def on_world_def split: sum.split option.split)
next
  case (Delete_conversation cid)
  then show ?thesis
    by (simp add: delete_conversation_task_def delete_conversation_def delete_section_def exec_rules Let_def
        as_result_def on_world_def split: sum.split option.split prod.split)
qed

lemma exec_answer:
  "exec (answer_task env q k) s =
     exec (k (fst (answer env q (sy_world s)))) (on_world (\<lambda>w. snd (answer env q w)) s)"
proof (cases q)
  case (List_group_members cid)
  obtain r w where "with_client (members_and_pending env cid) (sy_world s) = (r, w)" by fastforce
  then show ?thesis
    using List_group_members by (cases "check_live cid (sy_world s)")
      (simp_all add: list_group_members_task_def list_group_members_def exec_rules Let_def on_world_def
        split: sum.split prod.split)
qed (simp_all add: exec_rules)

lemma disciplined_serve [lock_rules]:
  "(\<And>r. disciplined (k r) i sp []) \<Longrightarrow> disciplined (serve_task env req k) i sp []"
  by (cases req) (simp_all add: request_task_defs lock_rules split: sum.split)

lemma disciplined_answer [lock_rules]:
  "(\<And>r. disciplined (k r) i sp []) \<Longrightarrow> disciplined (answer_task env q k) i sp []"
  by (cases q) (simp_all add: request_task_defs lock_rules split: sum.split prod.split)

section \<open>The delivery state and its callbacks\<close>

lemma exec_set_delivery_state [exec_rules]:
  "exec (set_delivery_state_task st detail k) s = exec k (on_world (set_delivery_state st detail) s)"
  by (simp add: set_delivery_state_task_def set_delivery_state_def exec_rules Let_def on_world_def)

lemma exec_record_node_started [exec_rules]:
  "exec (record_node_started_task success msg k) s = exec k (on_world (record_node_started success msg) s)"
  by (simp add: record_node_started_task_def record_node_started_def exec_rules Let_def on_world_def)

lemma exec_claim_delivery_retry [exec_rules]:
  "exec (claim_delivery_retry_task kb) s =
     exec (kb (fst (claim_delivery_retry (sy_world s)))) (on_world (\<lambda>w. snd (claim_delivery_retry w)) s)"
  by (simp add: claim_delivery_retry_task_def claim_delivery_retry_def exec_rules on_world_def)

lemma exec_start_node [exec_rules]:
  "exec (start_node_task k) s = exec k (on_world start_node s)"
  by (simp add: start_node_task_def start_node_def exec_rules on_world_def)

lemma exec_complete [exec_rules]:
  "exec (complete_task env call res k) s = exec k (on_world (complete env call res) s)"
proof (cases call)
  case (Create_node config preset)
  then show ?thesis
    by (simp add: create_node_done_def join_existing_node_def exec_rules on_world_def split: sum.split)
next
  case (Get_node_info item preset reason)
  then show ?thesis
    by (simp add: get_node_info_done_def set_delivery_error_task_def set_delivery_error_def exec_rules Let_def
        on_world_def split: sum.split)
qed (simp_all add: start_done_def send_done_def subscribe_done_def exec_rules on_world_def split: sum.split)

lemma disciplined_set_delivery_state [lock_rules]:
  "disciplined k i sp h \<Longrightarrow> \<forall>m\<in>set h. m < Run_log_lock \<Longrightarrow>
     disciplined (set_delivery_state_task st detail k) i sp h"
  by (simp add: set_delivery_state_task_def lock_rules)

lemma disciplined_record_node_started [lock_rules]:
  "disciplined k i sp h \<Longrightarrow> \<forall>m\<in>set h. m < Run_log_lock \<Longrightarrow>
     disciplined (record_node_started_task success msg k) i sp h"
  by (simp add: record_node_started_task_def lock_rules)

lemma disciplined_claim_delivery_retry [lock_rules]:
  "(\<And>b. disciplined (kb b) i sp []) \<Longrightarrow> disciplined (claim_delivery_retry_task kb) i sp []"
  by (simp add: claim_delivery_retry_task_def lock_rules)

lemma disciplined_complete [lock_rules]:
  "disciplined k i sp [] \<Longrightarrow> disciplined (complete_task env call res k) i sp []"
  by (cases call) (simp_all add: lock_rules start_node_task_def set_delivery_error_task_def Let_def split: sum.split)

lemma disciplined_callback: "disciplined (callback_task env call res) i sp []"
  by (simp add: callback_task_def lock_rules)

section \<open>The event consumer\<close>

lemma exec_group_details [exec_rules]:
  "exec (group_details_task env cid kind kg) s =
     exec (kg (fst (group_details env cid kind (sy_world s)))) (on_world (\<lambda>w. snd (group_details env cid kind w)) s)"
proof -
  obtain r w where "with_client (ca_group_metadata (e_client env) cid) (sy_world s) = (r, w)" by fastforce
  then show ?thesis
    by (simp add: group_details_task_def group_details_def exec_rules on_world_def split: sum.split prod.split)
qed

lemma exec_record_conversation_started [exec_rules]:
  "exec (record_conversation_started_task env cid kind k) s =
     exec k (on_world (record_conversation_started env cid kind) s)"
proof -
  obtain name desc w where "group_details env cid kind (sy_world s) = ((name, desc), w)"
    by (metis prod.collapse)
  then show ?thesis
    by (simp add: record_conversation_started_task_def record_conversation_started_def exec_rules Let_def
        on_world_def split: option.split sum.split)
qed

lemma exec_record_message_received [exec_rules]:
  "exec (record_message_received_task env cid content account inst k) s =
     exec k (on_world (record_message_received env cid content account inst) s)"
proof -
  obtain changed session where i: "inbound_session cid account (w_display (sy_world s)) = (changed, session)"
    by fastforce
  obtain rec d where r: "chat_record_message env (inbound_message env cid content account inst) changed
      (update_chats (hm_insert cid session) (w_display (sy_world s))) = (rec, d)"
    by fastforce
  show ?thesis
    by (simp add: record_message_received_task_def record_message_received_def record_inbound_def exec_rules
        i r Let_def on_world_def split: sum.split)
qed

lemma exec_handle_event [exec_rules]:
  "exec (handle_event_task env evt k) s = exec k (on_world (handle_event env evt) s)"
  by (cases evt) (simp_all add: exec_rules record_members_changed_task_def record_members_changed_def on_world_def)

lemma exec_events: "exec (events_task env evts) s = on_world (run_events env evts) s"
  by (induction evts arbitrary: s) (auto simp: exec_rules)

lemma disciplined_handle_event [lock_rules]:
  "disciplined k i sp [] \<Longrightarrow> disciplined (handle_event_task env evt k) i sp []"
  by (cases evt) (simp_all add: record_conversation_started_task_def group_details_task_def
      record_message_received_task_def record_members_changed_task_def lock_rules Let_def
      split: sum.split prod.split option.split)

lemma disciplined_events: "disciplined (events_task env evts) i sp []"
  by (induction evts) (auto simp: lock_rules)

section \<open>The bridge\<close>

lemma disciplined_each:
  "(\<And>e k. disciplined k i sp h \<Longrightarrow> disciplined (handle e k) i sp h) \<Longrightarrow> disciplined k i sp h \<Longrightarrow>
     disciplined (each_task handle es k) i sp h"
  by (induction es) simp_all

lemma disciplined_drain [lock_rules]:
  assumes "disciplined k i sp []"
  shows "disciplined (drain_task (on_node_started_task dcs) sub clear k) i sp []"
    and "disciplined (drain_task (on_connection_state_task dcs) sub clear k) i sp []"
  unfolding drain_task_def disciplined.simps
  by (intro allI disciplined_each assms;
      simp add: on_node_started_task_def on_connection_state_task_def lock_rules split: option.split prod.split)+

lemma disciplined_bridge_turn [lock_rules]:
  "(\<And>b. disciplined (k b) i sp []) \<Longrightarrow> disciplined (bridge_turn_task dcs k) i sp []"
  by (simp add: bridge_turn_task_def forward_message_task_def forward_subscriptions_task_def lock_rules Let_def
      split: option.split recv_outcome.split)

lemma disciplined_bridge: "disciplined (bridge_task dcs n) i sp []"
  by (induction n) (simp_all add: lock_rules split: option.split)

text \<open>A session's state with its bridge, installed or being shut down, over a world.\<close>

definition with_bridge ::
  "'c module_state \<Rightarrow> bool \<Rightarrow> bridge \<Rightarrow> ('c, 'ms) world \<Rightarrow> ('c, 'ms) system" where
  "with_bridge ms closing b w =
     (if closing then \<lparr>sy_world = w, sy_closing = Some (ms\<lparr>ms_inbound_thread := Some b\<rparr>)\<rparr>
      else \<lparr>sy_world = install (ms\<lparr>ms_inbound_thread := Some b\<rparr>) w, sy_closing = None\<rparr>)"

text \<open>A function on the world that neither reads nor writes the module handle.\<close>

definition blind :: "(('c, 'ms) world \<Rightarrow> ('c, 'ms) world) \<Rightarrow> bool" where
  "blind f \<longleftrightarrow> (\<forall>w m. f (w\<lparr>w_module := m\<rparr>) = (f w)\<lparr>w_module := m\<rparr>)"

lemma blind_install:
  assumes "blind f"
  shows "f (install ms w) = install ms (f w)"
proof -
  have *: "f (w\<lparr>w_module := m\<rparr>) = (f w)\<lparr>w_module := m\<rparr>" for m using assms by (simp add: blind_def)
  from * [of "w_module w"] have "w_module (f w) = w_module w" by (cases w) (metis world.select_convs(1) world.surjective world.update_convs(1))
  then show ?thesis by (simp add: install_def *)
qed

lemma with_bridge_simps [simp]:
  "the_bridge (with_bridge ms c b w) = Some b"
  "over_bridge f (with_bridge ms c b w) = with_bridge ms c (f b) w"
  "w_display (sy_world (with_bridge ms c b w)) = w_display w"
  by (simp_all add: with_bridge_def the_bridge_def over_bridge_def install_def on_world_def)

lemma on_world_bridge: "blind f \<Longrightarrow> on_world f (with_bridge ms c b w) = with_bridge ms c b (f w)"
  by (simp add: with_bridge_def on_world_def blind_install)

lemma blind_basics [simp]:
  "blind (log_at l line)" "blind (emit e)" "blind (hand_over c)" "blind (update_delivery f)"
  by (simp_all add: blind_def log_at_def emit_def hand_over_def update_delivery_def with_display_mut_def)

lemma blind_set_delivery_state [simp]: "blind (set_delivery_state st detail)"
  by (simp add: blind_def set_delivery_state_def log_at_def emit_def update_delivery_def with_display_mut_def Let_def)

lemma blind_node_events [simp]:
  "blind (record_node_started success msg :: ('c, 'ms) world \<Rightarrow> ('c, 'ms) world)"
  "blind (handle_connection_state st :: ('c, 'ms) world \<Rightarrow> ('c, 'ms) world)"
proof -
  have *: "set_delivery_state st detail (w\<lparr>w_module := m\<rparr>) = (set_delivery_state st detail w)\<lparr>w_module := m\<rparr>"
    "update_delivery f (w\<lparr>w_module := m\<rparr>) = (update_delivery f w)\<lparr>w_module := m\<rparr>"
    for st detail f m and w :: "('c, 'ms) world"
    using blind_set_delivery_state [of st detail] blind_basics(4) [of f] unfolding blind_def by blast+
  show "blind (record_node_started success msg :: ('c, 'ms) world \<Rightarrow> ('c, 'ms) world)"
    "blind (handle_connection_state st :: ('c, 'ms) world \<Rightarrow> ('c, 'ms) world)"
    by (simp_all add: blind_def record_node_started_def handle_connection_state_def * Let_def split: option.split)
qed

lemma blind_subscribe [simp]: "blind (\<lambda>w. foldl (\<lambda>w topic. hand_over (Subscribe topic) w) w topics)"
  by (simp add: blind_def foldl_hand_over)

lemma exec_forward_message:
  "exec (forward_message_task dcs evt k) (with_bridge ms c b w) =
     (let (b', w') = forward_message dcs evt b w in exec k (with_bridge ms c b' w'))"
  by (simp add: forward_message_task_def forward_message_def exec_rules on_world_bridge Let_def case_prod_unfold
      split: option.split)

lemma exec_each:
  assumes "\<And>e k w. exec (handle e k) (with_bridge ms c b w) = exec k (with_bridge ms c b (f e w))"
  shows "exec (each_task handle es k) (with_bridge ms c b w) = exec k (with_bridge ms c b (fold f es w))"
  by (induction es arbitrary: w) (simp_all add: assms)

lemma exec_node_events:
  "exec (on_node_started_task dcs evt k) (with_bridge ms c b w) = exec k (with_bridge ms c b (on_node_started dcs evt w))"
  "exec (on_connection_state_task dcs evt k) (with_bridge ms c b w) =
     exec k (with_bridge ms c b (on_connection_state dcs evt w))"
  by (simp_all add: on_node_started_task_def on_node_started_def on_connection_state_task_def
      on_connection_state_def handle_connection_state_def exec_rules on_world_bridge split: option.split)

lemma drain_waiting: "drain handle sub w = (drained sub, fold handle (waiting sub) w)"
  by (cases sub) (simp_all add: drain_eq)

lemma exec_forward_subscriptions:
  "exec (forward_subscriptions_task k) (with_bridge ms c b w) =
     (let (b', w') = forward_subscriptions b w in exec k (with_bridge ms c b' w'))"
  by (simp add: forward_subscriptions_task_def forward_subscriptions_def with_display_def exec_rules
      on_world_bridge)

lemma exec_bridge_turn:
  "exec (bridge_turn_task dcs k) (with_bridge ms c b w) =
     (let (returns, b', w') = bridge_turn dcs b w in exec (k returns) (with_bridge ms c b' w'))"
proof -
  have rest: "exec (drain_task (on_node_started_task dcs) b_node_started (\<lambda>b. b\<lparr>b_node_started := drained (b_node_started b)\<rparr>)
      (drain_task (on_connection_state_task dcs) b_conn (\<lambda>b. b\<lparr>b_conn := drained (b_conn b)\<rparr>)
        (forward_subscriptions_task k'))) (with_bridge ms c b w) =
    (let (ns, w) = drain (on_node_started dcs) (b_node_started b) w;
         (cs, w) = drain (on_connection_state dcs) (b_conn b) w;
         (b, w) = forward_subscriptions (b\<lparr>b_node_started := ns, b_conn := cs\<rparr>) w
     in exec k' (with_bridge ms c b w))" for k' b w
    by (simp add: drain_task_def drain_waiting exec_each [where f = "on_node_started dcs"]
        exec_each [where f = "on_connection_state dcs"] exec_node_events exec_forward_subscriptions)
  obtain item msgs where r: "try_recv (b_messages b) = (item, msgs)" by fastforce
  show ?thesis
    by (cases item) (simp_all add: bridge_turn_task_def bridge_turn_def r rest exec_forward_message Let_def
        case_prod_unfold)
qed

section \<open>Lifecycle\<close>

definition installs :: "('c, 'ms) env \<Rightarrow> ('c, 'ms) init_env \<Rightarrow> ('c, 'ms) world \<Rightarrow> bool" where
  "installs env ie w \<longleftrightarrow> \<not> mh_poisoned (w_module w) \<and> mh_inner (w_module w) = None \<and>
     is_ok (fst (initialize env ie w))"

lemma blind_seed: "blind (seed_display env client db st)"
  by (simp add: blind_def seed_display_def with_display_mut_def)

lemma exec_start_session:
  assumes "prepare_local env ie = Inr prepared"
  shows "exec (start_session_task env ie j prepared k) s =
    (case initialize env ie (sy_world s) of
       (Inl e, w) \<Rightarrow> exec (k (Inl e)) (s\<lparr>sy_world := w\<rparr>)
     | (Inr ms, w) \<Rightarrow> exec (k (Inr ())) (s\<lparr>sy_world := install ms w\<rparr>))"
proof -
  obtain client rx sends db st where p: "prepared = (client, rx, sends, db, st)" by (cases prepared)
  show ?thesis
    by (simp add: start_session_task_def initialize_def assms p exec_rules Let_def on_world_def
        seed_display_def blind_install [OF blind_seed, unfolded seed_display_def] split: sum.split)
qed

lemma exec_init:
  "exec (init_task env ie preset j k) s =
     exec (k (installs env ie (sy_world s)) (fst (init_world env ie preset (sy_world s))))
       (on_world (\<lambda>w. snd (init_world env ie preset w)) s)"
proof (cases "prepare_local env ie")
  case (Inl e)
  then have i: "initialize env ie w = (Inl e, w)" for w :: "('a, 'b) world" by (simp add: initialize_def)
  show ?thesis
    by (simp add: init_task_def init_world_def install_once_locks_def bootstrap_task_def install_with_def
        installs_def exec_rules Inl i on_world_def case_prod_unfold Let_def)
next
  case (Inr prepared)
  obtain r w where i: "initialize env ie (sy_world s) = (r, w)" by fastforce
  show ?thesis
    by (cases r; cases "mh_inner (w_module (sy_world s))") (simp_all add: init_task_def init_world_def install_once_locks_def bootstrap_task_def
        install_with_def installs_def exec_rules exec_start_session [OF Inr] i Inr install_def on_world_def
        case_prod_unfold Let_def)
qed

lemma exec_shutdown:
  assumes "sy_closing s = None"
  shows "exec (shutdown_task workers k) s =
    exec (k (\<not> mh_poisoned (w_module (sy_world s)) \<and> mh_inner (w_module (sy_world s)) \<noteq> None)
        (fst (shutdown_module env dcs [] [] (sy_world s))))
      (on_world (\<lambda>w. snd (shutdown_module env dcs [] [] w)) s)"
proof -
  have "exec (join_workers workers k') s' = exec k' s'" for k' and s' :: "('a, 'b) system"
    by (cases workers) simp_all
  moreover obtain w where "s = \<lparr>sy_world = w, sy_closing = None\<rparr>" using assms by (cases s) auto
  ultimately show ?thesis
    by (cases "mh_inner (w_module w)")
      (simp_all add: shutdown_task_def shutdown_module_def take_session_def take_state_def shutdown_def
        stop_bridge_def over_bridge_def exec_rules on_world_def Let_def split: option.split)
qed

lemma disciplined_init [lock_rules]:
  assumes "i < j" and "\<And>r. disciplined (k False r) i sp []"
    and "\<And>r. disciplined (k True r) i (insert (Suc j) (insert j sp)) []"
  shows "disciplined (init_task env ie preset j k) i sp []"
proof -
  have "disciplined (start_session_task env ie j prepared k') i sp [Module_lock]"
    if "\<And>e. disciplined (k' (Inl e)) i sp [Module_lock]"
      "disciplined (k' (Inr ())) i (insert (Suc j) (insert j sp)) [Module_lock]" for prepared k'
    using assms(1) that
    by (simp add: start_session_task_def lock_rules Let_def split: sum.split prod.split)
  then show ?thesis
    using assms(2,3)
    by (auto simp: init_task_def install_once_locks_def bootstrap_task_def lock_rules Let_def split: sum.split)
qed

lemma disciplined_shutdown [lock_rules]:
  assumes "case workers of None \<Rightarrow> True | Some j \<Rightarrow> i < j \<and> {j, Suc j} \<subseteq> sp"
    and "\<And>b r. disciplined (k b r) i sp []"
  shows "disciplined (shutdown_task workers k) i sp []"
  using assms by (cases workers)
    (simp_all add: shutdown_task_def lock_rules split: sum.split bool.split)

text \<open>The places of the workers come after the host's.\<close>

definition places_ok :: "(moment \<times> ('c, 'ms) host_call) list \<Rightarrow> bool" where
  "places_ok calls \<longleftrightarrow> (\<forall>mo ie preset j. (mo, Call_init ie preset j) \<in> set calls \<longrightarrow> 0 < j)"

lemma disciplined_host:
  assumes "places_ok calls" and "case workers of None \<Rightarrow> True | Some j \<Rightarrow> 0 < j \<and> {j, Suc j} \<subseteq> sp"
  shows "disciplined (host_task env calls workers) 0 sp []"
  using assms
proof (induction env calls workers arbitrary: sp rule: host_task.induct)
  case (2 env mo ie preset j calls workers)
  have p: "0 < j" "places_ok calls" using "2.prems"(1) by (auto simp: places_ok_def)
  have IH: "disciplined (host_task env calls (if b then Some j else workers)) 0 sp' []"
    if "case if b then Some j else workers of None \<Rightarrow> True | Some j \<Rightarrow> 0 < j \<and> {j, Suc j} \<subseteq> sp'" for b sp'
    by (rule "2.IH" [OF p(2) that])
  have "disciplined (host_task env calls workers) 0 sp []"
    using IH [where b = False and sp' = sp] "2.prems"(2) by simp
  moreover have "disciplined (host_task env calls (Some j)) 0 (insert (Suc j) (insert j sp)) []"
    using IH [where b = True and sp' = "insert (Suc j) (insert j sp)"] p by simp
  ultimately show ?case using p(1) by (simp add: disciplined_init)
next
  case (3 env mo req calls workers)
  then have "disciplined (host_task env calls workers) 0 sp []" by (intro "3.IH") (auto simp: places_ok_def)
  then show ?case by (simp add: disciplined_serve)
next
  case (4 env mo q calls workers)
  then have "disciplined (host_task env calls workers) 0 sp []" by (intro "4.IH") (auto simp: places_ok_def)
  then show ?case by (simp add: disciplined_answer)
next
  case (5 env mo calls workers)
  have "places_ok calls" using "5.prems"(1) by (auto simp: places_ok_def)
  then have "disciplined (host_task env calls (if taken then None else workers)) 0 sp []" for taken
    using "5.prems"(2) by (intro "5.IH") (auto split: option.splits)
  then show ?case using "5.prems"(2) by (simp add: disciplined_shutdown)
qed simp

section \<open>The process\<close>

lemma disciplined_worker: "disciplined (worker_task env dcs w) i sp []"
  by (cases w) (simp_all add: disciplined_bridge disciplined_events disciplined_callback)

lemma process_pool_ok: "places_ok calls \<Longrightarrow> pool_ok (process_pool env dcs calls workers s)"
  by (auto simp: pool_ok_def thread_ok_def process_pool_def nth_Cons disciplined_worker case_prod_unfold
      intro!: exI [of _ "{}"] disciplined_host split: nat.split)

lemma process_pool_exclusive: "exclusive (process_pool env dcs calls workers s)"
  by (auto simp: exclusive_def process_pool_def nth_Cons case_prod_unfold split: nat.split)

end
