(* ===== verification/Lock_Guards.thy ===== *)
theory Lock_Guards
  imports Lock_Safety
begin

text \<open>
  What the display lock protects.  The locale \<open>chat_guard\<close> is about any condition \<open>P\<close> on the
  sessions and \<open>chat.db\<close> that the closures of the operations keep: in every interleaving of the
  process, \<open>P\<close> and the consistency of the delivery state (\<open>delivery_ok\<close>) hold whenever no thread has
  the lock.  It is interpreted for the trivial condition, which leaves the delivery state, for
  \<open>shown_stored\<close> (everything shown is in the file) and for \<open>texts_ok\<close> (everything shown is text).
\<close>

section \<open>Conditions the display lock guards\<close>

abbreviation display_of :: "('c, 'ms) system \<Rightarrow> 'ms display" where
  "display_of s \<equiv> w_display (sy_world s)"

definition guarded_ok :: "(app_state \<Rightarrow> 'ms connection option \<Rightarrow> bool) \<Rightarrow> 'ms display \<Rightarrow> bool" where
  "guarded_ok P d \<longleftrightarrow> delivery_ok (d_delivery_state d) \<and> P (d_state d) (d_chat_db d)"

text \<open>
  \<open>good\<close> are the moments at which the closures keep \<open>P\<close>, \<open>source\<close> the surroundings of an \<open>init\<close>
  that reads back a state with \<open>P\<close>.
\<close>

locale chat_guard =
  guarded_data Display_lock "display_of :: ('c, 'ms) system \<Rightarrow> 'ms display" "guarded_ok P"
  for P :: "app_state \<Rightarrow> 'ms connection option \<Rightarrow> bool" +
  fixes env :: "('c, 'ms) env" and good :: "moment \<Rightarrow> bool" and source :: "('c, 'ms) init_env \<Rightarrow> bool"
  assumes keeps_enter: "good mo \<Longrightarrow> P (d_state d) (d_chat_db d) \<Longrightarrow>
        persist_chat (at env mo) cid (update_chats (hm_insert cid (new_session cid kind n de p)) d) = saved \<Longrightarrow>
        case saved of Inr d' \<Rightarrow> P (d_state d') (d_chat_db d')
          | Inl e \<Rightarrow> P ((d_state d)\<lparr>as_chats := hm_insert cid (new_session cid kind n de p) (chats d)\<rparr>) (d_chat_db d)"
    and keeps_rename: "good mo \<Longrightarrow> P (d_state d) (d_chat_db d) \<Longrightarrow> hm_get (chats d) cid = Some sess \<Longrightarrow>
        persist_chat (at env mo) cid (update_chats (hm_insert cid (sess\<lparr>cs_nickname := nick\<rparr>)) d) = saved \<Longrightarrow>
        case saved of Inr d' \<Rightarrow> P (d_state d') (d_chat_db d')
          | Inl e \<Rightarrow> P ((d_state d)\<lparr>as_chats := hm_insert cid (sess\<lparr>cs_nickname := nick\<rparr>) (chats d)\<rparr>) (d_chat_db d)"
    and keeps_revive: "P st db \<Longrightarrow> hm_get (as_chats st) cid = Some sess \<Longrightarrow>
        P (st\<lparr>as_chats := hm_insert cid (sess\<lparr>cs_history_only := False\<rparr>) (as_chats st)\<rparr>) db"
    and keeps_sent: "good mo \<Longrightarrow> P (d_state d) (d_chat_db d) \<Longrightarrow>
        chat_record_message (at env mo) (chat_message cid Sent ts content) False d = (r, d') \<Longrightarrow>
        P (d_state d') (d_chat_db d')"
    and keeps_inbound: "good mo \<Longrightarrow> P (d_state d) (d_chat_db d) \<Longrightarrow> inbound_session cid account d = (changed, sess) \<Longrightarrow>
        chat_record_message (at env mo) (inbound_message (at env mo) cid content account inst) changed
          (update_chats (hm_insert cid sess) d) = (r, d') \<Longrightarrow> P (d_state d') (d_chat_db d')"
    and keeps_delete: "good mo \<Longrightarrow> P (d_state (w_display w)) (d_chat_db (w_display w)) \<Longrightarrow>
        delete_section (at env mo) cid w = (r, w') \<Longrightarrow> P (d_state (w_display w')) (d_chat_db (w_display w'))"
    and keeps_name: "good mo \<Longrightarrow> P (d_state (w_display w)) (d_chat_db (w_display w)) \<Longrightarrow>
        set_installation_name (at env mo) name w = (r, w') \<Longrightarrow>
        P (d_state (w_display w')) (d_chat_db (w_display w'))"
    and keeps_seed: "good mo \<Longrightarrow> source ie \<Longrightarrow>
        prepare_local (at env mo) ie = Inr (client, rx, sends, conn, st) \<Longrightarrow> P st (Some conn)"
    and keeps_reset: "P default_app_state None"
begin

subsection \<open>Building blocks\<close>

lemma some_system: "\<exists>s :: ('c, 'ms) system. display_of s = d"
  by (rule exI [of _ "\<lparr>sy_world = initial_world\<lparr>w_display := d\<rparr>, sy_closing = None\<rparr>"]) simp

text \<open>An action that leaves the display alone.\<close>

lemma safe_aside: "(\<And>s. display_of (u s) = display_of s) \<Longrightarrow> safe (run u k) x \<longleftrightarrow> safe k x"
proof (cases x)
  case (Some d)
  assume u: "\<And>s. display_of (u s) = display_of s"
  obtain s0 :: "('c, 'ms) system" where "display_of s0 = d" using some_system by blast
  with Some show ?thesis by (auto simp: u)
qed simp

lemma safe_blocks [simp]:
  "safe (log_task l line k) x \<longleftrightarrow> safe k x"
  "safe (emit_task e k) x \<longleftrightarrow> safe k x"
  "safe (hand_over_task c k) x \<longleftrightarrow> safe k x"
  by (simp_all add: log_task_def emit_task_def hand_over_task_def safe_aside del: safe.simps(5))

lemma safe_client [simp]:
  "safe (client_task f kc) None \<longleftrightarrow> (\<forall>s :: ('c, 'ms) system. safe (kc (fst (with_client f (sy_world s)))) None)"
  unfolding client_task_def by (subst safe_locked_other) simp_all

lemma safe_display [simp]:
  "safe (display_task g kd) None \<longleftrightarrow> (\<forall>s :: ('c, 'ms) system. guarded_ok P (display_of s) \<longrightarrow>
     guarded_ok P (w_display (snd (g (sy_world s)))) \<and> safe (kd (fst (g (sy_world s)))) None)"
  unfolding display_task_def by (simp add: safe_locked_guard)

lemma safe_check_live [simp]:
  "safe (check_live_task cid kl) None \<longleftrightarrow> (\<forall>s :: ('c, 'ms) system. guarded_ok P (display_of s) \<longrightarrow>
     safe (kl (check_live cid (sy_world s))) None)"
  unfolding check_live_task_def by simp

subsection \<open>Requests and queries\<close>

lemma guarded_enter:
  assumes "good mo" and "guarded_ok P (w_display w)"
  shows "guarded_ok P (w_display (snd (enter_session (at env mo) cid (new_session cid kind n de p) w)))"
proof -
  let ?d = "update_chats (hm_insert cid (new_session cid kind n de p)) (w_display w)"
  have "case persist_chat (at env mo) cid ?d of Inr d' \<Rightarrow> P (d_state d') (d_chat_db d')
      | Inl e \<Rightarrow> P (d_state ?d) (d_chat_db ?d)"
    using keeps_enter [OF assms(1) _ refl, of "w_display w" cid kind n de p] assms(2)
    by (simp add: guarded_ok_def split: sum.splits)
  then show ?thesis
    using assms(2) persist_chat_delivery(1) [of "at env mo" cid ?d]
    by (auto simp: enter_session_def guarded_ok_def Let_def split: sum.splits)
qed

lemma guarded_rename:
  assumes "good mo" and "guarded_ok P (w_display w)"
  shows "guarded_ok P (w_display (snd (rename_section (at env mo) cid nick w)))"
proof (cases "hm_get (chats (w_display w)) cid")
  case (Some sess)
  define n where "n = (if nick = [] then None else Some nick)"
  let ?d = "update_chats (hm_insert cid (sess\<lparr>cs_nickname := n\<rparr>)) (w_display w)"
  have "case persist_chat (at env mo) cid ?d of Inr d' \<Rightarrow> P (d_state d') (d_chat_db d')
      | Inl e \<Rightarrow> P (d_state ?d) (d_chat_db ?d)"
    using keeps_rename [OF assms(1) _ Some refl, of n] assms(2)
    by (simp add: guarded_ok_def split: sum.splits)
  then show ?thesis
    using Some assms(2) persist_chat_delivery(1) [of "at env mo" cid ?d]
    by (auto simp: rename_section_def enter_session_def guarded_ok_def Let_def n_def [symmetric] simp del: if_split
        split: sum.splits)
qed (use assms(2) in \<open>simp add: rename_section_def\<close>)

lemma guarded_sections:
  assumes "good mo" and "guarded_ok P (w_display w)"
  shows "guarded_ok P (w_display (snd (record_sent (at env mo) cid content w)))"
    and "guarded_ok P (w_display (snd (record_inbound (at env mo) cid content account inst w)))"
    and "guarded_ok P (w_display (snd (delete_section (at env mo) cid w)))"
    and "guarded_ok P (w_display (snd (set_installation_name (at env mo) name w)))"
proof -
  have P: "P (d_state (w_display w)) (d_chat_db (w_display w))" and D: "delivery_ok (delivery_of w)"
    using assms(2) by (simp_all add: guarded_ok_def)
  obtain r d' where s: "chat_record_message (at env mo) (chat_message cid Sent (now_ms (mo_clock mo)) content)
      False (w_display w) = (r, d')" by fastforce
  then have "d_delivery_state d' = delivery_of w" using chat_record_message_delivery by (metis snd_conv)
  then show "guarded_ok P (w_display (snd (record_sent (at env mo) cid content w)))"
    using keeps_sent [OF assms(1) P s] D by (simp add: record_sent_def s guarded_ok_def)
  obtain changed sess where i: "inbound_session cid account (w_display w) = (changed, sess)" by fastforce
  obtain r d' where s: "chat_record_message (at env mo) (inbound_message (at env mo) cid content account inst) changed
      (update_chats (hm_insert cid sess) (w_display w)) = (r, d')" by fastforce
  then have "d_delivery_state d' = delivery_of w"
    using chat_record_message_delivery [of "at env mo" _ changed "update_chats (hm_insert cid sess) (w_display w)"]
    by (metis snd_conv update_chats_simps(3))
  then show "guarded_ok P (w_display (snd (record_inbound (at env mo) cid content account inst w)))"
    using keeps_inbound [OF assms(1) P i s] D by (simp add: record_inbound_def i s guarded_ok_def)
  show "guarded_ok P (w_display (snd (delete_section (at env mo) cid w)))"
    using keeps_delete [OF assms(1) P prod.collapse [symmetric]] D
    by (auto simp: guarded_ok_def delete_section_def Let_def case_prod_unfold split: option.splits sum.splits)
  show "guarded_ok P (w_display (snd (set_installation_name (at env mo) name w)))"
    using keeps_name [OF assms(1) P prod.collapse [symmetric]] D
    by (auto simp: guarded_ok_def set_installation_name_def Let_def split: sum.splits)
qed

lemma safe_serve:
  assumes "good mo" and "\<And>r. safe (k r) None"
  shows "safe (serve_task (at env mo) req k) None"
  using assms(2)
  by (cases req) (simp_all add: request_task_defs guarded_enter guarded_rename guarded_sections assms(1) split: sum.split)

lemma safe_answer:
  assumes "\<And>r. safe (k r) None"
  shows "safe (answer_task env' q k) None"
  using assms by (cases q) (simp_all add: request_task_defs split: sum.split prod.split)

subsection \<open>The delivery state\<close>

definition deliver :: "delivery_state_kind \<Rightarrow> str \<Rightarrow> 'ms display \<Rightarrow> 'ms display" where
  "deliver st detail d = d\<lparr>d_delivery_state := (d_delivery_state d)\<lparr>ds_state := st, ds_detail := detail\<rparr>\<rparr>"

lemma safe_set_delivery_state:
  assumes "safe k (Some (deliver st detail d))"
  shows "safe (set_delivery_state_task st detail k) (Some d)"
proof -
  have "deliver st detail d = d" if "ds_state (d_delivery_state d) = st" "ds_detail (d_delivery_state d) = detail"
    using that by (cases d; cases "d_delivery_state d") (simp add: deliver_def)
  then show ?thesis
    using assms by (auto simp: set_delivery_state_task_def update_delivery_def deliver_def)
qed

lemma guarded_deliver:
  "guarded_ok P d \<Longrightarrow> st = Online \<longrightarrow> ds_started (d_delivery_state d) \<Longrightarrow>
     ds_started (d_delivery_state d) \<longrightarrow> st = Online \<or> st = Error \<Longrightarrow> guarded_ok P (deliver st detail d)"
  by (auto simp: guarded_ok_def deliver_def delivery_ok_def)

lemma safe_error [simp]: "safe (set_delivery_error_task detail k) None \<longleftrightarrow> safe k None"
  if "safe k None"
  using that by (auto simp: set_delivery_error_task_def intro!: safe_set_delivery_state guarded_deliver)

lemma safe_record_node_started:
  assumes "guarded_ok P d" and "safe k None"
  shows "safe (record_node_started_task success msg (Unlock Display_lock k)) (Some d)"
  using assms
  by (auto simp: record_node_started_task_def update_delivery_def guarded_ok_def delivery_ok_def deliver_def
      intro!: safe_set_delivery_state)

lemma safe_claim:
  assumes "\<And>b. safe (kb b) None"
  shows "safe (claim_delivery_retry_task kb) None"
  using assms by (auto simp: claim_delivery_retry_task_def intro!: safe_set_delivery_state guarded_deliver)

lemma guarded_delivery_field:
  "guarded_ok P (w_display w) \<Longrightarrow> ds_state (f (delivery_of w)) = ds_state (delivery_of w) \<Longrightarrow>
     ds_started (f (delivery_of w)) = ds_started (delivery_of w) \<Longrightarrow> guarded_ok P (w_display (update_delivery f w))"
  by (simp add: guarded_ok_def delivery_ok_def update_delivery_def)

lemma safe_complete:
  assumes "safe k None"
  shows "safe (complete_task env' call res k) None"
proof (cases call)
  case Start
  have "guarded_ok P (deliver Error e (d\<lparr>d_delivery_state := (d_delivery_state d)\<lparr>ds_starting := False\<rparr>\<rparr>))"
    if "guarded_ok P d" for d e
    using that by (auto simp: guarded_ok_def deliver_def delivery_ok_def)
  with Start assms show ?thesis
    by (auto simp: update_delivery_def split: sum.split intro!: safe_set_delivery_state)
qed (use assms in \<open>simp_all add: start_node_task_def guarded_delivery_field safe_locked_other Let_def
    split: sum.split\<close>)

lemma safe_callback: "safe (callback_task env' call res) None"
  by (simp add: callback_task_def safe_complete)

subsection \<open>The event consumer\<close>

lemma safe_conversation_started:
  assumes g: "good mo" and k: "safe k None"
  shows "safe (record_conversation_started_task (at env mo) cid kind k) None"
proof -
  have new: "guarded_ok P (case persist_chat (at env mo) cid d' of Inr d'' \<Rightarrow> d'' | Inl e \<Rightarrow> d')"
    if "guarded_ok P d" "d' = update_chats (hm_insert cid (new_session cid kind n de None)) d" for d d' n de
    using keeps_enter [OF g _ refl, of d cid kind n de None] that persist_chat_delivery(1) [of "at env mo" cid d']
    by (auto simp: guarded_ok_def split: sum.splits)
  have revived: "guarded_ok P (update_chats (hm_insert cid (sess\<lparr>cs_history_only := False\<rparr>)) d)"
    if "guarded_ok P d" "hm_get (chats d) cid = Some sess" for d sess
    using that by (simp add: guarded_ok_def keeps_revive)
  have "safe (Lock Display_lock (look (\<lambda>s. if cid \<in> as_deleted (d_state (display_of s)) then Unlock Display_lock k
      else case hm_get (chats (display_of s)) cid of
        Some session \<Rightarrow> if cs_history_only session
          then run (on_world (with_display_mut (update_chats (hm_insert cid (session\<lparr>cs_history_only := False\<rparr>)))))
            (emit_task (Conversation_updated cid) (Unlock Display_lock k))
          else Unlock Display_lock k
      | None \<Rightarrow> run (on_world (with_display_mut (update_chats (hm_insert cid (new_session cid kind n de None)))))
          (emit_task e (Act (on_world (\<lambda>w. case persist_chat (at env mo) cid (w_display w) of
               Inr d \<Rightarrow> with_display_mut (\<lambda>_. d) w | Inl e \<Rightarrow> w))
             (\<lambda>s. case persist_chat (at env mo) cid (display_of s) of
                Inr d \<Rightarrow> Unlock Display_lock k
              | Inl e \<Rightarrow> log_task ERROR (line e) (Unlock Display_lock k))))))) None" for n de e line
    using k new [OF _ refl, of _ n de] revived
    by (auto split: option.split sum.splits) (fastforce split: sum.splits)+
  then show ?thesis
    by (simp add: record_conversation_started_task_def group_details_task_def split: sum.split prod.split)
qed

lemma safe_message_received:
  assumes "good mo" and "safe k None"
  shows "safe (record_message_received_task (at env mo) cid content account inst k) None"
  using guarded_sections(2) [OF assms(1)] assms(2)
  by (auto simp: record_message_received_task_def Let_def split: sum.split)

lemma safe_handle_event:
  assumes "good mo" and "safe k None"
  shows "safe (handle_event_task (at env mo) evt k) None"
  using assms by (cases evt) (auto simp: safe_conversation_started safe_message_received record_members_changed_task_def)

lemma safe_events: "list_all (\<lambda>(mo, _). good mo) evts \<Longrightarrow> safe (events_task env evts) None"
  by (induction evts) (auto simp: safe_handle_event)

subsection \<open>The bridge\<close>

lemma over_bridge_display [simp]: "display_of (over_bridge f s) = display_of s"
  by (simp add: over_bridge_def Let_def split: option.split)

lemma safe_each: "(\<And>e k. safe k None \<Longrightarrow> safe (handle e k) None) \<Longrightarrow> safe k None \<Longrightarrow> safe (each_task handle es k) None"
  by (induction es) simp_all

lemma safe_drain:
  assumes "safe k None"
  shows "safe (drain_task (on_node_started_task dcs) sub clear k) None"
    and "safe (drain_task (on_connection_state_task dcs) sub clear k) None"
proof -
  have "safe (on_node_started_task dcs e k) None" if "safe k None" for e k
    using that by (auto simp: on_node_started_task_def safe_record_node_started split: option.split prod.split)
  then show "safe (drain_task (on_node_started_task dcs) sub clear k) None"
    by (simp add: drain_task_def safe_each assms)
  have "safe (on_connection_state_task dcs e k) None" if "safe k None" for e k
    using that
    by (auto simp: on_connection_state_task_def connection_transition_def map_connection_status_def
        split: option.split intro!: safe_set_delivery_state guarded_deliver)
  then show "safe (drain_task (on_connection_state_task dcs) sub clear k) None"
    by (simp add: drain_task_def safe_each assms)
qed

lemma safe_bridge: "safe (bridge_task dcs n) None"
proof (induction n)
  case (Suc n)
  let ?k = "\<lambda>returns. if returns then Done else bridge_task dcs n"
  have "safe (forward_subscriptions_task (?k False)) None"
    using Suc by (auto simp: forward_subscriptions_task_def foldl_hand_over split: option.split)
  then have "safe (bridge_turn_task dcs ?k) None"
    by (simp add: bridge_turn_task_def forward_message_task_def safe_drain Let_def split: option.split recv_outcome.split)
  then show ?case by (simp split: option.split)
qed simp

subsection \<open>Lifecycle\<close>

lemma safe_init:
  assumes "good mo" and "source ie" and "\<And>b r. safe (k b r) None"
  shows "safe (init_task (at env mo) ie preset j k) None"
proof -
  have "guarded_ok P (w_display (seed_display (at env mo) client db st w))"
    if "prepare_local (at env mo) ie = Inr (client, rx, sends, db, st)" for client rx sends db st w
    using keeps_seed [OF assms(1,2) that]
    by (simp add: seed_display_def guarded_ok_def delivery_ok_def ds_initialising_def)
  then have "safe (start_session_task (at env mo) ie j prepared k') None"
    if "prepare_local (at env mo) ie = Inr prepared" "\<And>r. safe (k' r) None" for prepared k'
    using that by (cases prepared)
      (simp add: start_session_task_def install_def Let_def split: sum.split)
  then show ?thesis
    using assms(3) by (auto simp: init_task_def install_once_locks_def bootstrap_task_def safe_claim Let_def
        start_delivery_bootstrap_def split: sum.split)
qed

lemma safe_shutdown:
  assumes "\<And>b r. safe (k b r) None"
  shows "safe (shutdown_task workers k) None"
proof -
  have "guarded_ok P default_display"
    by (simp add: guarded_ok_def default_display_def delivery_ok_def ds_stopped_def keeps_reset)
  moreover have "display_of (snd (take_session s)) = display_of s" for s :: "('c, 'ms) system"
    by (simp add: take_session_def take_state_def split: option.split)
  ultimately show ?thesis
    using assms by (cases workers)
      (simp_all add: shutdown_task_def safe_locked_other split: sum.split bool.split)
qed

text \<open>The calls at good moments, over sound files.\<close>

definition calls_good :: "(moment \<times> ('c, 'ms) host_call) list \<Rightarrow> bool" where
  "calls_good calls \<longleftrightarrow> list_all (\<lambda>(mo, c). good mo \<and> (case c of Call_init ie _ _ \<Rightarrow> source ie | _ \<Rightarrow> True)) calls"

lemma safe_host: "calls_good calls \<Longrightarrow> safe (host_task env calls workers) None"
proof (induction calls arbitrary: workers)
  case (Cons mc calls)
  obtain mo c where mc: "mc = (mo, c)" by (cases mc)
  have "safe (host_task env calls ws) None" for ws using Cons by (simp add: calls_good_def)
  then show ?case
    using Cons.prems mc by (cases c) (simp_all add: calls_good_def safe_init safe_serve safe_answer safe_shutdown)
qed simp

fun worker_good :: "worker \<Rightarrow> bool" where
  "worker_good (Events_worker evts) \<longleftrightarrow> list_all (\<lambda>(mo, _). good mo) evts"
| "worker_good _ \<longleftrightarrow> True"

lemma safe_worker: "worker_good w \<Longrightarrow> safe (worker_task env dcs w) None"
  by (cases w) (simp_all add: safe_bridge safe_events safe_callback)

lemma process_safe:
  assumes "calls_good calls" and "\<forall>w\<in>set workers. worker_good (snd w)" and "guarded_ok P (display_of s)"
  shows "pool_safe (process_pool env dcs calls workers s)"
  using assms
  by (auto simp: pool_safe_def process_pool_def nth_Cons known_def safe_host safe_worker case_prod_unfold
      split: nat.split)

theorem process_invariant:
  assumes "pool_step\<^sup>*\<^sup>* (process_pool env dcs calls workers s) q" and "calls_good calls"
    and "\<forall>w\<in>set workers. worker_good (snd w)" and "guarded_ok P (display_of s)"
    and "free Display_lock (po_threads q)"
  shows "guarded_ok P (display_of (po_state q))"
  using guarded_invariant [OF assms(1) process_pool_exclusive process_safe [OF assms(2-4)] assms(5)] .

end

end
