(* ===== verification/Lock_Storage.thy ===== *)
theory Lock_Storage
  imports Lock_Guards
begin

text \<open>
  The interpretations of \<open>chat_guard\<close>: on the trivial condition, which leaves the delivery state, and
  on \<open>shown_stored\<close>: every conversation shown has its row in \<open>chat.db\<close> and the messages it shows are
  the last ones stored for it, with the tombstones and the name of the file.
\<close>

interpretation delivery_guard: chat_guard "\<lambda>_ _. True" env "\<lambda>_. True" "\<lambda>_. True"
  for env :: "('c, 'ms) env"
  by unfold_locales (simp_all split: sum.split)

section \<open>Everything shown is stored\<close>

definition stored_in :: "('ms \<Rightarrow> message list) \<Rightarrow> 'ms connection \<Rightarrow> app_state \<Rightarrow> bool" where
  "stored_in log conn st \<longleftrightarrow>
     (\<forall>cid s. hm_get (as_chats st) cid = Some s \<longrightarrow> cs_chat_id s = cid \<and>
        hm_get (t_chats conn) cid = Some (row_of_session s) \<and>
        suffix (cs_messages s) (stored_of log (t_messages conn) cid)) \<and>
     as_deleted st = set (t_deleted conn) \<and>
     as_installation_name st = hm_get (t_settings conn) ''installation_name''"

definition shown_stored :: "('ms \<Rightarrow> message list) \<Rightarrow> app_state \<Rightarrow> 'ms connection option \<Rightarrow> bool" where
  "shown_stored log st db \<longleftrightarrow> (case db of None \<Rightarrow> True | Some conn \<Rightarrow> stored_in log conn st)"

text \<open>A display in step with the file shows what is stored.\<close>

lemma persisted_stored: "persisted log conn st \<Longrightarrow> stored_in log conn st"
  by (fastforce simp: persisted_def stored_in_def history_ok_def suffix_def)

lemma stored_put:
  assumes "stored_in log conn st" and "cs_chat_id s = cid"
    and "suffix (cs_messages s) (stored_of log (t_messages conn) cid)"
  shows "stored_in log (conn\<lparr>t_chats := hm_insert cid (row_of_session s) (t_chats conn)\<rparr>)
    (st\<lparr>as_chats := hm_insert cid s (as_chats st)\<rparr>)"
  using assms by (simp add: stored_in_def)

lemma stored_message:
  assumes "stored_in log conn st" and "hm_get (as_chats st) (m_chat_id m) = Some s"
    and "log ms' = log (t_messages conn) @ [m]"
  shows "stored_in log (conn\<lparr>t_messages := ms'\<rparr>)
    (st\<lparr>as_chats := hm_insert (m_chat_id m) (s\<lparr>cs_messages := cs_messages s @ [display_message m]\<rparr>) (as_chats st)\<rparr>)"
proof -
  have "row_of_session (s\<lparr>cs_messages := xs\<rparr>) = row_of_session s" for xs by (simp add: row_of_session_def)
  moreover have "stored_of log ms' cid = stored_of log (t_messages conn) cid
      @ (if cid = m_chat_id m then [display_message m] else [])" for cid
    by (auto simp: stored_of_def assms(3) of_chat_def)
  ultimately show ?thesis using assms(1,2) by (auto simp: stored_in_def)
qed

text \<open>Saving a session that shows a suffix of what is stored, at a moment when nothing fails.\<close>

lemma persist_stored:
  assumes "healthy env" and "shown_stored log (d_state d) (d_chat_db d)" and "cs_chat_id s = cid"
    and "\<And>conn. d_chat_db d = Some conn \<Longrightarrow> suffix (cs_messages s) (stored_of log (t_messages conn) cid)"
  shows "case persist_chat env cid (update_chats (hm_insert cid s) d) of
      Inr d' \<Rightarrow> shown_stored log (d_state d') (d_chat_db d')
    | Inl e \<Rightarrow> shown_stored log ((d_state d)\<lparr>as_chats := hm_insert cid s (chats d)\<rparr>) (d_chat_db d)"
proof (cases "d_chat_db d")
  case (Some conn)
  have "stored_in log conn (d_state d)" using assms(2) Some by (simp add: shown_stored_def)
  from stored_put [OF this assms(3) assms(4) [OF Some]]
  have "persist_chat env cid (update_chats (hm_insert cid s) d) = Inr ((update_chats (hm_insert cid s) d)
      \<lparr>d_chat_db := Some (conn\<lparr>t_chats := hm_insert cid (row_of_session s) (t_chats conn)\<rparr>)\<rparr>)"
    and "stored_in log (conn\<lparr>t_chats := hm_insert cid (row_of_session s) (t_chats conn)\<rparr>)
      ((d_state d)\<lparr>as_chats := hm_insert cid s (chats d)\<rparr>)"
    using assms(1,3) Some by (simp_all add: persist_chat_def save_chat_def healthy_def)
  then show ?thesis by (simp add: shown_stored_def)
qed (simp add: persist_chat_def shown_stored_def)

lemma record_stored:
  assumes laws: "store_laws (e_store env) log" and h: "healthy env"
    and st: "shown_stored log (d_state d) (d_chat_db d)" and cid: "cs_chat_id sess = m_chat_id msg"
    and hist: "case hm_get (chats d) (m_chat_id msg) of
        None \<Rightarrow> changed \<and> cs_messages sess = []
      | Some old \<Rightarrow> cs_messages sess = cs_messages old \<and> (changed \<or> sess = old)"
    and r: "chat_record_message env msg changed (update_chats (hm_insert (m_chat_id msg) sess) d) = (r, d')"
  shows "shown_stored log (d_state d') (d_chat_db d')"
proof (cases "d_chat_db d")
  case None
  then show ?thesis using r by (auto simp: chat_record_message_def shown_stored_def)
next
  case (Some conn)
  let ?cid = "m_chat_id msg" and ?d = "update_chats (hm_insert (m_chat_id msg) sess) d"
  let ?conn = "if changed then conn\<lparr>t_chats := hm_insert ?cid (row_of_session sess) (t_chats conn)\<rparr> else conn"
  have s: "stored_in log conn (d_state d)" using st Some by (simp add: shown_stored_def)
  have "suffix (cs_messages sess) (stored_of log (t_messages conn) ?cid)"
    using hist s by (cases "hm_get (chats d) ?cid") (auto simp: stored_in_def)
  from stored_put [OF s cid this] have new: "stored_in log (conn\<lparr>t_chats := hm_insert ?cid (row_of_session sess) (t_chats conn)\<rparr>)
      (d_state ?d)" by simp
  have put: "stored_in log ?conn (d_state ?d)"
  proof (cases changed)
    case False
    then have "hm_get (chats d) ?cid = Some sess" using hist by (auto split: option.splits)
    then show ?thesis using s False by (simp add: update_put_back)
  qed (use new in simp)
  obtain rec conn' where rec: "record_message (e_store env) (e_fault env) conn
      (if changed then Some sess else None) msg = (rec, conn')" by fastforce
  moreover have "rec = Inr ()"
    using rec record_message_up [of "e_store env" conn _ msg] h by (metis fst_conv healthy_def)
  ultimately obtain ms' where "log ms' = log (t_messages conn) @ [msg]" "conn' = ?conn\<lparr>t_messages := ms'\<rparr>"
    using record_message_Inr [OF laws] cid by (force split: if_splits)
  then have "stored_in log conn' ((d_state ?d)\<lparr>as_chats := hm_insert ?cid
      (sess\<lparr>cs_messages := cs_messages sess @ [display_message msg]\<rparr>) (chats ?d)\<rparr>)"
    using stored_message [OF put, of msg sess ms'] by simp
  then show ?thesis using r rec Some by (auto simp: chat_record_message_def shown_stored_def)
qed

lemma delete_stored:
  assumes laws: "store_laws (e_store env) log" and h: "healthy env"
    and st: "shown_stored log (d_state (w_display w)) (d_chat_db (w_display w))"
    and r: "delete_section env cid w = (r, w')"
  shows "shown_stored log (d_state (w_display w')) (d_chat_db (w_display w'))"
proof (cases "d_chat_db (w_display w)")
  case (Some conn)
  obtain rec conn' where del: "delete_chat (e_store env) (e_fault env) conn cid = (rec, conn')" by fastforce
  moreover have "rec = Inr ()"
    using del delete_chat_up [of "e_store env" conn cid] h by (metis fst_conv healthy_def)
  ultimately obtain ms' where ms': "log ms' = filter (\<lambda>m. m_chat_id m \<noteq> cid) (log (t_messages conn))"
    and "conn' = conn\<lparr>t_messages := ms', t_chats := hm_remove cid (t_chats conn),
          t_deleted := insert_or_ignore cid (t_deleted conn)\<rparr>"
    using delete_chat_Inr [OF laws] by blast
  moreover have "stored_of log ms' c = stored_of log (t_messages conn) c" if "c \<noteq> cid" for c
    using that by (simp add: stored_of_def ms' of_chat_other)
  ultimately show ?thesis
    using st r Some del \<open>rec = Inr ()\<close>
    by (auto simp: delete_section_def shown_stored_def stored_in_def insert_or_ignore_def Let_def split: if_splits)
qed (use r st in \<open>auto simp: delete_section_def shown_stored_def Let_def split: if_splits\<close>)

lemma name_stored:
  assumes "shown_stored log (d_state (w_display w)) (d_chat_db (w_display w))"
    and "set_installation_name env name w = (r, w')"
  shows "shown_stored log (d_state (w_display w')) (d_chat_db (w_display w'))"
  using assms
  by (auto simp: set_installation_name_def shown_stored_def stored_in_def Let_def and_then_Inr_iff
      save_installation_name_def run_stmt_Inr_iff split: sum.splits option.splits)

section \<open>Reading a file back\<close>

text \<open>The file's tables have unique keys; whatever they hold, what init reads from them is stored.\<close>

definition sound_file :: "('c, 'ms) init_env \<Rightarrow> bool" where
  "sound_file ie \<longleftrightarrow> (\<forall>path key conn. open_db (ie_driver ie) path key = Inr conn \<longrightarrow> hm_wf (t_chats conn))"

lemma session_of_row_Inr:
  "session_of_row cid row = Inr s \<Longrightarrow> cs_chat_id s = cid \<and> row_of_session s = row"
  by (auto simp: session_of_row_def and_then_Inr_iff row_of_session_def kind_column_result_def kind_to_sql_def
      split: if_splits)

lemma load_rows_stored:
  assumes laws: "store_laws api log" and "load_rows api ms rows acc = Inr loaded" and "distinct (map fst rows)"
    and "hm_get loaded cid = Some s"
  shows "(hm_get acc cid = Some s \<and> cid \<notin> fst ` set rows) \<or>
    (\<exists>row. (cid, row) \<in> set rows \<and> cs_chat_id s = cid \<and> row_of_session s = row \<and>
       suffix (cs_messages s) (stored_of log ms cid))"
  using assms(2-4)
proof (induction rows arbitrary: acc)
  case (Cons r rows)
  obtain c row where r: "r = (c, row)" by (cases r)
  from Cons.prems(1) r obtain s0 stored total where
    s0: "session_of_row c row = Inr s0" and stored: "st_messages api ms c LOADED_PER_CHAT = Inr stored"
    and rest: "load_rows api ms rows (hm_insert c (s0\<lparr>cs_messages := map display_message stored,
        cs_older_messages := total - len_usize (map display_message stored)\<rparr>) acc) = Inr loaded"
    by (auto simp: and_then_Inr_iff Let_def)
  let ?s = "s0\<lparr>cs_messages := map display_message stored,
        cs_older_messages := total - len_usize (map display_message stored)\<rparr>"
  have "stored = last_n LOADED_PER_CHAT (of_chat c (log ms))"
    using stored laws by (simp add: store_laws_def)
  then have "suffix (cs_messages ?s) (stored_of log ms c)"
    by (simp add: stored_of_def last_n_def suffix_drop drop_map [symmetric])
  moreover have "cs_chat_id ?s = c" "row_of_session ?s = row"
    using session_of_row_Inr [OF s0] by (simp_all add: row_of_session_def)
  ultimately show ?case
    using Cons.IH [OF rest] Cons.prems(2,3) r by (auto split: if_splits)
qed simp

lemma prepare_stored:
  assumes laws: "store_laws (e_store env) log" and "sound_file ie"
    and p: "prepare_local env ie = Inr (client, rx, sends, conn, st)"
  shows "stored_in log conn st"
proof -
  obtain path st0 live where o: "open_db (ie_driver ie) (path @ ''/chat.db'') (storage_key path) = Inr conn"
    and l: "load_state (e_store env) (e_fault env) conn = Inr st0"
    and st: "st = st0\<lparr>as_chats := hm_map_values
              (\<lambda>s. s\<lparr>cs_history_only := cs_chat_id s \<notin> set live\<rparr>) (as_chats st0)\<rparr>"
    by (rule prepare_local_Inr [OF p])
  have wf: "hm_wf (t_chats conn)" using assms(2) o by (simp add: sound_file_def)
  from l have rows: "load_rows (e_store env) (t_messages conn) (t_chats conn) [] = Inr (as_chats st0)"
    and rest: "as_deleted st0 = set (t_deleted conn)"
      "as_installation_name st0 = hm_get (t_settings conn) ''installation_name''"
    by (auto simp: load_state_def and_then_Inr_iff run_stmt_Inr_iff)
  have "cs_chat_id s = cid \<and> hm_get (t_chats conn) cid = Some (row_of_session s) \<and>
      suffix (cs_messages s) (stored_of log (t_messages conn) cid)" if "hm_get (as_chats st0) cid = Some s" for cid s
    using load_rows_stored [OF laws rows _ that] wf by (auto simp: hm_wf_def hm_get_iff_in)
  moreover have "row_of_session (s\<lparr>cs_history_only := b\<rparr>) = row_of_session s" for s b
    by (simp add: row_of_session_def)
  ultimately show ?thesis by (auto simp: stored_in_def st rest)
qed

section \<open>The interpretation\<close>

text \<open>Moments when no statement fails, over a store that keeps its laws.\<close>

definition calm_store :: "('c, 'ms) env \<Rightarrow> ('ms \<Rightarrow> message list) \<Rightarrow> moment \<Rightarrow> bool" where
  "calm_store env log mo \<longleftrightarrow> healthy (at env mo) \<and> store_laws (e_store env) log"

interpretation storage_guard: chat_guard "shown_stored log" env "calm_store env log" sound_file
  for env :: "('c, 'ms) env" and log :: "'ms \<Rightarrow> message list"
proof (unfold_locales, goal_cases)
  case (1 mo d cid kind n de p saved)
  then show ?case
    using persist_stored [of "at env mo" log d "new_session cid kind n de p" cid] by (simp add: calm_store_def)
next
  case (2 mo d cid sess nick saved)
  then have "suffix (cs_messages sess) (stored_of log (t_messages conn) cid)" "cs_chat_id sess = cid"
    if "d_chat_db d = Some conn" for conn
    using that by (auto simp: shown_stored_def stored_in_def)
  with 2 show ?case
    using persist_stored [of "at env mo" log d "sess\<lparr>cs_nickname := nick\<rparr>" cid]
    by (cases "d_chat_db d") (auto simp: calm_store_def persist_chat_def shown_stored_def)
next
  case (3 st db cid sess)
  moreover have "row_of_session (sess\<lparr>cs_history_only := False\<rparr>) = row_of_session sess"
    by (simp add: row_of_session_def)
  ultimately show ?case by (auto simp: shown_stored_def stored_in_def split: option.splits)
next
  case (4 mo d cid ts content r d')
  show ?case
  proof (cases "hm_get (chats d) cid")
    case None
    with 4 show ?thesis by (auto simp: chat_record_message_def chat_message_def)
  next
    case (Some sess)
    then have "update_chats (hm_insert cid sess) d = d" by (rule update_put_back)
    moreover have "cs_chat_id sess = cid \<or> d_chat_db d = None"
      using 4 Some by (auto simp: shown_stored_def stored_in_def split: option.splits)
    ultimately show ?thesis
      using 4 Some record_stored [of "at env mo" log d sess "chat_message cid Sent ts content" False r d']
      by (auto simp: calm_store_def chat_message_def) (simp add: chat_record_message_def shown_stored_def)
  qed
next
  case (5 mo d cid account changed sess content inst r d')
  let ?msg = "inbound_message (at env mo) cid content account inst"
  have m: "m_chat_id ?msg = cid" by (simp add: inbound_message_def chat_message_def)
  show ?case
  proof (cases "d_chat_db d")
    case None
    with 5 m show ?thesis by (auto simp: chat_record_message_def shown_stored_def)
  next
    case (Some conn)
    then have "cs_chat_id old = cid" if "hm_get (chats d) cid = Some old" for old
      using 5 that by (auto simp: shown_stored_def stored_in_def)
    then have "cs_chat_id sess = cid"
      using inbound_session_history [OF 5(3)] by (auto split: option.splits)
    with 5 m show ?thesis
      using inbound_session_history [OF 5(3)]
      by (intro record_stored [of "at env mo" log d sess ?msg changed r d'])
        (auto simp: calm_store_def split: option.splits)
  qed
next
  case (6 mo w cid r w')
  then show ?case using delete_stored [of "at env mo" log w cid r w'] by (simp add: calm_store_def)
next
  case (7 mo w name r w')
  then show ?case using name_stored [of log w "at env mo" name r w'] by simp
next
  case (8 mo ie client rx sends conn st)
  then show ?case
    using prepare_stored [of "at env mo" log ie client rx sends conn st] by (simp add: calm_store_def shown_stored_def)
qed (simp add: shown_stored_def)

end
