(* ===== verification/Schedules.thy ===== *)
theory Schedules
  imports Lock_Safety
begin

text \<open>
  Schedules of a pool.  When all other threads have ended, whatever is left of a thread runs to its
  end and leaves what \<open>exec\<close> says (\<open>alone_keeps_exec\<close>, \<open>reaches_rest\<close>); applied to the host this is
  the agreement of the tasks with the operations of theories Actions and Chat_Module.  A schedule of
  several threads is a list of places, which \<open>run_schedule\<close> runs.
\<close>

section \<open>A pool in which one thread is left\<close>

text \<open>A task that never gives up on a lock.\<close>

primrec waits :: "('l, 's) task \<Rightarrow> bool" where
  "waits Done \<longleftrightarrow> True"
| "waits (Lock l t) \<longleftrightarrow> waits t"
| "waits (Unlock l t) \<longleftrightarrow> waits t"
| "waits (Try_lock l t e) \<longleftrightarrow> False"
| "waits (Act u k) \<longleftrightarrow> (\<forall>s. waits (k s))"
| "waits (Spawn j t) \<longleftrightarrow> waits t"
| "waits (Join j t) \<longleftrightarrow> waits t"

lemma waits_locked [simp]: "waits (locked l f k) \<longleftrightarrow> (\<forall>s. waits (k (fst (f s))))"
  by (simp add: locked_def)

definition only_left :: "nat \<Rightarrow> ('l, 's) pool \<Rightarrow> bool" where
  "only_left i p \<longleftrightarrow> i < length (po_threads p) \<and> waits (th_task (po_threads p ! i)) \<and>
     (\<forall>j < length (po_threads p). j \<noteq> i \<longrightarrow> th_task (po_threads p ! j) = Done)"

lemma only_left_step:
  assumes "pool_step p q" and "only_left i p"
  shows "only_left i q \<and>
    exec (th_task (po_threads q ! i)) (po_state q) = exec (th_task (po_threads p ! i)) (po_state p)"
  using assms
proof (induction rule: pool_step.induct)
  case (Takes j ts h l t s)
  then have "j = i" by (auto simp: only_left_def)
  with Takes show ?case by (auto simp: only_left_def)
next
  case (Releases j ts h l t s)
  then have "j = i" by (auto simp: only_left_def)
  with Releases show ?case by (auto simp: only_left_def)
next
  case (Gets j ts h l t e s)
  then have "j = i" by (auto simp: only_left_def)
  with Gets show ?case by (auto simp: only_left_def)
next
  case (Misses j ts h l t e s)
  then have "j = i" by (auto simp: only_left_def)
  with Misses show ?case by (auto simp: only_left_def)
next
  case (Acts j ts h u k s)
  then have "j = i" by (auto simp: only_left_def)
  with Acts show ?case by (auto simp: only_left_def)
next
  case (Spawns j ts h m t s)
  then have "j = i" by (auto simp: only_left_def)
  with Spawns show ?case by (auto simp: only_left_def nth_list_update)
next
  case (Joins j ts h m t s)
  then have "j = i" by (auto simp: only_left_def)
  with Joins show ?case by (auto simp: only_left_def)
qed

lemma alone_keeps_exec:
  assumes "pool_step\<^sup>*\<^sup>* p q" and "only_left i p"
  shows "only_left i q \<and>
    exec (th_task (po_threads q ! i)) (po_state q) = exec (th_task (po_threads p ! i)) (po_state p)"
  using assms by (induction rule: rtranclp_induct) (auto dest: only_left_step)

text \<open>A disciplined pool comes to rest from everywhere it gets to.\<close>

lemma reaches_rest:
  assumes "pool_ok p" and "exclusive p"
  shows "\<exists>q. pool_step\<^sup>*\<^sup>* p q \<and> at_rest q"
  using assms
proof (induction p rule: wfp_induct_rule [OF pool_step_wf])
  case (1 p)
  show ?case
  proof (cases "at_rest p")
    case False
    then obtain q where q: "pool_step p q"
      using never_stuck [OF rtranclp.rtrancl_refl 1(2,3)] by (auto simp: can_move_def)
    then have "pool_ok q" "exclusive q" using 1(2,3) by (auto intro: pool_ok_step exclusive_step)
    then show ?thesis using 1(1) q by (meson converse_rtranclp_into_rtranclp)
  qed blast
qed

text \<open>Every run of the pool ends, and ends in \<open>s\<close>.\<close>

definition ends_in :: "('l, 's) pool \<Rightarrow> 's \<Rightarrow> bool" where
  "ends_in p s \<longleftrightarrow> (\<exists>q. pool_step\<^sup>*\<^sup>* p q \<and> at_rest q) \<and>
     (\<forall>q. pool_step\<^sup>*\<^sup>* p q \<longrightarrow> at_rest q \<or> can_move q) \<and>
     (\<forall>q. pool_step\<^sup>*\<^sup>* p q \<longrightarrow> at_rest q \<longrightarrow> po_state q = s)"

lemma alone_ends_in:
  assumes "pool_ok p" and "exclusive p" and "only_left i p" and "th_started (po_threads p ! i)"
  shows "ends_in p (exec (th_task (po_threads p ! i)) (po_state p))"
proof -
  have keep: "length (po_threads r) = length (po_threads q) \<and> (th_started (po_threads q ! i) \<longrightarrow> th_started (po_threads r ! i))"
    if "pool_step q r" for q r :: "('a, 'b) pool"
    using that
  proof (induction rule: pool_step.induct)
    case (Spawns j ts h m t s)
    then show ?case by (cases "m < length ts") (auto simp: start_thread_def nth_list_update list_update_beyond)
  qed (auto simp: nth_list_update)
  have "th_started (po_threads q ! i)" if "pool_step\<^sup>*\<^sup>* p q" for q
    using that by (induction rule: rtranclp_induct) (use assms(4) keep in auto)
  then have "po_state q = exec (th_task (po_threads p ! i)) (po_state p)" if "pool_step\<^sup>*\<^sup>* p q" "at_rest q" for q
    using alone_keeps_exec [OF that(1) assms(3)] that by (auto simp: at_rest_def only_left_def)
  then show ?thesis
    using reaches_rest [OF assms(1,2)] never_stuck [OF _ assms(1,2)] by (auto simp: ends_in_def)
qed

section \<open>The host's calls, one after the other\<close>

named_theorems waits_rules

lemma waits_blocks [waits_rules]:
  fixes k :: "('c, 'ms) prog" and kc :: "core_error + 'r \<Rightarrow> ('c, 'ms) prog"
    and kl :: "core_error + unit \<Rightarrow> ('c, 'ms) prog" and kd :: "'q \<Rightarrow> ('c, 'ms) prog"
  shows "waits (log_task l line k) \<longleftrightarrow> waits k"
  "waits (emit_task e k) \<longleftrightarrow> waits k"
  "waits (hand_over_task c k) \<longleftrightarrow> waits k"
  "waits (client_task f kc) \<longleftrightarrow> (\<forall>s :: ('c, 'ms) system. waits (kc (fst (with_client f (sy_world s)))))"
  "waits (display_task g kd) \<longleftrightarrow> (\<forall>s :: ('c, 'ms) system. waits (kd (fst (g (sy_world s)))))"
  "waits (check_live_task cid kl) \<longleftrightarrow> (\<forall>s :: ('c, 'ms) system. waits (kl (check_live cid (sy_world s))))"
  "waits (set_delivery_state_task st detail k) \<longleftrightarrow> waits k"
  by (auto simp: log_task_def emit_task_def hand_over_task_def client_task_def display_task_def
      check_live_task_def set_delivery_state_task_def)

lemma waits_serve: "(\<And>r. waits (k r)) \<Longrightarrow> waits (serve_task env req k)"
  by (cases req) (simp_all add: request_task_defs waits_rules split: sum.split)

lemma waits_answer: "(\<And>r. waits (k r)) \<Longrightarrow> waits (answer_task env q k)"
  by (cases q) (simp_all add: request_task_defs waits_rules split: sum.split prod.split)

lemma waits_init:
  assumes "\<And>b r. waits (k b r)"
  shows "waits (init_task env ie preset j k)"
proof -
  have "waits (start_session_task env ie j prepared k')" if "\<And>r. waits (k' r)" for prepared k'
    using that by (simp add: start_session_task_def waits_rules Let_def split: sum.split prod.split)
  then show ?thesis
    using assms by (auto simp: init_task_def install_once_locks_def bootstrap_task_def
        claim_delivery_retry_task_def waits_rules Let_def split: sum.split)
qed

lemma waits_shutdown: "(\<And>b r. waits (k b r)) \<Longrightarrow> waits (shutdown_task workers k)"
  by (cases workers) (simp_all add: shutdown_task_def waits_rules split: sum.split bool.split)

lemma waits_handle_event: "waits k \<Longrightarrow> waits (handle_event_task env evt k)"
  by (cases evt) (simp_all add: record_conversation_started_task_def group_details_task_def
      record_message_received_task_def record_members_changed_task_def waits_rules Let_def
      split: sum.split option.split prod.split)

lemma waits_host: "waits (host_task env calls workers)"
  by (induction env calls workers rule: host_task.induct)
    (simp_all add: waits_init waits_serve waits_answer waits_shutdown)

text \<open>The same calls as operations on the world, with no worker acting in between.\<close>

fun run_call ::
  "('c, 'ms) env \<Rightarrow> decoders \<Rightarrow> ('c, 'ms) host_call \<Rightarrow> ('c, 'ms) world \<Rightarrow> ('c, 'ms) world" where
  "run_call env dcs (Call_init ie preset j) w = snd (init_world env ie preset w)"
| "run_call env dcs (Call_serve req) w = snd (serve env req w)"
| "run_call env dcs (Call_query q) w = snd (answer env q w)"
| "run_call env dcs Call_shutdown w = snd (shutdown_module env dcs [] [] w)"

fun run_calls ::
  "('c, 'ms) env \<Rightarrow> decoders \<Rightarrow> (moment \<times> ('c, 'ms) host_call) list \<Rightarrow> ('c, 'ms) world \<Rightarrow> ('c, 'ms) world" where
  "run_calls env dcs [] w = w"
| "run_calls env dcs ((mo, c) # calls) w = run_calls env dcs calls (run_call (at env mo) dcs c w)"

lemma exec_host:
  "sy_closing s = None \<Longrightarrow> exec (host_task env calls workers) s = on_world (run_calls env dcs calls) s"
proof (induction env calls workers arbitrary: s rule: host_task.induct)
  case (5 env mo calls workers)
  then show ?case
    by (simp add: exec_shutdown [where env = "at env mo" and dcs = dcs] on_world_def)
qed (simp_all add: exec_init exec_serve exec_answer on_world_def)

section \<open>Schedules of several threads\<close>

text \<open>The move of thread \<open>i\<close>, when it has one: \<open>pool_step\<close> as a function.\<close>

definition thread_step :: "nat \<Rightarrow> ('l, 's) pool \<Rightarrow> ('l, 's) pool option" where
  "thread_step i p =
     (let s = po_state p; ts = po_threads p; h = th_held (ts ! i);
          move = (\<lambda>s h t. \<lparr>po_state = s, po_threads = ts[i := \<lparr>th_started = True, th_held = h, th_task = t\<rparr>]\<rparr>)
      in if i < length ts \<and> th_started (ts ! i)
         then (case th_task (ts ! i) of
             Done \<Rightarrow> None
           | Lock l t \<Rightarrow> if free l ts then Some (move s (l # h) t) else None
           | Unlock l t \<Rightarrow> Some (move s (remove1 l h) t)
           | Try_lock l t e \<Rightarrow> Some (if free l ts then move s (l # h) t else move s h e)
           | Act u k \<Rightarrow> Some (move (u s) h (k s))
           | Spawn j t \<Rightarrow> Some ((move s h t)\<lparr>po_threads := start_thread j (po_threads (move s h t))\<rparr>)
           | Join j t \<Rightarrow> if ended j ts then Some (move s h t) else None)
         else None)"

lemma thread_step_Some:
  "i < length ts \<Longrightarrow> ts ! i = \<lparr>th_started = True, th_held = h, th_task = t\<rparr> \<Longrightarrow>
     thread_step i \<lparr>po_state = s, po_threads = ts\<rparr> =
      (let move = (\<lambda>s h t. \<lparr>po_state = s, po_threads = ts[i := \<lparr>th_started = True, th_held = h, th_task = t\<rparr>]\<rparr>)
       in case t of
            Done \<Rightarrow> None
          | Lock l t \<Rightarrow> if free l ts then Some (move s (l # h) t) else None
          | Unlock l t \<Rightarrow> Some (move s (remove1 l h) t)
          | Try_lock l t e \<Rightarrow> Some (if free l ts then move s (l # h) t else move s h e)
          | Act u k \<Rightarrow> Some (move (u s) h (k s))
          | Spawn j t \<Rightarrow> Some ((move s h t)\<lparr>po_threads := start_thread j (po_threads (move s h t))\<rparr>)
          | Join j t \<Rightarrow> if ended j ts then Some (move s h t) else None)"
  by (simp add: thread_step_def)

lemma thread_step_at [simp]:
  "i < length ts \<Longrightarrow> thread_step i \<lparr>po_state = s, po_threads = ts[i := \<lparr>th_started = True, th_held = h, th_task = t\<rparr>]\<rparr> =
    (let ts' = ts[i := \<lparr>th_started = True, th_held = h, th_task = t\<rparr>];
         move = (\<lambda>s h t. \<lparr>po_state = s, po_threads = ts[i := \<lparr>th_started = True, th_held = h, th_task = t\<rparr>]\<rparr>)
       in case t of
            Done \<Rightarrow> None
          | Lock l t \<Rightarrow> if free l ts' then Some (move s (l # h) t) else None
          | Unlock l t \<Rightarrow> Some (move s (remove1 l h) t)
          | Try_lock l t e \<Rightarrow> Some (if free l ts' then move s (l # h) t else move s h e)
          | Act u k \<Rightarrow> Some (move (u s) h (k s))
          | Spawn j t \<Rightarrow> Some ((move s h t)\<lparr>po_threads := start_thread j (po_threads (move s h t))\<rparr>)
          | Join j t \<Rightarrow> if ended j ts' then Some (move s h t) else None)"
  by (subst thread_step_Some) (simp_all add: Let_def split: task.split)

lemma free_same:
  "i < length ts \<Longrightarrow> th_held x = th_held (ts ! i) \<Longrightarrow> free l (ts[i := x]) = free l ts"
  by (auto simp: free_nth nth_list_update)

lemma pool_step_thread: "pool_step p q \<Longrightarrow> \<exists>i. thread_step i p = Some q"
proof (induction rule: pool_step.induct)
  case (Takes i ts h l t s)
  then show ?case by (intro exI [of _ i]) (simp add: thread_step_Some)
next
  case (Releases i ts h l t s)
  then show ?case by (intro exI [of _ i]) (simp add: thread_step_Some)
next
  case (Gets i ts h l t e s)
  then show ?case by (intro exI [of _ i]) (simp add: thread_step_Some)
next
  case (Misses i ts h l t e s)
  then show ?case by (intro exI [of _ i]) (simp add: thread_step_Some)
next
  case (Acts i ts h u k s)
  then show ?case by (intro exI [of _ i]) (simp add: thread_step_Some)
next
  case (Spawns i ts h j t s)
  then show ?case by (intro exI [of _ i]) (simp add: thread_step_Some)
next
  case (Joins i ts h j t s)
  then show ?case by (intro exI [of _ i]) (simp add: thread_step_Some)
qed

lemma thread_step_iff: "pool_step p q \<longleftrightarrow> (\<exists>i. thread_step i p = Some q)"
proof
  show "pool_step p q \<Longrightarrow> \<exists>i. thread_step i p = Some q" by (rule pool_step_thread)
next
  assume "\<exists>i. thread_step i p = Some q"
  then obtain i where q: "thread_step i p = Some q" ..
  obtain s ts where p: "p = \<lparr>po_state = s, po_threads = ts\<rparr>" by (cases p) auto
  obtain st h t where th: "ts ! i = \<lparr>th_started = st, th_held = h, th_task = t\<rparr>" by (cases "ts ! i") auto
  from q p th have "i < length ts" "st" by (auto simp: thread_step_def Let_def split: if_splits)
  then show "pool_step p q"
    using q p th
    by (auto simp: thread_step_def Let_def split: task.splits if_splits intro: pool_step.intros)
qed

text \<open>The places of the threads, in the order in which they move.\<close>

fun run_schedule :: "nat list \<Rightarrow> ('l, 's) pool \<Rightarrow> ('l, 's) pool option" where
  "run_schedule [] p = Some p"
| "run_schedule (i # is) p = (case thread_step i p of None \<Rightarrow> None | Some q \<Rightarrow> run_schedule is q)"

lemma run_schedule_iff: "pool_step\<^sup>*\<^sup>* p q \<longleftrightarrow> (\<exists>is. run_schedule is p = Some q)"
proof
  assume "pool_step\<^sup>*\<^sup>* p q"
  then show "\<exists>is. run_schedule is p = Some q"
  proof (induction rule: converse_rtranclp_induct)
    case base
    show ?case by (rule exI [of _ "[]"]) simp
  next
    case (step p r)
    then obtain i "is" where "thread_step i p = Some r" "run_schedule is r = Some q" by (auto simp: thread_step_iff)
    then show ?case by (intro exI [of _ "i # is"]) simp
  qed
next
  have "run_schedule is p = Some q \<Longrightarrow> pool_step\<^sup>*\<^sup>* p q" for "is"
  proof (induction "is" arbitrary: p)
    case (Cons i "is")
    then obtain r where "thread_step i p = Some r" "run_schedule is r = Some q" by (auto split: option.splits)
    then show ?case using Cons.IH thread_step_iff by (meson converse_rtranclp_into_rtranclp)
  qed simp
  then show "\<exists>is. run_schedule is p = Some q \<Longrightarrow> pool_step\<^sup>*\<^sup>* p q" by blast
qed

fun task_done :: "('l, 's) task \<Rightarrow> bool" where
  "task_done Done \<longleftrightarrow> True"
| "task_done _ \<longleftrightarrow> False"

lemma task_done_iff: "task_done t \<longleftrightarrow> t = Done"
  by (cases t) simp_all

lemma at_rest_code [code]: "at_rest p \<longleftrightarrow> list_all (\<lambda>t. th_started t \<longrightarrow> task_done (th_task t)) (po_threads p)"
  by (simp add: at_rest_def list_all_iff task_done_iff)

lemma ended_code [code]: "ended j ts \<longleftrightarrow> (j < length ts \<longrightarrow> task_done (th_task (ts ! j)))"
  by (simp add: ended_def task_done_iff)

end
