(* ===== verification/Lock_Text.thy ===== *)
theory Lock_Text
  imports Lock_Properties
begin

text \<open>
  What is shown is text.  A Rust \<open>String\<close> is valid UTF-8 by its type; here strings are lists of bytes,
  so the types leave it open, and it is proved: \<open>chat_guard\<close> is interpreted on the condition that
  every message in the display is valid UTF-8.
\<close>

definition texts_ok :: "app_state \<Rightarrow> bool" where
  "texts_ok st \<longleftrightarrow> hm_wf (as_chats st) \<and> (\<forall>cid s. hm_get (as_chats st) cid = Some s \<longrightarrow> list_all (\<lambda>m. utf8 (dm_content m)) (cs_messages s))"

lemma display_message_utf8 [simp]: "utf8 (dm_content (display_message m))"
  by (simp add: display_message_def utf8_from_utf8_lossy)

lemma texts_ok_put:
  "texts_ok st \<Longrightarrow> list_all (\<lambda>m. utf8 (dm_content m)) (cs_messages s) \<Longrightarrow>
     texts_ok (st\<lparr>as_chats := hm_insert cid s (as_chats st)\<rparr>)"
  by (simp add: texts_ok_def hm_simps)

lemma texts_okD: "texts_ok st \<Longrightarrow> hm_get (as_chats st) cid = Some s \<Longrightarrow> list_all (\<lambda>m. utf8 (dm_content m)) (cs_messages s)"
  by (simp add: texts_ok_def)

lemma texts_ok_persist:
  "texts_ok (d_state d) \<Longrightarrow> persist_chat env cid d = Inr d' \<Longrightarrow> texts_ok (d_state d')"
  by (auto simp: persist_chat_def and_then_Inr_iff)

lemma texts_ok_record:
  "texts_ok (d_state d) \<Longrightarrow> chat_record_message env msg changed d = (r, d') \<Longrightarrow> texts_ok (d_state d')"
  by (auto simp: chat_record_message_def Let_def case_prod_unfold texts_ok_put texts_okD split: option.splits)

lemma load_rows_texts:
  assumes "load_rows api ms rows acc = Inr loaded"
    and "\<And>cid s. hm_get acc cid = Some s \<Longrightarrow> list_all (\<lambda>m. utf8 (dm_content m)) (cs_messages s)"
    and "hm_wf acc"
  shows "hm_wf loaded \<and> (\<forall>cid s. hm_get loaded cid = Some s \<longrightarrow> list_all (\<lambda>m. utf8 (dm_content m)) (cs_messages s))"
  using assms
proof (induction rows arbitrary: acc)
  case (Cons r rows)
  obtain c row where r: "r = (c, row)" by (cases r)
  from Cons.prems(1) r obtain s0 stored total where
    rest: "load_rows api ms rows (hm_insert c (s0\<lparr>cs_messages := map display_message stored,
        cs_older_messages := total - len_usize (map display_message stored)\<rparr>) acc) = Inr loaded"
    by (auto simp: and_then_Inr_iff Let_def)
  show ?case
    by (rule Cons.IH [OF rest]) (use Cons.prems(2,3) in \<open>auto simp: list_all_iff hm_simps split: if_splits\<close>)
qed auto

lemma prepare_texts:
  assumes p: "prepare_local env ie = Inr (client, rx, sends, conn, st)"
  shows "texts_ok st"
proof -
  obtain path st0 live where "open_db (ie_driver ie) (path @ ''/chat.db'') (storage_key path) = Inr conn"
    and l: "load_state (e_store env) (e_fault env) conn = Inr st0"
    and st: "st = st0\<lparr>as_chats := hm_map_values
              (\<lambda>s. s\<lparr>cs_history_only := cs_chat_id s \<notin> set live\<rparr>) (as_chats st0)\<rparr>"
    by (rule prepare_local_Inr [OF p])
  from l have "load_rows (e_store env) (t_messages conn) (t_chats conn) [] = Inr (as_chats st0)"
    by (auto simp: load_state_def and_then_Inr_iff run_stmt_Inr_iff)
  from load_rows_texts [OF this] show ?thesis by (auto simp: texts_ok_def st)
qed

lemma texts_ok_delete: "texts_ok (d_state (w_display w)) \<Longrightarrow> delete_section env cid w = (r, w') \<Longrightarrow>
    texts_ok (d_state (w_display w'))"
  by (auto simp: delete_section_def Let_def case_prod_unfold texts_ok_def hm_simps split: if_splits option.splits sum.splits)

lemma texts_ok_name: "texts_ok (d_state (w_display w)) \<Longrightarrow> set_installation_name env name w = (r, w') \<Longrightarrow>
    texts_ok (d_state (w_display w'))"
  by (auto simp: set_installation_name_def Let_def texts_ok_def split: sum.splits)

interpretation text_guard: chat_guard "\<lambda>st _. texts_ok st" env "\<lambda>_. True" "\<lambda>_. True"
  for env :: "('c, 'ms) env"
proof (unfold_locales, goal_cases)
  case (1 mo d cid kind n de p saved)
  then have "texts_ok (d_state (update_chats (hm_insert cid (new_session cid kind n de p)) d))"
    by (simp add: texts_ok_put new_session_def)
  from texts_ok_persist [OF this] 1 this show ?case by (auto split: sum.split)
next
  case (2 mo d cid sess nick saved)
  then have "texts_ok (d_state (update_chats (hm_insert cid (sess\<lparr>cs_nickname := nick\<rparr>)) d))"
    by (simp add: texts_ok_put texts_okD)
  from texts_ok_persist [OF this] 2 this show ?case by (auto split: sum.split)
next
  case (3 st db cid sess)
  then show ?case by (simp add: texts_ok_put texts_okD)
next
  case (4 mo d cid ts content r d')
  then show ?case using texts_ok_record by blast
next
  case (5 mo d cid account changed sess content inst r d')
  have "list_all (\<lambda>m. utf8 (dm_content m)) (cs_messages sess)"
    using inbound_session_history [OF 5(3)] 5(2) by (auto simp: texts_okD split: option.splits)
  then have "texts_ok (d_state (update_chats (hm_insert cid sess) d))" using 5(2) by (simp add: texts_ok_put)
  with 5(4) show ?case using texts_ok_record by blast
next
  case (6 mo w cid r w')
  then show ?case using texts_ok_delete by blast
next
  case (7 mo w name r w')
  then show ?case using texts_ok_name by blast
next
  case (8 mo ie client rx sends conn st)
  then show ?case by (intro prepare_texts [of "at env mo" ie client rx sends conn st])
qed (simp add: texts_ok_def default_app_state_def)

lemma last_opt_in: "last_opt xs = Some x \<Longrightarrow> x \<in> set xs"
  by (auto simp: last_opt_def split: if_splits list.splits)

text \<open>C20: Whatever bytes peers send and whatever bytes \<open>chat.db\<close> holds, what the getters show is text.
  In every interleaving from the start of the process, whenever the display lock is free, every
  message of \<open>get_messages\<close> and every preview of \<open>list_conversations\<close> is valid UTF-8: ill-formed bytes
  have been replaced, and no preview is cut inside a character.\<close>

theorem shown_text_is_utf8:
  assumes "pool_step\<^sup>*\<^sup>* (process_pool env dcs calls workers \<lparr>sy_world = initial_world, sy_closing = None\<rparr>) q"
    and "free Display_lock (po_threads q)"
  shows "list_all (\<lambda>m. utf8 (mv_content m)) (get_messages cid (sy_world (po_state q))) \<and>
    list_all (\<lambda>c. utf8 (unwrap_or (cv_preview c) [])) (list_conversations (sy_world (po_state q)))"
proof -
  have calls: "text_guard.calls_good calls" by (auto simp: text_guard.calls_good_def list_all_iff split: host_call.split)
  have workers: "text_guard.worker_good w" for w
    by (cases w) (simp_all add: list_all_iff)
  have start: "guarded_ok (\<lambda>st _. texts_ok st) (w_display (initial_world :: ('a, 'b) world))"
    by (simp add: guarded_ok_def initial_world_def default_display_def delivery_ok_def ds_stopped_def
        texts_ok_def default_app_state_def)
  have ok: "texts_ok (d_state (display_of (po_state q)))"
    using text_guard.process_invariant [OF assms(1) calls _ _ assms(2)] workers start
    by (simp add: guarded_ok_def)
  have "list_all (\<lambda>m. utf8 (mv_content m)) (get_messages cid (sy_world (po_state q)))"
    using ok by (cases "hm_get (chats (display_of (po_state q))) cid")
      (auto simp: get_messages_def with_display_def view_of_def list_all_iff texts_ok_def)
  moreover have "utf8 (unwrap_or (cv_preview (conversation_of s)) [])"
    if s: "s \<in> set (hm_values (chats (display_of (po_state q))))" for s
  proof (cases "last_opt (cs_messages s)")
    case (Some m)
    obtain cid where "hm_get (chats (display_of (po_state q))) cid = Some s"
      using ok s by (auto simp: texts_ok_def set_hm_values)
    then have "utf8 (dm_content m)" using ok last_opt_in [OF Some] by (auto simp: texts_ok_def list_all_iff)
    then show ?thesis using Some by (simp add: conversation_of_def utf8_take_chars)
  qed (simp add: conversation_of_def)
  ultimately show ?thesis by (auto simp: list_conversations_def with_display_def list_all_iff)
qed

lemma shown_text_is_utf8_witness:
  "\<exists>q. run_schedule early_start_schedule early_start = Some q \<and>
     list_all (\<lambda>m. utf8 (mv_content m)) (get_messages ''dm'' (sy_world (po_state q)))"
proof -
  have "case run_schedule early_start_schedule early_start of None \<Rightarrow> False
      | Some q \<Rightarrow> free Display_lock (po_threads q)" by code_simp
  then obtain q where q: "run_schedule early_start_schedule early_start = Some q" "free Display_lock (po_threads q)"
    by (auto split: option.splits)
  then have "pool_step\<^sup>*\<^sup>* early_start q" using run_schedule_iff by blast
  from shown_text_is_utf8 [OF this [unfolded early_start_def] q(2)] q(1) show ?thesis by blast
qed

end
