(* ===== verification/Accounts.thy ===== *)
theory Accounts
  imports Tasks "HOL-Library.Multiset"
begin

text \<open>
  What a thread changes under a lock and reports later.  \<open>posted\<close> reads the reports off the state;
  \<open>balanced d M\<close> says that the guarded data \<open>d\<close> is accounted for by the reports \<open>M\<close>.  A thread may
  change the data before it has reported the change: until then it owes the report.  \<open>pays\<close> says that a
  task reports all it owes before it ends, given what it may rely on the other threads to keep of the
  data while it does not hold the lock.  Whatever the schedule, the data is then balanced by what was
  posted together with what is owed, and at rest nothing is owed.
\<close>

locale accounts =
  fixes guard :: 'l and data :: "'s \<Rightarrow> 'd" and posted :: "'s \<Rightarrow> 'v multiset"
    and balanced :: "'d \<Rightarrow> 'v multiset \<Rightarrow> bool" and rely :: "'d \<Rightarrow> 'd \<Rightarrow> bool"
  assumes rely_refl [simp]: "rely d d" and rely_trans: "rely d e \<Longrightarrow> rely e f \<Longrightarrow> rely d f"
begin

section \<open>Tasks that pay\<close>

text \<open>An action that has reported \<open>new\<close> leaves \<open>o'\<close> owed where \<open>o\<close> was.\<close>

definition settles :: "('s \<Rightarrow> 's) \<Rightarrow> 's \<Rightarrow> 'v multiset \<Rightarrow> 'v multiset \<Rightarrow> bool" where
  "settles u s owed owed' \<longleftrightarrow> (\<exists>new. posted (u s) = posted s + new \<and>
     (\<forall>M. balanced (data s) (M + owed) \<longrightarrow> balanced (data (u s)) (M + new + owed')))"

text \<open>
  The task of a thread that has the lock or not, has last seen the data \<open>d\<close>, and owes \<open>owed\<close>.
\<close>

primrec pays :: "('l, 's) task \<Rightarrow> bool \<Rightarrow> 'd \<Rightarrow> 'v multiset \<Rightarrow> bool" where
  "pays Done has d owed \<longleftrightarrow> owed = {#}"
| "pays (Lock l t) has d owed \<longleftrightarrow>
     (if l = guard then \<not> has \<and> (\<forall>d'. rely d d' \<longrightarrow> pays t True d' owed) else pays t has d owed)"
| "pays (Unlock l t) has d owed \<longleftrightarrow> (if l = guard then has \<and> pays t False d owed else pays t has d owed)"
| "pays (Try_lock l t e) has d owed \<longleftrightarrow>
     (if l = guard then \<not> has \<longrightarrow> (\<forall>d'. rely d d' \<longrightarrow> pays t True d' owed) else pays t has d owed) \<and>
     pays e has d owed"
| "pays (Act u k) has d owed \<longleftrightarrow> (\<forall>s. (if has then data s = d else rely d (data s)) \<longrightarrow>
     (has \<or> data (u s) = data s) \<and> rely (data s) (data (u s)) \<and> (\<exists>owed'. settles u s owed owed' \<and> pays (k s) has (data (u s)) owed'))"
| "pays (Spawn j t) has d owed \<longleftrightarrow> pays t has d owed"
| "pays (Join j t) has d owed \<longleftrightarrow> pays t has d owed"

lemma settles_aside [simp]: "data (u s) = data s \<Longrightarrow> posted (u s) = posted s \<Longrightarrow> settles u s owed owed"
  unfolding settles_def by (intro exI [of _ "{#}"]) simp

lemma settles_report:
  "data (u s) = data s \<Longrightarrow> posted (u s) = posted s + new \<Longrightarrow> settles u s (new + owed) owed"
  unfolding settles_def by (intro exI [of _ new]) (simp add: ac_simps)

lemma settles_change:
  "posted (u s) = posted s \<Longrightarrow> (\<And>M. balanced (data s) (M + owed) \<Longrightarrow> balanced (data (u s)) (M + owed')) \<Longrightarrow>
     settles u s owed owed'"
  unfolding settles_def by (intro exI [of _ "{#}"]) simp

text \<open>What the other threads do while the lock is free to them does no harm.\<close>

lemma pays_later: "pays t False d owed \<Longrightarrow> rely d d' \<Longrightarrow> pays t False d' owed"
proof (induction t arbitrary: d d' owed)
  case (Act u k)
  then show ?case by (auto intro: rely_trans)
qed (auto intro: rely_trans split: if_splits)

lemma pays_aside:
  assumes "\<And>s. data (u s) = data s" and "\<And>s. posted (u s) = posted s" and "pays t has d owed"
  shows "pays (run u t) has d owed"
  using assms pays_later by (fastforce intro: settles_aside split: if_splits)

lemma pays_look:
  assumes "\<And>s. (if has then data s = d else rely d (data s)) \<Longrightarrow> pays (k s) has (data s) owed"
  shows "pays (look k) has d owed"
  using assms by (auto intro!: exI [of _ owed])

lemma pays_report:
  assumes "\<And>s. data (u s) = data s" and "\<And>s. posted (u s) = posted s + new" and "pays t has d owed"
  shows "pays (run u t) has d (new + owed)"
  using assms pays_later by (fastforce intro: settles_report split: if_splits)

text \<open>A change under the lock.\<close>

lemma pays_change:
  assumes "\<And>s. data s = d \<Longrightarrow> rely d (data (u s)) \<and> posted (u s) = posted s"
    and "\<And>s M. data s = d \<Longrightarrow> balanced d (M + owed) \<Longrightarrow> balanced (data (u s)) (M + owed' s)"
    and "\<And>s. data s = d \<Longrightarrow> pays (k s) True (data (u s)) (owed' s)"
  shows "pays (Act u k) True d owed"
  using assms by (auto intro!: settles_change exI)

text \<open>Closures under the lock, and under another.\<close>

lemma pays_locked_guard:
  assumes "\<And>s. rely d (data s) \<Longrightarrow> rely (data s) (data (snd (f s))) \<and> posted (snd (f s)) = posted s"
    and "\<And>s M. rely d (data s) \<Longrightarrow> balanced (data s) (M + owed) \<Longrightarrow> balanced (data (snd (f s))) (M + owed' s)"
    and "\<And>s. rely d (data s) \<Longrightarrow> pays (k (fst (f s))) False (data (snd (f s))) (owed' s)"
  shows "pays (locked guard f k) False d owed"
proof -
  have "pays (Act (\<lambda>s. snd (f s)) (\<lambda>s. Unlock guard (k (fst (f s))))) True d' owed" if "rely d d'" for d'
    using assms that by (intro pays_change [where owed' = owed']) auto
  then show ?thesis by (simp add: locked_def)
qed

lemma pays_locked_other:
  assumes "l \<noteq> guard" and "\<And>s. data (snd (f s)) = data s" and "\<And>s. posted (snd (f s)) = posted s"
    and "\<And>s. rely d (data s) \<Longrightarrow> pays (k (fst (f s))) False (data s) owed"
  shows "pays (locked l f k) False d owed"
  using assms by (auto simp: locked_def intro!: exI [of _ owed])

section \<open>The accounts of a pool\<close>

definition books :: "(nat \<Rightarrow> 'v multiset) \<Rightarrow> ('l, 's) pool \<Rightarrow> bool" where
  "books owed p \<longleftrightarrow>
     (\<forall>i < length (po_threads p).
        pays (th_task (po_threads p ! i)) (guard \<in> set (th_held (po_threads p ! i))) (data (po_state p)) (owed i) \<and>
        (\<not> th_started (po_threads p ! i) \<longrightarrow> owed i = {#})) \<and>
     balanced (data (po_state p)) (posted (po_state p) + (\<Sum>i<length (po_threads p). owed i))"

lemma books_move:
  assumes b: "books owed \<lparr>po_state = s, po_threads = ts\<rparr>" and ex: "exclusive \<lparr>po_state = s, po_threads = ts\<rparr>"
    and i: "i < length ts" and st: "th_started x"
    and data: "rely (data s) (data s')" "guard \<notin> set (th_held (ts ! i)) \<Longrightarrow> data s' = data s"
    and new: "pays (th_task x) (guard \<in> set (th_held x)) (data s') o'" "posted s' = posted s + new"
      "\<And>M. balanced (data s) (M + owed i) \<Longrightarrow> balanced (data s') (M + new + o')"
  shows "books (owed(i := o')) \<lparr>po_state = s', po_threads = ts[i := x]\<rparr>"
proof -
  have "pays (th_task (ts ! j)) (guard \<in> set (th_held (ts ! j))) (data s') (owed j)" if "j < length ts" "j \<noteq> i" for j
  proof (cases "guard \<in> set (th_held (ts ! j))")
    case True
    then have "guard \<notin> set (th_held (ts ! i))" using ex i that by (fastforce simp: exclusive_def)
    then show ?thesis using data(2) b that by (simp add: books_def)
  next
    case False
    then have "pays (th_task (ts ! j)) False (data s) (owed j)" using b that by (auto simp: books_def)
    with False show ?thesis using pays_later [OF _ data(1)] by simp
  qed
  moreover have "(\<Sum>j<length ts. owed j) = owed i + (\<Sum>j\<in>{..<length ts} - {i}. owed j)"
    "(\<Sum>j<length ts. (owed(i := o')) j) = o' + (\<Sum>j\<in>{..<length ts} - {i}. owed j)"
    using i by (simp_all add: sum.remove [of _ i])
  ultimately show ?thesis
    using b i st new(1,2) new(3) [of "posted s + (\<Sum>j\<in>{..<length ts} - {i}. owed j)"]
    by (auto simp: books_def nth_list_update ac_simps)
qed

lemma books_start:
  assumes "books owed \<lparr>po_state = s, po_threads = ts\<rparr>"
  shows "books owed \<lparr>po_state = s, po_threads = start_thread j ts\<rparr>"
proof -
  have "th_started (ts ! i) \<Longrightarrow> th_started (start_thread j ts ! i)" if "i < length ts" for i
    using that by (cases "i = j") (simp_all add: start_thread_def)
  then show ?thesis using assms by (auto simp: books_def)
qed

lemma booksD:
  assumes "books owed \<lparr>po_state = s, po_threads = ts\<rparr>" and "i < length ts"
    and "ts ! i = \<lparr>th_started = True, th_held = h, th_task = t\<rparr>"
  shows "pays t (guard \<in> set h) (data s) (owed i)"
  using assms by (auto simp: books_def)

text \<open>A move that leaves the state as it is.\<close>

lemma books_stay:
  assumes "books owed \<lparr>po_state = s, po_threads = ts\<rparr>" and "exclusive \<lparr>po_state = s, po_threads = ts\<rparr>"
    and "i < length ts" and "th_started x" and "pays (th_task x) (guard \<in> set (th_held x)) (data s) (owed i)"
  shows "books owed \<lparr>po_state = s, po_threads = ts[i := x]\<rparr>"
  using books_move [where s' = s and o' = "owed i" and new = "{#}", OF assms(1-4) _ _ assms(5)] by simp

lemma books_step: "pool_step p q \<Longrightarrow> exclusive p \<Longrightarrow> books owed p \<Longrightarrow> \<exists>owed'. books owed' q"
proof (induction rule: pool_step.induct)
  case (Takes i ts h l t s)
  have "l = guard \<Longrightarrow> guard \<notin> set h" using Takes(1,2,3) by (auto simp: free_nth)
  then show ?case
    using booksD [OF Takes(5,1,2)] by (intro exI [of _ owed] books_stay [OF Takes(5,4,1)]) (auto split: if_splits)
next
  case (Releases i ts h l t s)
  have "distinct h" using Releases(1,2,3) by (auto simp: exclusive_def)
  then show ?case
    using booksD [OF Releases(4,1,2)]
    by (intro exI [of _ owed] books_stay [OF Releases(4,3,1)]) (auto simp: in_set_remove1 split: if_splits)
next
  case (Gets i ts h l t e s)
  have "l = guard \<Longrightarrow> guard \<notin> set h" using Gets(1,2,3) by (auto simp: free_nth)
  then show ?case
    using booksD [OF Gets(5,1,2)] by (intro exI [of _ owed] books_stay [OF Gets(5,4,1)]) (auto split: if_splits)
next
  case (Misses i ts h l t e s)
  then show ?case
    using booksD [OF Misses(5,1,2)] by (intro exI [of _ owed] books_stay [OF Misses(5,4,1)]) auto
next
  case (Acts i ts h u k s)
  from booksD [OF Acts(4,1,2)] obtain owed' where o: "rely (data s) (data (u s))"
      "guard \<notin> set h \<Longrightarrow> data (u s) = data s" "pays (k s) (guard \<in> set h) (data (u s)) owed'"
    and "settles u s (owed i) owed'"
    by (cases "guard \<in> set h") (auto dest!: spec [of _ s])
  then obtain new where "posted (u s) = posted s + new"
    "\<And>M. balanced (data s) (M + owed i) \<Longrightarrow> balanced (data (u s)) (M + new + owed')" by (auto simp: settles_def)
  with o Acts(2) show ?case by (intro exI [of _ "owed(i := owed')"] books_move [OF Acts(4,3,1)]) simp_all
next
  case (Spawns i ts h j t s)
  then show ?case
    using booksD [OF Spawns(4,1,2)] by (intro exI [of _ owed] books_start books_stay [OF Spawns(4,3,1)]) auto
next
  case (Joins i ts h j t s)
  then show ?case
    using booksD [OF Joins(5,1,2)] by (intro exI [of _ owed] books_stay [OF Joins(5,4,1)]) auto
qed

text \<open>Whatever the schedule: the books can be kept, and at rest nothing is owed.\<close>

theorem books_kept:
  assumes "pool_step\<^sup>*\<^sup>* p q" and "exclusive p" and "books owed p"
  shows "\<exists>M. balanced (data (po_state q)) (posted (po_state q) + M) \<and> (at_rest q \<longrightarrow> M = {#})"
proof -
  have "exclusive q \<and> (\<exists>owed'. books owed' q)"
    using assms by (induction rule: rtranclp_induct) (auto intro: exclusive_step dest: books_step)
  then obtain owed' where b: "books owed' q" by blast
  have "owed' i = {#}" if "at_rest q" "i < length (po_threads q)" for i
    using b that nth_mem [OF that(2)]
    by (cases "th_started (po_threads q ! i)") (auto simp: books_def at_rest_def)
  then have "at_rest q \<longrightarrow> (\<Sum>i<length (po_threads q). owed' i) = {#}" by simp
  with b show ?thesis unfolding books_def by blast
qed

end

end
