(* ===== verification/Announcement_Accounts.thy ===== *)
theory Announcement_Accounts
  imports Accounts Lock_Safety Followers
begin

text \<open>
  The messages shown and the messages announced, as accounts: the locale \<open>accounts\<close> is interpreted on the
  display's lock, with the announcements of one conversation as the reports.  A message is shown from the
  closure that records it, and owed until its event is emitted.  \<open>settled\<close> collects the tasks that pay for
  all they do; here are the rules of the building blocks, and the requests and queries.
\<close>

section \<open>Announced and shown\<close>

text \<open>The message an event tells of, in a conversation.\<close>

fun message_told :: "str \<Rightarrow> event \<Rightarrow> message_view list" where
  "message_told cid (Message_received convo_id content timestamp sender) =
     (if convo_id = cid then [\<lparr>mv_from_self = False, mv_content = content, mv_timestamp_ms = timestamp,
        mv_sender = Some sender\<rparr>] else [])"
| "message_told cid (Message_sent convo_id content timestamp) =
     (if convo_id = cid then [\<lparr>mv_from_self = True, mv_content = content, mv_timestamp_ms = timestamp,
        mv_sender = None\<rparr>] else [])"
| "message_told cid _ = []"

definition messages_told :: "str \<Rightarrow> ('c, 'ms) world \<Rightarrow> message_view multiset" where
  "messages_told cid w = mset (concat (map (message_told cid) (w_events w)))"

lemma messages_told_emit [simp]:
  "messages_told cid (emit e w) = messages_told cid w + mset (message_told cid e)"
  by (simp add: messages_told_def)

lemma messages_told_same: "w_events w' = w_events w \<Longrightarrow> messages_told cid w' = messages_told cid w"
  by (simp add: messages_told_def)

text \<open>What the lock guards of the display, as far as conversations go.\<close>

record 'ms shelf =
  sh_state :: app_state
  sh_db :: "'ms connection option"

definition shelf :: "('c, 'ms) world \<Rightarrow> 'ms shelf" where
  "shelf w = \<lparr>sh_state = d_state (w_display w), sh_db = d_chat_db (w_display w)\<rparr>"

definition messages_of :: "str \<Rightarrow> 'ms shelf \<Rightarrow> message_view list" where
  "messages_of cid d = map view_of (unwrap_or (map_option cs_messages (hm_get (as_chats (sh_state d)) cid)) [])"

definition buried_in :: "str \<Rightarrow> 'ms shelf \<Rightarrow> bool" where
  "buried_in cid d \<longleftrightarrow> cid \<in> as_deleted (sh_state d)"

definition present_in :: "str \<Rightarrow> 'ms shelf \<Rightarrow> bool" where
  "present_in cid d \<longleftrightarrow> hm_contains (as_chats (sh_state d)) cid"

definition open_in :: "'ms shelf \<Rightarrow> bool" where
  "open_in d \<longleftrightarrow> sh_db d \<noteq> None"

lemma shelf_reads:
  "messages_of cid (shelf w) = get_messages cid w"
  "buried_in cid (shelf w) \<longleftrightarrow> cid \<in> as_deleted (d_state (w_display w))"
  "present_in cid (shelf w) \<longleftrightarrow> shown w cid \<noteq> None"
  "open_in (shelf w) \<longleftrightarrow> d_chat_db (w_display w) \<noteq> None"
  by (simp_all add: shelf_def messages_of_def buried_in_def present_in_def open_in_def hm_contains_def
      get_messages_def with_display_def)

text \<open>
  Of an account opened with \<open>before\<close> shown and \<open>told\<close> announced: a conversation that was not deleted
  shows what it did, and what was announced since.
\<close>

definition accounted ::
  "str \<Rightarrow> message_view multiset \<Rightarrow> message_view multiset \<Rightarrow> 'ms shelf \<Rightarrow> message_view multiset \<Rightarrow> bool" where
  "accounted cid before told d M \<longleftrightarrow> buried_in cid d \<or> mset (messages_of cid d) + told = before + M"

text \<open>What a thread may rely on: deleted stays deleted, a conversation leaves only by deletion, and
  \<open>chat.db\<close> stays open.\<close>

definition lasting :: "str \<Rightarrow> 'ms shelf \<Rightarrow> 'ms shelf \<Rightarrow> bool" where
  "lasting cid d d' \<longleftrightarrow> (buried_in cid d \<longrightarrow> buried_in cid d') \<and>
     (present_in cid d \<longrightarrow> present_in cid d' \<or> buried_in cid d') \<and> (open_in d \<longrightarrow> open_in d')"

interpretation talk: accounts Display_lock "\<lambda>s. shelf (sy_world s)" "\<lambda>s. messages_told cid (sy_world s)"
    "accounted cid before told" "lasting cid"
  for cid before told
  by unfold_locales (auto simp: lasting_def)

section \<open>Building blocks\<close>

lemma shelf_simps [simp]:
  "shelf (emit e w) = shelf w" "shelf (log_at l t w) = shelf w" "shelf (hand_over c w) = shelf w"
  "shelf (snd (with_client f w)) = shelf w" "shelf (w\<lparr>w_pending := p\<rparr>) = shelf w"
  "shelf (w\<lparr>w_module := m\<rparr>) = shelf w" "shelf (w\<lparr>w_own_node_preset := x\<rparr>) = shelf w"
  "shelf (update_delivery g w) = shelf w"
  by (simp_all add: shelf_def update_delivery_def)

lemma told_simps [simp]:
  "messages_told cid (log_at l t w) = messages_told cid w" "messages_told cid (hand_over c w) = messages_told cid w"
  "messages_told cid (snd (with_client f w)) = messages_told cid w"
  "messages_told cid (w\<lparr>w_pending := p\<rparr>) = messages_told cid w"
  "messages_told cid (w\<lparr>w_module := m\<rparr>) = messages_told cid w"
  "messages_told cid (w\<lparr>w_own_node_preset := x\<rparr>) = messages_told cid w"
  "messages_told cid (with_display_mut h w) = messages_told cid w"
  "messages_told cid (update_delivery g w) = messages_told cid w"
  by (rule messages_told_same, simp add: update_delivery_def)+

text \<open>A task that pays for all it does, from any display with an open file, with the lock or without.\<close>

definition settled ::
  "str \<Rightarrow> message_view multiset \<Rightarrow> message_view multiset \<Rightarrow> bool \<Rightarrow> ('c, 'ms) prog \<Rightarrow> bool" where
  "settled cid a b has t \<longleftrightarrow> (\<forall>d. open_in d \<longrightarrow> talk.pays cid a b t has d {#})"

lemma settledD: "settled cid a b False t \<Longrightarrow> open_in d \<Longrightarrow> lasting cid d d' \<Longrightarrow> talk.pays cid a b t False d' {#}"
  by (simp add: settled_def lasting_def)

lemma pays_world:
  assumes "\<And>w. shelf (f w) = shelf w" and "\<And>w. messages_told cid (f w) = messages_told cid w"
    and "talk.pays cid a b k has d owed"
  shows "talk.pays cid a b (run (on_world f) k) has d owed"
  using assms by (intro talk.pays_aside) simp_all

lemma pays_log: "talk.pays cid a b k has d owed \<Longrightarrow> talk.pays cid a b (log_task l line k) has d owed"
  unfolding log_task_def by (simp add: pays_world del: talk.pays.simps(5))

lemma pays_emit:
  "talk.pays cid a b k has d owed \<Longrightarrow> talk.pays cid a b (emit_task e k) has d (mset (message_told cid e) + owed)"
  unfolding emit_task_def by (rule talk.pays_report) simp_all

lemma pays_emit_other:
  "message_told cid e = [] \<Longrightarrow> talk.pays cid a b k has d owed \<Longrightarrow> talk.pays cid a b (emit_task e k) has d owed"
  using pays_emit [of cid a b k has d owed e] by simp

lemma settled_world:
  "(\<And>w. shelf (f w) = shelf w) \<Longrightarrow> (\<And>w. messages_told cid (f w) = messages_told cid w) \<Longrightarrow>
     settled cid a b has k \<Longrightarrow> settled cid a b has (run (on_world f) k)"
  unfolding settled_def by (blast intro: pays_world)

lemma settled_log: "settled cid a b has k \<Longrightarrow> settled cid a b has (log_task l line k)"
  by (simp add: settled_def pays_log)

lemma settled_emit: "message_told cid e = [] \<Longrightarrow> settled cid a b has k \<Longrightarrow> settled cid a b has (emit_task e k)"
  by (simp add: settled_def pays_emit_other)

lemma settled_hand_over: "settled cid a b has k \<Longrightarrow> settled cid a b has (hand_over_task c k)"
  unfolding hand_over_task_def by (rule settled_world) simp_all

lemma settled_look: "(\<And>s. settled cid a b has (k s)) \<Longrightarrow> settled cid a b has (look k)"
  unfolding settled_def
proof (intro allI impI talk.pays_look)
  show "talk.pays cid a b (k s) has (shelf (sy_world s)) {#}"
    if "\<And>s. \<forall>d. open_in d \<longrightarrow> talk.pays cid a b (k s) has d {#}" "open_in d"
      "if has then shelf (sy_world s) = d else lasting cid d (shelf (sy_world s))" for d s
    using that by (auto simp: lasting_def split: if_splits)
qed

lemma settled_lock: "settled cid a b True t \<Longrightarrow> settled cid a b False (Lock Display_lock t)"
  by (simp add: settled_def lasting_def)

lemma settled_unlock: "settled cid a b False t \<Longrightarrow> settled cid a b True (Unlock Display_lock t)"
  by (simp add: settled_def)

lemma settled_threads:
  "settled cid a b False Done" "settled cid a b False t \<Longrightarrow> settled cid a b False (Spawn j t)"
  "settled cid a b False t \<Longrightarrow> settled cid a b False (Join j t)"
  by (simp_all add: settled_def)

lemma settled_locked:
  fixes k :: "'r \<Rightarrow> ('c, 'ms) prog"
  assumes "l \<noteq> Display_lock" and "\<And>w. shelf (snd (f w)) = shelf w"
    and "\<And>w. messages_told cid (snd (f w)) = messages_told cid w" and "\<And>w. settled cid a b False (k (fst (f w)))"
  shows "settled cid a b False (locked l (in_world f) k)"
  unfolding settled_def
proof (intro allI impI talk.pays_locked_other)
  show "talk.pays cid a b (k (fst (in_world f s))) False (shelf (sy_world s)) {#}"
    if "open_in d" "lasting cid d (shelf (sy_world s))" for d s
    using settledD [OF assms(4) that] by simp
qed (simp_all add: assms)

lemma pays_client:
  fixes k :: "core_error + 'r \<Rightarrow> ('c, 'ms) prog"
  assumes "\<And>w :: ('c, 'ms) world. talk.pays cid a b (k (fst (with_client f w))) False d owed"
  shows "talk.pays cid a b (client_task f k) False d owed"
  unfolding client_task_def
  by (rule talk.pays_locked_other) (simp_all add: talk.pays_later [OF assms])

lemma settled_client:
  fixes k :: "core_error + 'r \<Rightarrow> ('c, 'ms) prog"
  assumes "\<And>w :: ('c, 'ms) world. settled cid a b False (k (fst (with_client f w)))"
  shows "settled cid a b False (client_task f k)"
  using assms by (simp add: settled_def pays_client)

text \<open>A closure under the display lock: it keeps what is relied on and the account, with what it owes then.\<close>

lemma pays_display:
  assumes "\<And>w. lasting cid d (shelf w) \<Longrightarrow> lasting cid (shelf w) (shelf (snd (g w))) \<and> w_events (snd (g w)) = w_events w"
    and "\<And>w M. lasting cid d (shelf w) \<Longrightarrow> accounted cid a b (shelf w) (M + owed) \<Longrightarrow>
          accounted cid a b (shelf (snd (g w))) (M + owed')"
    and "\<And>w. lasting cid d (shelf w) \<Longrightarrow> talk.pays cid a b (k (fst (g w))) False (shelf (snd (g w))) owed'"
  shows "talk.pays cid a b (display_task g k) False d owed"
  unfolding display_task_def
proof (rule talk.pays_locked_guard [where owed' = "\<lambda>s. owed'"], goal_cases)
  case (1 s)
  then show ?case using assms(1) [of "sy_world s"] by (auto intro: messages_told_same)
next
  case (2 s M)
  then show ?case using assms(2) [of "sy_world s" M] by simp
next
  case (3 s)
  then show ?case using assms(3) [of "sy_world s"] by simp
qed

text \<open>A closure after which the conversation shows the same or is deleted.\<close>

definition still :: "str \<Rightarrow> ('c, 'ms) world \<Rightarrow> ('c, 'ms) world \<Rightarrow> bool" where
  "still cid w w' \<longleftrightarrow> w_events w' = w_events w \<and> lasting cid (shelf w) (shelf w') \<and>
     (buried_in cid (shelf w') \<or> messages_of cid (shelf w') = messages_of cid (shelf w))"

lemma still_refl [simp]: "still cid w w"
  by (simp add: still_def)

lemma still_accounted: "still cid w w' \<Longrightarrow> accounted cid a b (shelf w) M \<Longrightarrow> accounted cid a b (shelf w') M"
  by (auto simp: still_def accounted_def lasting_def)

lemma settled_still:
  fixes g :: "('c, 'ms) world \<Rightarrow> 'r \<times> ('c, 'ms) world"
  assumes "\<And>w. still cid w (snd (g w))" and "\<And>w. settled cid a b False (k (fst (g w)))"
  shows "settled cid a b False (display_task g k)"
  unfolding settled_def
proof (intro allI impI pays_display [where owed' = "{#}"])
  fix d and w :: "('c, 'ms) world" assume d: "open_in d" "lasting cid d (shelf w)"
  show "lasting cid (shelf w) (shelf (snd (g w))) \<and> w_events (snd (g w)) = w_events w"
    using assms(1) by (simp add: still_def)
  then show "talk.pays cid a b (k (fst (g w))) False (shelf (snd (g w))) {#}"
    using settledD [OF assms(2) d(1) talk.rely_trans [OF d(2)]] by simp
qed (use assms(1) still_accounted in blast)

lemma settled_read: "(\<And>w. settled cid a b False (k (g w))) \<Longrightarrow> settled cid a b False (display_task (\<lambda>w. (g w, w)) k)"
  by (rule settled_still) simp_all

section \<open>Requests and queries\<close>

text \<open>Sections that leave what the conversation shows, or delete it.\<close>

lemma persist_chat_open: "persist_chat env c d = Inr d' \<Longrightarrow> d_chat_db d' \<noteq> None"
  by (auto simp: persist_chat_def and_then_Inr_iff)

lemma still_enter:
  assumes "c = cid \<Longrightarrow> \<exists>old. hm_get (chats (w_display w)) cid = Some old \<and> cs_messages sess = cs_messages old"
  shows "still cid w (snd (enter_session env c sess w))"
proof (cases "persist_chat env c (update_chats (hm_insert c sess) (w_display w))")
  case (Inr d)
  then show ?thesis
    using assms persist_chat_frame [OF Inr] persist_chat_open [OF Inr]
    by (auto simp: enter_session_def still_def lasting_def shelf_reads get_messages_def with_display_def Let_def)
qed (use assms in \<open>auto simp: enter_session_def still_def lasting_def shelf_reads get_messages_def with_display_def Let_def\<close>)

lemma still_rename: "still cid w (snd (rename_section env c nick w))"
  by (auto simp: rename_section_def intro!: still_enter split: option.split)

lemma still_delete: "still cid w (snd (delete_section env c w))"
  by (auto simp: delete_section_def still_def lasting_def shelf_reads get_messages_def with_display_def Let_def case_prod_unfold
      split: option.splits sum.splits)

lemma still_name: "still cid w (snd (set_installation_name env name w))"
  by (auto simp: set_installation_name_def still_def lasting_def shelf_reads get_messages_def with_display_def Let_def split: sum.splits)

lemma still_update_delivery: "still cid w (update_delivery f w)"
  by (simp add: still_def lasting_def) (simp add: update_delivery_def)

lemma still_sent: "c \<noteq> cid \<Longrightarrow> still cid w (snd (record_sent env c content w))"
  using chat_record_message_frame [where msg = "chat_message c Sent (now_ms (e_clock env)) content" and d = "w_display w"
      and env = env and changed = False]
  by (auto simp: record_sent_def still_def lasting_def shelf_reads get_messages_def with_display_def case_prod_unfold chat_message_def
      Let_def)

text \<open>A message recorded in the conversation: shown from then on, and owed.\<close>

lemma recorded_shown:
  assumes "hm_get (chats d) (m_chat_id msg) = Some sess" and "d_chat_db d \<noteq> None"
    and "chat_record_message env msg changed d = (r, d')"
  shows "as_deleted (d_state d') = as_deleted (d_state d)" and "d_chat_db d' \<noteq> None"
    and "hm_get (chats d') (m_chat_id msg) = Some (sess\<lparr>cs_messages := cs_messages sess @ [display_message msg]\<rparr>)"
    and "c \<noteq> m_chat_id msg \<Longrightarrow> hm_get (chats d') c = hm_get (chats d) c"
proof -
  show "as_deleted (d_state d') = as_deleted (d_state d)"
    and "hm_get (chats d') (m_chat_id msg) = Some (sess\<lparr>cs_messages := cs_messages sess @ [display_message msg]\<rparr>)"
    and "c \<noteq> m_chat_id msg \<Longrightarrow> hm_get (chats d') c = hm_get (chats d) c"
    using chat_record_message_frame [where env = env and msg = msg and changed = changed and d = d] chat_record_message_shown [OF assms(1,2), of env changed]
      assms(3) by simp_all
  show "d_chat_db d' \<noteq> None"
    using assms by (auto simp: chat_record_message_def Let_def split: prod.splits)
qed

lemma sent_accounted:
  assumes "healthy env" and "utf8 content" and "open_in (shelf w)" and "present_in cid (shelf w) \<or> buried_in cid (shelf w)"
    and "record_sent env cid content w = (r, w')" and e: "e = Message_sent cid content (as_i64 (now_ms (e_clock env)))"
  shows "r = Inr ()" and "lasting cid (shelf w) (shelf w')" and "w_events w' = w_events w"
    and "accounted cid a b (shelf w) M \<Longrightarrow> accounted cid a b (shelf w') (M + mset (message_told cid e))"
proof -
  let ?msg = "chat_message cid Sent (now_ms (e_clock env)) content"
  have id: "m_chat_id ?msg = cid" by (simp add: chat_message_def)
  obtain d' where rec: "chat_record_message env ?msg False (w_display w) = (r, d')" and w': "w' = with_display_mut (\<lambda>_. d') w"
    using assms(5) by (auto simp: record_sent_def split: prod.splits)
  have db: "d_chat_db (w_display w) \<noteq> None" using assms(3) by (simp add: shelf_reads)
  show "r = Inr ()" using chat_record_healthy [OF assms(1) db, of ?msg False] rec by simp
  show "w_events w' = w_events w" by (simp add: w')
  have "lasting cid (shelf w) (shelf w') \<and>
      (accounted cid a b (shelf w) M \<longrightarrow> accounted cid a b (shelf w') (M + mset (message_told cid e)))"
  proof (cases "shown w cid")
    case None
    then have "d' = w_display w" using rec id by (simp add: chat_record_message_def)
    then have "shelf w' = shelf w" by (simp add: w' shelf_def)
    then show ?thesis using None assms(4) by (simp add: shelf_reads accounted_def)
  next
    case (Some sess)
    note rec = recorded_shown [OF _ db rec, unfolded id, OF Some]
    show ?thesis
      using Some rec
      by (auto simp: w' e shelf_reads lasting_def accounted_def get_messages_def with_display_def view_of_sent [OF assms(2)])
  qed
  then show "lasting cid (shelf w) (shelf w')"
    and "accounted cid a b (shelf w) M \<Longrightarrow> accounted cid a b (shelf w') (M + mset (message_told cid e))"
    by simp_all
qed

lemma settled_send:
  fixes env :: "('c, 'ms) env"
  assumes good: "c = cid \<Longrightarrow> healthy env \<and> utf8 content" and k: "\<And>r. settled cid a b False (k r)"
  shows "settled cid a b False (send_message_task env c content k)"
proof -
  let ?e = "Message_sent c content (as_i64 (now_ms (e_clock env)))"
  let ?go = "display_task (record_sent env c content) (\<lambda>r. case r of
      Inl e \<Rightarrow> k (Inl e) | Inr _ \<Rightarrow> emit_task ?e (k (Inr ())))"
  have rest: "talk.pays cid a b ?go False d {#}"
    if d: "open_in d" "c = cid \<longrightarrow> present_in cid d \<or> buried_in cid d" for d
  proof (cases "c = cid")
    case False
    then have "settled cid a b False ?go"
      by (intro settled_still) (simp_all add: still_sent settled_emit k split: sum.split)
    then show ?thesis using d(1) by (simp add: settled_def)
  next
    case True
    then have g: "healthy env" "utf8 content" using good by simp_all
    show ?thesis
    proof (rule pays_display [where owed' = "mset (message_told cid ?e)"])
      fix w :: "('c, 'ms) world" and M assume d1: "lasting cid d (shelf w)"
      then have w: "open_in (shelf w)" "present_in cid (shelf w) \<or> buried_in cid (shelf w)"
        using d True by (auto simp: lasting_def)
      note s = sent_accounted [OF g w prod.collapse [symmetric] refl, folded True]
      show "lasting cid (shelf w) (shelf (snd (record_sent env c content w))) \<and>
          w_events (snd (record_sent env c content w)) = w_events w"
        using s(2,3) True by simp
      show "accounted cid a b (shelf w) (M + {#}) \<Longrightarrow>
          accounted cid a b (shelf (snd (record_sent env c content w))) (M + mset (message_told cid ?e))"
        using s(4) [of a b M] True by simp
      have "talk.pays cid a b (k (Inr ())) False (shelf (snd (record_sent env c content w))) {#}"
        using settledD [OF k d(1) talk.rely_trans [OF d1]] s(2) True by simp
      from pays_emit [OF this, of ?e]
      show "talk.pays cid a b (case fst (record_sent env c content w) of Inl e \<Rightarrow> k (Inl e)
          | Inr _ \<Rightarrow> emit_task ?e (k (Inr ()))) False (shelf (snd (record_sent env c content w))) (mset (message_told cid ?e))"
        using s(1) True by simp
    qed
  qed
  show ?thesis
    unfolding settled_def send_message_task_def check_live_task_def
  proof (intro allI impI pays_display [where owed' = "{#}"])
    fix d and w :: "('c, 'ms) world" assume d: "open_in d" "lasting cid d (shelf w)"
    then have o: "open_in (shelf w)" by (simp add: lasting_def)
    have "c = cid \<longrightarrow> present_in cid (shelf w)" if "check_live c w = Inr ()"
      using that by (auto simp: shelf_reads check_live_Inr)
    with rest [OF o] have "talk.pays cid a b (log_task INFO line ?go) False (shelf w) {#}"
      if "check_live c w = Inr ()" for line
      using that by (intro pays_log) simp
    then show "talk.pays cid a b (case fst (check_live c w, w) of Inl e \<Rightarrow> k (Inl e)
        | Inr _ \<Rightarrow> client_task (ca_send_message (e_client env) c content) (\<lambda>r. case flatten r of
            Inl e \<Rightarrow> k (Inl e)
          | Inr _ \<Rightarrow> log_task INFO (''sent '' @ dec (length content) @ '' bytes to '' @ c) ?go))
        False (shelf (snd (check_live c w, w))) {#}"
      using settledD [OF k o talk.rely_refl] by (auto intro!: pays_client split: sum.split)
  qed simp_all
qed

text \<open>Requests that leave the conversation to the books: its messages are strings sent when no statement
  fails, and no conversation is created under its id.\<close>

fun leaves :: "('c, 'ms) env \<Rightarrow> str \<Rightarrow> request \<Rightarrow> bool" where
  "leaves env cid (Send_message c content) \<longleftrightarrow> (c = cid \<longrightarrow> healthy env \<and> utf8 content)"
| "leaves env cid (Create_conversation peer_address) \<longleftrightarrow>
     (\<forall>c. fst (ca_create_direct_conversation (e_client env) peer_address c) \<noteq> Inr cid)"
| "leaves env cid (Create_group_conversation name desc) \<longleftrightarrow>
     (\<forall>c. fst (ca_create_group_conversation (e_client env) [] (name, desc) c) \<noteq> Inr cid)"
| "leaves env cid _ \<longleftrightarrow> True"

lemma with_client_result:
  assumes "flatten (fst (with_client f w)) = Inr x"
  shows "\<exists>c. fst (f c) = Inr x"
proof -
  from assms have "fst (with_client f w) = Inr (Inr x)"
    by (cases "fst (with_client f w)") (simp_all add: flatten_def)
  then show ?thesis
    by (auto simp: with_client_def with_state_mut_def case_prod_unfold Let_def split: option.splits if_splits sum.splits)
qed

lemma settled_serve:
  fixes env :: "('c, 'ms) env"
  assumes "leaves env cid req" and k: "\<And>r. settled cid a b False (k r)"
  shows "settled cid a b False (serve_task env req k)"
proof (cases req)
  case (Create_conversation peer)
  then have "flatten (fst (with_client (ca_create_direct_conversation (e_client env) peer) w)) \<noteq> Inr cid"
    for w :: "('c, 'ms) world" using with_client_result [where w = w] assms(1) by fastforce
  then show ?thesis
    using Create_conversation
    by (auto simp: create_conversation_task_def k intro!: settled_client settled_log settled_still settled_emit still_enter
        split: sum.split)
next
  case (Create_group_conversation n de)
  then have "flatten (fst (with_client (ca_create_group_conversation (e_client env) [] (n, de)) w)) \<noteq> Inr cid"
    for w :: "('c, 'ms) world" using with_client_result [where w = w] assms(1) by fastforce
  then show ?thesis
    using Create_group_conversation
    by (auto simp: create_group_conversation_task_def k intro!: settled_client settled_log settled_still settled_emit still_enter
        split: sum.split)
qed (use assms(1) in \<open>auto simp: request_task_defs check_live_task_def k still_rename still_delete still_name
    intro!: settled_client settled_log settled_still settled_emit settled_send [unfolded send_message_task_def check_live_task_def]
    split: sum.split\<close>)

lemma settled_answer:
  assumes "\<And>r. settled cid a b False (k r)"
  shows "settled cid a b False (answer_task env q k)"
  using assms
  by (cases q) (auto simp: list_group_members_task_def check_live_task_def intro!: settled_client settled_log settled_read
      split: sum.split prod.split)

end
