(* ===== verification/Send_Races.thy ===== *)
theory Send_Races
  imports Lock_Properties Followers
begin

text \<open>
  What following the events does not give once the threads interleave: \<open>send_message\<close> reads the clock
  before it takes the display lock and announces after it has released it, and the event consumer may
  have the lock in between.
\<close>

text \<open>A message is sent into a conversation while one comes in.\<close>

definition sending_race :: "(lock, (nat, message list) system) pool" where
  "sending_race = process_pool demo_env demo_decoders
     [(\<lparr>mo_fault = no_fault, mo_clock = 6000000\<rparr>, Call_serve (Send_message ''dm'' ''hi''))]
     [(True, Events_worker [(calm, MessageReceived ''dm'' ''yo'' ''bob'' ''inst'')])]
     \<lparr>sy_world = chat_world, sy_closing = None\<rparr>"

text \<open>The consumer comes after the message is recorded, before it is announced; or after the clock is
  read, before the message is recorded.\<close>

definition announced_late :: "nat list" where
  "announced_late = replicate 12 0 @ replicate 8 1 @ [0]"

definition recorded_late :: "nat list" where
  "recorded_late = replicate 9 0 @ replicate 8 1 @ replicate 4 0"

lemma race_runs:
  "case run_schedule announced_late sending_race of None \<Rightarrow> False | Some q \<Rightarrow>
     (let w = sy_world (po_state q) in at_rest q \<and>
       map mv_content (get_messages ''dm'' w) = [''hello'', ''hi'', ''yo''] \<and>
       map mv_content (fo_messages (fold follow (w_events w) (read_all chat_world)) ''dm'') = [''hello'', ''yo'', ''hi''])"
  "case run_schedule recorded_late sending_race of None \<Rightarrow> False | Some q \<Rightarrow>
     (let w = sy_world (po_state q) in at_rest q \<and>
       map mv_timestamp_ms (get_messages ''dm'' w) = [5, 7, 6] \<and>
       map_option cv_last_activity_ms (listed w ''dm'') = Some 6)"
  by code_simp+


end
