(* ===== verification/Announcements.thy ===== *)
theory Announcements
  imports Announcement_Accounts Send_Races
begin

text \<open>
  The messages shown and the messages announced, while the threads interleave.  A send is announced
  after the display lock is released, so at a given moment a message may be shown that was not announced
  yet, and the order may differ (theory Send_Races); but none is announced that is not shown, and at rest
  the two are the same messages, each as often.
\<close>

section \<open>The event consumer\<close>

lemma settled_act:
  fixes f :: "('c, 'ms) world \<Rightarrow> ('c, 'ms) world"
  assumes "\<And>w. still cid w (f w)" and "\<And>s. settled cid a b True (k s)"
  shows "settled cid a b True (Act (on_world f) k)"
  unfolding settled_def
proof (intro allI impI)
  fix d :: "'ms shelf" assume d: "open_in d"
  show "talk.pays cid a b (Act (on_world f) k) True d {#}"
  proof (rule talk.pays_change [where owed' = "\<lambda>_. {#}"], goal_cases)
    case (1 s)
    then show ?case using assms(1) [of "sy_world s"] by (auto simp: still_def intro: messages_told_same)
  next
    case (2 s M)
    then show ?case using still_accounted [OF assms(1) [of "sy_world s"]] by auto
  next
    case (3 s)
    moreover have "open_in (shelf (f (sy_world s)))"
      using 3 d assms(1) [of "sy_world s"] by (auto simp: still_def lasting_def)
    ultimately show ?case using assms(2) by (simp add: settled_def)
  qed
qed

lemma inbound_accounted:
  assumes "open_in (shelf w)" and "record_inbound env c content account inst w = (r, w')"
    and e: "e = Message_received c (from_utf8_lossy content) (as_i64 (now_ms (e_clock env))) account"
  shows "lasting cid (shelf w) (shelf w')" and "w_events w' = w_events w"
    and "accounted cid a b (shelf w) M \<Longrightarrow> accounted cid a b (shelf w') (M + mset (message_told cid e))"
proof -
  let ?msg = "inbound_message env c content account inst"
  have id: "m_chat_id ?msg = c" by (simp add: inbound_message_def chat_message_def)
  obtain changed sess where i: "inbound_session c account (w_display w) = (changed, sess)" by fastforce
  let ?d = "update_chats (hm_insert c sess) (w_display w)"
  obtain d' where rec: "chat_record_message env ?msg changed ?d = (r, d')" and w': "w' = with_display_mut (\<lambda>_. d') w"
    using assms(2) i by (auto simp: record_inbound_def split: prod.splits)
  have put: "hm_get (chats ?d) (m_chat_id ?msg) = Some sess" and db: "d_chat_db ?d \<noteq> None"
    using assms(1) by (simp_all add: id shelf_reads)
  note rec = recorded_shown [OF put db rec, unfolded id]
  have "messages_of c (shelf w) = map view_of (cs_messages sess)"
    using inbound_session_history [OF i] by (auto simp: shelf_reads get_messages_def with_display_def split: option.splits)
  then have "lasting cid (shelf w) (shelf w') \<and>
      (accounted cid a b (shelf w) M \<longrightarrow> accounted cid a b (shelf w') (M + mset (message_told cid e)))"
    using rec
    by (cases "c = cid")
      (auto simp: w' e shelf_reads lasting_def accounted_def get_messages_def with_display_def view_of_received)
  then show "lasting cid (shelf w) (shelf w')"
    and "accounted cid a b (shelf w) M \<Longrightarrow> accounted cid a b (shelf w') (M + mset (message_told cid e))"
    by simp_all
  show "w_events w' = w_events w" by (simp add: w')
qed

lemma settled_message_received:
  fixes env :: "('c, 'ms) env"
  assumes k: "settled cid a b False k"
  shows "settled cid a b False (record_message_received_task env c content account inst k)"
proof -
  let ?e = "Message_received c (from_utf8_lossy content) (as_i64 (now_ms (e_clock env))) account"
  let ?announce = "emit_task ?e (Unlock Display_lock k)" and ?owed = "mset (message_told cid ?e)"
  let ?act = "\<lambda>line. Act (\<lambda>s. snd (in_world (record_inbound env c content account inst) s)) (\<lambda>s.
      case fst (record_inbound env c content account inst (sy_world s)) of
        Inl e \<Rightarrow> log_task ERROR (line e) ?announce | Inr _ \<Rightarrow> ?announce)"
  have "talk.pays cid a b (?act line) True d {#}" if d: "open_in d" for d line
  proof (rule talk.pays_change [where owed' = "\<lambda>_. ?owed"])
    fix s :: "('c, 'ms) system" and M assume s: "shelf (sy_world s) = d"
    let ?w = "sy_world s" and ?w' = "snd (record_inbound env c content account inst (sy_world s))"
    note r = inbound_accounted [OF d [folded s] prod.collapse [symmetric] refl]
    show "lasting cid d (shelf (sy_world (snd (in_world (record_inbound env c content account inst) s)))) \<and>
        messages_told cid (sy_world (snd (in_world (record_inbound env c content account inst) s))) = messages_told cid ?w"
      using r(1,2) s by (auto intro: messages_told_same)
    show "accounted cid a b d (M + {#}) \<Longrightarrow>
        accounted cid a b (shelf (sy_world (snd (in_world (record_inbound env c content account inst) s)))) (M + ?owed)"
      using r(3) s by simp
    have "open_in (shelf ?w')" using r(1) [of cid] s d by (simp add: lasting_def)
    then have "talk.pays cid a b ?announce True (shelf ?w') ?owed"
      using pays_emit [of cid a b "Unlock Display_lock k" True "shelf ?w'" "{#}" ?e] k by (simp add: settled_def)
    then show "talk.pays cid a b (case fst (record_inbound env c content account inst ?w) of
          Inl e \<Rightarrow> log_task ERROR (line e) ?announce | Inr _ \<Rightarrow> ?announce) True
        (shelf (sy_world (snd (in_world (record_inbound env c content account inst) s)))) ?owed"
      by (auto intro: pays_log split: sum.split)
  qed
  then have "settled cid a b True (?act line)" for line by (simp add: settled_def)
  then show ?thesis
    unfolding record_message_received_task_def Let_def
    by (auto intro!: settled_lock settled_look settled_log settled_unlock k)
qed

text \<open>A session put back into the display with the messages it had, or entered with none.\<close>

lemma pays_put:
  fixes d :: "'ms shelf" and k :: "('c, 'ms) prog"
  assumes "open_in d" and "map view_of (cs_messages sess) = messages_of c d" and "settled cid a b True k"
  shows "talk.pays cid a b (run (on_world (with_display_mut (update_chats (hm_insert c sess)))) k) True d {#}"
proof (rule talk.pays_change [where owed' = "\<lambda>_. {#}"])
  fix s :: "('c, 'ms) system" and M assume s: "shelf (sy_world s) = d"
  let ?d = "shelf (sy_world (on_world (with_display_mut (update_chats (hm_insert c sess))) s))"
  show l: "lasting cid d ?d \<and>
      messages_told cid (sy_world (on_world (with_display_mut (update_chats (hm_insert c sess))) s)) =
        messages_told cid (sy_world s)"
    using s by (auto simp: lasting_def shelf_reads)
  show "accounted cid a b d (M + {#}) \<Longrightarrow> accounted cid a b ?d (M + {#})"
    using s assms(2) by (auto simp: accounted_def shelf_reads get_messages_def with_display_def simp del: mset_map)
  show "talk.pays cid a b k True ?d {#}"
    using l assms(1,3) by (simp add: settled_def lasting_def)
qed

lemma settled_conversation_started:
  fixes env :: "('c, 'ms) env"
  assumes k: "settled cid a b False k"
  shows "settled cid a b False (record_conversation_started_task env c kind k)"
proof -
  have persist: "still cid w (case persist_chat env c (w_display w) of Inr d \<Rightarrow> with_display_mut (\<lambda>_. d) w | Inl e \<Rightarrow> w)"
    for w :: "('c, 'ms) world"
    by (cases "persist_chat env c (w_display w)")
      (auto simp: still_def lasting_def shelf_reads get_messages_def with_display_def
        dest: persist_chat_open persist_chat_frame)
  have "settled cid a b True (look body)"
    if body: "body = (\<lambda>s. if c \<in> as_deleted (d_state (w_display (sy_world s))) then Unlock Display_lock k
      else case hm_get (chats (w_display (sy_world s))) c of
        Some session \<Rightarrow> if cs_history_only session
          then run (on_world (with_display_mut (update_chats (hm_insert c (session\<lparr>cs_history_only := False\<rparr>)))))
            (emit_task (Conversation_updated c) (Unlock Display_lock k))
          else Unlock Display_lock k
      | None \<Rightarrow> run (on_world (with_display_mut (update_chats (hm_insert c (new_session c kind n de None)))))
          (emit_task (Conversation_created c False (short_label c) (kind_as_str kind) (unwrap_or n []) (unwrap_or de []))
          (Act (on_world (\<lambda>w. case persist_chat env c (w_display w) of
               Inr d \<Rightarrow> with_display_mut (\<lambda>_. d) w | Inl e \<Rightarrow> w))
             (\<lambda>s. case persist_chat env c (w_display (sy_world s)) of
                Inr d \<Rightarrow> Unlock Display_lock k
              | Inl e \<Rightarrow> log_task ERROR (line e) (Unlock Display_lock k)))))" for body n de line
    unfolding settled_def
  proof (intro allI impI talk.pays_look)
    fix d :: "'ms shelf" and s :: "('c, 'ms) system"
    assume "open_in d" "if True then shelf (sy_world s) = d else lasting cid d (shelf (sy_world s))"
    then have o: "open_in (shelf (sy_world s))" by simp
    have "talk.pays cid a b (Unlock Display_lock k) True (shelf (sy_world s)) {#}"
      using settled_unlock [OF k] o by (simp add: settled_def)
    then show "talk.pays cid a b (body s) True (shelf (sy_world s)) {#}"
      using o k persist unfolding body
      by (auto simp: shelf_reads(1) get_messages_def with_display_def simp del: talk.pays.simps(5)
          intro!: pays_put settled_emit settled_act settled_log settled_unlock split: option.split sum.split)
  qed
  from this [OF refl] show ?thesis
    by (auto simp: record_conversation_started_task_def group_details_task_def intro!: settled_client settled_log settled_lock
        split: sum.split)
qed

lemma settled_handle_event:
  assumes "settled cid a b False k"
  shows "settled cid a b False (handle_event_task env evt k)"
  using assms
  by (cases evt) (auto simp: settled_conversation_started settled_message_received record_members_changed_task_def
      intro!: settled_lock settled_look settled_unlock settled_emit settled_log)

lemma settled_events: "settled cid a b False (events_task env evts)"
  by (induction evts) (auto simp: settled_handle_event settled_threads)

section \<open>The threads that leave conversations alone\<close>

lemma settled_aside:
  assumes "\<And>s. shelf (sy_world (u s)) = shelf (sy_world s)"
    and "\<And>s. messages_told cid (sy_world (u s)) = messages_told cid (sy_world s)" and "\<And>s. settled cid a b has (k s)"
  shows "settled cid a b has (Act u k)"
  unfolding settled_def
proof (intro allI impI)
  fix d :: "'b shelf" assume d: "open_in d"
  have "talk.pays cid a b (k s) has (shelf (sy_world s)) {#}"
    if "if has then shelf (sy_world s) = d else lasting cid d (shelf (sy_world s))" for s
    using assms(3) d that by (auto simp: settled_def lasting_def split: if_splits)
  then show "talk.pays cid a b (Act u k) has d {#}"
    using assms(1,2) by (auto intro!: exI [of _ "{#}"])
qed

lemma settled_set_delivery_state:
  "settled cid a b True k \<Longrightarrow> settled cid a b True (set_delivery_state_task st detail k)"
  unfolding set_delivery_state_task_def by (auto intro!: settled_look settled_world settled_log)

lemmas settling = settled_lock settled_look settled_unlock settled_world settled_log settled_emit settled_hand_over
  settled_client settled_set_delivery_state settled_locked

lemma settled_start_node: "settled cid a b False k \<Longrightarrow> settled cid a b False (start_node_task k)"
  unfolding start_node_task_def
  by (intro settled_still) (simp_all add: still_update_delivery settled_hand_over)

lemma settled_complete:
  assumes "settled cid a b False k"
  shows "settled cid a b False (complete_task env call res k)"
  using assms
  by (cases call) (auto simp: set_delivery_error_task_def settled_start_node still_update_delivery Let_def
      intro!: settling settled_still split: sum.split)

lemma settled_callback: "settled cid a b False (callback_task env call res)"
  unfolding callback_task_def
  by (rule settled_aside) (auto simp: settled_complete settled_threads)

lemma over_bridge_aside [simp]:
  "shelf (sy_world (over_bridge f s)) = shelf (sy_world s)"
  "messages_told cid (sy_world (over_bridge f s)) = messages_told cid (sy_world s)"
  by (simp_all add: over_bridge_def Let_def split: option.split)

lemma settled_each:
  "(\<And>e k. settled cid a b False k \<Longrightarrow> settled cid a b False (handle e k)) \<Longrightarrow> settled cid a b False k \<Longrightarrow>
     settled cid a b False (each_task handle es k)"
  by (induction es) simp_all

lemma settled_drain:
  assumes "settled cid a b False k"
  shows "settled cid a b False (drain_task (on_node_started_task dcs) sub clear k)"
    and "settled cid a b False (drain_task (on_connection_state_task dcs) sub clear k)"
  unfolding drain_task_def using assms
  by (auto simp: on_node_started_task_def on_connection_state_task_def record_node_started_task_def
      intro!: settled_aside settled_each settling split: option.split prod.split)

lemma settled_bridge: "settled cid a b False (bridge_task dcs n :: ('c, 'ms) prog)"
proof (induction n)
  case (Suc n)
  let ?k = "\<lambda>returns. if returns then Done else bridge_task dcs n :: ('c, 'ms) prog"
  have k: "settled cid a b False (?k r)" for r using Suc by (simp add: settled_threads)
  have hand: "shelf (foldl (\<lambda>w t. hand_over (Subscribe t) w) w ts) = shelf w"
    "messages_told cid (foldl (\<lambda>w t. hand_over (Subscribe t) w) w ts) = messages_told cid w"
    for w :: "('c, 'ms) world" and ts
    by (induction ts arbitrary: w) simp_all
  have "settled cid a b False (forward_subscriptions_task (?k False))"
    unfolding forward_subscriptions_task_def
    using k [of False] by (auto simp: hand intro!: settled_read settled_aside split: option.split)
  then have "settled cid a b False (bridge_turn_task dcs ?k)"
    using k [of False] by (auto simp: bridge_turn_task_def forward_message_task_def Let_def
      intro!: settled_aside settled_log settled_drain settled_threads split: option.split recv_outcome.split)
  then show ?case by (auto intro!: settled_look settled_threads split: option.split)
qed (simp add: settled_threads)

section \<open>The process\<close>

text \<open>The calls of the host: requests that leave the conversation to the books, and queries.\<close>

fun call_leaves :: "('c, 'ms) env \<Rightarrow> str \<Rightarrow> moment \<times> ('c, 'ms) host_call \<Rightarrow> bool" where
  "call_leaves env cid (mo, Call_serve req) \<longleftrightarrow> leaves (at env mo) cid req"
| "call_leaves env cid (mo, Call_query q) \<longleftrightarrow> True"
| "call_leaves env cid (mo, _) \<longleftrightarrow> False"

lemma settled_host: "list_all (call_leaves env cid) calls \<Longrightarrow> settled cid a b False (host_task env calls workers)"
proof (induction calls arbitrary: workers)
  case (Cons mc calls)
  obtain mo c where "mc = (mo, c)" by (cases mc)
  with Cons show ?case by (cases c) (simp_all add: settled_serve settled_answer)
qed (simp add: settled_threads)

lemma settled_worker: "settled cid a b False (worker_task env dcs w)"
  by (cases w) (simp_all add: settled_bridge settled_events settled_callback)

lemma process_books:
  fixes env :: "('c, 'ms) env"
  assumes "list_all (call_leaves env cid) calls" and "d_chat_db (w_display (sy_world s)) \<noteq> None"
    and "accounted cid a b (shelf (sy_world s)) (messages_told cid (sy_world s))"
  shows "talk.books cid a b (\<lambda>_. {#}) (process_pool env dcs calls workers s)"
proof -
  have "talk.pays cid a b t False (shelf (sy_world s)) {#}" if "settled cid a b False t" for t :: "('c, 'ms) prog"
    using that assms(2) by (simp add: settled_def shelf_reads)
  then show ?thesis
    using assms(3)
    by (auto simp: talk.books_def process_pool_def nth_Cons settled_host [OF assms(1)] settled_worker case_prod_unfold
        split: nat.split)
qed



end
