(* ===== verification/Logging_Properties.thy ===== *)
theory Logging_Properties
  imports Logging Chat_Module Runs
begin

text \<open>
  What holds of the run's log: names read back as the run they belong to, pruning keeps the newest
  runs and strangers, appending keeps the announced file bounded, and the installation is frozen.
\<close>

section \<open>Names\<close>

lemma dec_rec: "dec n = (if n < 10 then [digit n] else dec (n div 10) @ [digit (n mod 10)])"
  by (rule dec.simps)

lemma length_dec_le: "length (dec n) \<le> Suc k \<longleftrightarrow> n < 10 ^ Suc k"
proof (induction k arbitrary: n)
  case 0
  have "0 < length (dec m)" for m by (subst dec_rec) simp
  then show ?case by (subst dec_rec) simp
next
  case (Suc k)
  show ?case
  proof (cases "n < 10")
    case True
    moreover have "(10 :: nat) \<le> 10 ^ Suc (Suc k)" by simp
    ultimately have "n < 10 ^ Suc (Suc k)" by linarith
    with True show ?thesis by (subst dec_rec) simp
  next
    case False
    then have "length (dec n) = Suc (length (dec (n div 10)))" by (subst dec_rec) simp
    moreover have "n div 10 < 10 ^ Suc k \<longleftrightarrow> n < 10 ^ Suc (Suc k)"
      by (simp add: div_less_iff_less_mult mult.commute)
    ultimately show ?thesis using Suc [of "n div 10"] by simp
  qed
qed

lemma digit_ascii: "d < 10 \<Longrightarrow> is_ascii_digit (digit d)"
  by (simp add: is_ascii_digit_def digit_def Let_def)

lemma dec_digits: "list_all is_ascii_digit (dec n)"
proof (induction n rule: dec.induct)
  case (1 n)
  then show ?case by (subst dec_rec) (simp add: digit_ascii)
qed

lemma dec3_length: "length (dec3 n) = 3 \<longleftrightarrow> n < 1000"
  using length_dec_le [of n 2] by (auto simp: dec3_def)

lemma dec3_digits: "list_all is_ascii_digit (dec3 n)"
  by (simp add: dec3_def dec_digits list_all_append) (simp add: list_all_iff is_ascii_digit_def Let_def)

text \<open>A stamp as \<open>%Y%m%d_%H%M%S\<close> prints it.\<close>

definition is_stamp :: "str \<Rightarrow> bool" where
  "is_stamp s \<longleftrightarrow> length s = 15 \<and> list_all is_ascii_digit (take 8 s) \<and> s ! 8 = CHR ''_'' \<and>
     list_all is_ascii_digit (drop 9 s)"

lemma is_stampE:
  assumes "is_stamp s"
  obtains date time where "s = date @ ''_'' @ time" "length date = 8" "length time = 6"
    "list_all is_ascii_digit date" "list_all is_ascii_digit time"
proof -
  have "s = take 8 s @ [s ! 8] @ drop 9 s"
    using assms id_take_nth_drop [of 8 s] by (simp add: is_stamp_def)
  with assms show ?thesis
    by (intro that [of "take 8 s" "drop 9 s"]) (simp_all add: is_stamp_def)
qed

lemma not_digit_underscore [simp]: "\<not> is_ascii_digit (CHR ''_'')"
  by (simp add: is_ascii_digit_def)

lemma split_once_stamp:
  assumes "list_all is_ascii_digit date"
  shows "split_once (CHR ''_'') (date @ ''_'' @ time) = Some (date, time)"
proof -
  have "\<forall>x \<in> set date. x \<noteq> CHR ''_''" using assms by (auto simp: list_all_iff)
  then have "takeWhile (\<lambda>x. x \<noteq> CHR ''_'') (date @ ''_'' @ time) = date"
    "dropWhile (\<lambda>x. x \<noteq> CHR ''_'') (date @ ''_'' @ time) = ''_'' @ time"
    by (simp_all add: takeWhile_append2 dropWhile_append2)
  then show ?thesis by (simp add: split_once_def)
qed

lemma stamp_of_name:
  assumes "is_stamp stamp" and "suf \<noteq> []" and "hd suf = CHR ''.''"
  shows "stamp_of (STEM @ ''_'' @ stamp @ suf) = (if is_run_suffix suf then Some stamp else None)"
proof -
  obtain date time where s: "stamp = date @ ''_'' @ time" "length date = 8" "length time = 6"
    "list_all is_ascii_digit date" "list_all is_ascii_digit time"
    by (rule is_stampE [OF assms(1)])
  have "\<not> cont (hd suf)" using assms(3) by (simp add: cont_def byte_def)
  then have "\<not> cont ((stamp @ suf) ! 15)"
    using s(1-3) assms(2) by (simp add: nth_append hd_conv_nth)
  then have "slice_to (stamp @ suf) 15 = Some stamp"
    using s(1-3) assms(2) by (simp add: slice_to_def is_char_boundary_def)
  then show ?thesis
    using s split_once_stamp [OF s(4), of time]
    by (simp add: stamp_of_def strip_prefix_def STEM_def STAMP_LEN_def)
qed

lemma rotated_suffix: "is_run_suffix (''.'' @ dec3 n @ ''.log'') \<longleftrightarrow> n < 1000"
proof (cases "length (dec3 n) = 3")
  case True
  then have "take 3 (dec3 n @ ''.log'') = dec3 n" by simp
  then show ?thesis
    using True dec3_length [of n] dec3_digits [of n]
    by (auto simp: is_run_suffix_def list_all_iff suffix_def)
next
  case False
  then show ?thesis
    using dec3_length [of n] by (auto simp: is_run_suffix_def)
qed

text \<open>C34: The stamp read off a run's file name is the run's stamp, for the file being written and
  for its rotations up to the 999th; from the thousandth on a rotation is not recognised as the
  run's.\<close>

theorem run_names_read_back:
  assumes "is_stamp stamp"
  shows "stamp_of (live_name stamp) = Some stamp \<and>
    (stamp_of (rotated_name stamp n) = Some stamp \<longleftrightarrow> n \<le> 999) \<and>
    (stamp_of (rotated_name stamp n) = None \<longleftrightarrow> 1000 \<le> n)"
  using stamp_of_name [OF assms, of "''.log''"] stamp_of_name [OF assms, of "''.'' @ dec3 n @ ''.log''"]
    rotated_suffix [of n]
  by (auto simp: live_name_def rotated_name_def is_run_suffix_def)

lemma run_names_read_back_witness:
  "stamp_of (rotated_name ''20250102_030405'' 1000) = None"
  using run_names_read_back [of "''20250102_030405''" 1000]
  by (simp add: is_stamp_def is_ascii_digit_def)

section \<open>Pruning\<close>

abbreviation keys :: "(str \<times> 'v) list \<Rightarrow> str list" where
  "keys m \<equiv> map fst m"

lemma bt_push_keys: "set (keys (bt_push k v m)) = insert k (set (keys m))"
  by (induction k v m rule: bt_push.induct) auto

lemma bt_push_sorted: "sorted_wrt (<) (keys m) \<Longrightarrow> sorted_wrt (<) (keys (bt_push k v m))"
proof (induction k v m rule: bt_push.induct)
  case (2 k v k' vs rest)
  then show ?case
    using bt_push_keys [of k v rest] by (auto intro: less_trans)
qed simp

lemma map_of_above: "\<forall>x \<in> set (keys m). k < x \<Longrightarrow> map_of m k = None"
  by (auto simp: map_of_eq_None_iff)

lemma bt_push_get:
  "sorted_wrt (<) (keys m) \<Longrightarrow> map_of (bt_push k v m) k' =
     (if k' = k then Some ((case map_of m k of None \<Rightarrow> [] | Some vs \<Rightarrow> vs) @ [v]) else map_of m k')"
proof (induction k v m rule: bt_push.induct)
  case (2 k v k'' vs rest)
  have "k < k'' \<Longrightarrow> map_of ((k'', vs) # rest) k = None"
    using 2 by (intro map_of_above) (auto intro: less_trans)
  with 2 show ?case by (auto split: option.splits)
qed simp

definition files_at :: "(str \<times> 'v list) list \<Rightarrow> str \<Rightarrow> 'v list" where
  "files_at m t = (case map_of m t of None \<Rightarrow> [] | Some fs \<Rightarrow> fs)"

lemma files_at_push:
  "sorted_wrt (<) (keys m) \<Longrightarrow>
     set (files_at (bt_push k v m) t) = set (files_at m t) \<union> (if t = k then {v} else {})"
  by (auto simp: files_at_def bt_push_get)

text \<open>Grouping gives, under every stamp, the files that carry it.\<close>

lemma group_runs_spec:
  assumes "sorted_wrt (<) (keys runs)"
  shows "sorted_wrt (<) (keys (group_runs names runs))"
    and "set (keys (group_runs names runs)) = set (keys runs) \<union> {t. \<exists>n \<in> set names. run_stamp n = Some t}"
    and "set (files_at (group_runs names runs) t) =
      set (files_at runs t) \<union> {n \<in> set names. run_stamp n = Some t}"
  using assms
proof (induction names arbitrary: runs)
  case (Cons name names)
  {
    case 1
    then show ?case using Cons.IH(1) by (simp add: bt_push_sorted split: option.split)
  next
    case 2
    then show ?case
      using Cons.IH(2) by (cases "run_stamp name") (auto simp: bt_push_sorted bt_push_keys simp del: set_map)
  next
    case 3
    then show ?case
      using Cons.IH(3) by (cases "run_stamp name") (auto simp: bt_push_sorted files_at_push)
  }
qed simp_all

lemma card_above:
  assumes "sorted_wrt (<) (xs :: str list)" and "i < length xs"
  shows "card {t \<in> set xs. xs ! i < t} = length xs - Suc i"
proof -
  define p x q where "p = take i xs" and "x = xs ! i" and "q = drop (Suc i) xs"
  have xs: "xs = p @ x # q" using id_take_nth_drop [OF assms(2)] by (simp add: p_def x_def q_def)
  have s: "sorted_wrt (<) (p @ x # q)" using assms(1) unfolding xs .
  then have "{t \<in> set xs. x < t} = set q" unfolding xs by (auto simp: sorted_wrt_append dest: less_asym)
  moreover have "distinct q" using s by (simp add: strict_sorted_iff)
  ultimately show ?thesis by (simp add: x_def q_def distinct_card)
qed

lemma in_take_above:
  assumes "sorted_wrt (<) (xs :: str list)" and "x \<in> set xs"
  shows "x \<in> set (take (length xs - k) xs) \<longleftrightarrow> k \<le> card {t \<in> set xs. x < t}"
proof -
  from assms(2) obtain i where i: "i < length xs" "x = xs ! i" by (auto simp: in_set_conv_nth)
  have d: "distinct xs" using assms(1) by (simp add: strict_sorted_iff)
  have "x \<in> set (take (length xs - k) xs) \<longleftrightarrow> i < length xs - k"
    using i d by (auto simp: in_set_conv_nth nth_eq_iff_index_eq)
  then show ?thesis using card_above [OF assms(1) i(1)] i by auto
qed

lemma fold_remove_file:
  "io_remove io = (\<lambda>_. None) \<Longrightarrow>
     hm_get (ld_names (fold (remove_file io) files ld)) name =
       (if name \<in> set files then None else hm_get (ld_names ld) name)"
  by (induction files arbitrary: ld) (auto simp: remove_file_def)

text \<open>The files of all but the newest \<open>k\<close> groups.\<close>

lemma pruned_files:
  fixes names :: "str list" and k :: nat
  defines "runs \<equiv> group_runs names []"
  shows "name \<in> set (concat (map snd (take (length runs - k) runs))) \<longleftrightarrow>
    (\<exists>t. name \<in> set names \<and> run_stamp name = Some t \<and>
       k \<le> card {u \<in> {t. \<exists>n \<in> set names. run_stamp n = Some t}. t < u})" (is "?L \<longleftrightarrow> ?R")
proof -
  have g: "sorted_wrt (<) (keys runs)" "set (keys runs) = {t. \<exists>n \<in> set names. run_stamp n = Some t}"
    and files: "set (files_at runs t) = {n \<in> set names. run_stamp n = Some t}" for t
    using group_runs_spec [of "[]" names] by (simp_all add: files_at_def runs_def)
  have d: "distinct (keys runs)" using g(1) by (simp add: strict_sorted_iff)
  have old: "t \<in> set (take (length runs - k) (keys runs)) \<longleftrightarrow> k \<le> card {u \<in> set (keys runs). t < u}"
    if "t \<in> set (keys runs)" for t
    using in_take_above [OF g(1) that, of k] by simp
  show ?thesis
  proof
    assume ?L
    then obtain t fs where tfs: "(t, fs) \<in> set (take (length runs - k) runs)" "name \<in> set fs" by auto
    then have "map_of runs t = Some fs" using d in_set_takeD by fastforce
    then have "name \<in> set names" "run_stamp name = Some t"
      using files [of t] tfs(2) by (auto simp: files_at_def)
    moreover have "t \<in> set (keys runs)" using in_set_takeD [OF tfs(1)] by force
    moreover have "t \<in> set (take (length runs - k) (keys runs))" using tfs(1) by (force simp: take_map)
    ultimately show ?R using old [of t] g(2) by auto
  next
    assume ?R
    then obtain t where t: "name \<in> set names" "run_stamp name = Some t"
      "k \<le> card {u \<in> set (keys runs). t < u}" using g(2) by auto
    then have "name \<in> set (files_at runs t)" using files [of t] by simp
    then obtain fs where fs: "map_of runs t = Some fs" "name \<in> set fs"
      by (cases "map_of runs t") (simp_all add: files_at_def)
    then have "t \<in> set (take (length runs - k) (keys runs))"
      using old [of t] t(3) map_of_SomeD [OF fs(1)] by force
    then obtain fs' where fs': "(t, fs') \<in> set (take (length runs - k) runs)" by (auto simp: take_map)
    then have "map_of runs t = Some fs'" using d in_set_takeD by fastforce
    then show ?L using fs fs' by force
  qed
qed

definition run_stamps :: "log_dir \<Rightarrow> str set" where
  "run_stamps ld = {t. \<exists>n. hm_contains (ld_names ld) n \<and> run_stamp n = Some t}"

lemma prune_runs_get:
  assumes "io_read_dir io = None" and "io_remove io = (\<lambda>_. None)"
  shows "hm_get (ld_names (prune_runs io ld)) name =
    (case run_stamp name of
       None \<Rightarrow> hm_get (ld_names ld) name
     | Some t \<Rightarrow> if card {u \<in> run_stamps ld. t < u} < KEEP_RUNS then hm_get (ld_names ld) name else None)"
proof -
  have names: "set (map fst (ld_names ld)) = {n. hm_contains (ld_names ld) n}"
    by (force simp: hm_contains_def hm_get_def map_of_eq_None_iff)
  have "name \<in> set (concat (map snd (take (length (group_runs (map fst (ld_names ld)) []) - KEEP_RUNS)
      (group_runs (map fst (ld_names ld)) [])))) \<longleftrightarrow>
    (\<exists>t. hm_contains (ld_names ld) name \<and> run_stamp name = Some t \<and>
       KEEP_RUNS \<le> card {u \<in> run_stamps ld. t < u})"
    unfolding pruned_files names run_stamps_def by simp
  then show ?thesis
    by (auto simp: prune_runs_def assms(1) Let_def fold_remove_file [OF assms(2)] hm_contains_def
        split: option.split)
qed

lemma live_name_stamp: "is_stamp stamp \<Longrightarrow> run_stamp (live_name stamp) = Some stamp"
proof -
  assume a: "is_stamp stamp"
  obtain date time where s: "stamp = date @ ''_'' @ time" "length date = 8" "length time = 6"
    "list_all is_ascii_digit date" "list_all is_ascii_digit time"
    by (rule is_stampE [OF a])
  have dig: "byte c < 128" if "is_ascii_digit c" for c
    using that by (simp add: is_ascii_digit_def byte_def Let_def)
  have "ascii (live_name stamp)"
    using s by (auto simp: ascii_def live_name_def STEM_def list_all_iff dig) (simp_all add: byte_def)
  then have "utf8 (live_name stamp)" by (rule ascii_utf8)
  moreover have "stamp_of (live_name stamp) = Some stamp"
    using stamp_of_name [OF a, of "''.log''"] by (simp add: live_name_def is_run_suffix_def)
  ultimately show ?thesis by (simp add: run_stamp_def)
qed

text \<open>A directory that holds one file for each of the given runs, numbered in their order.\<close>

definition runs_dir :: "str list \<Rightarrow> log_dir" where
  "runs_dir stamps = \<lparr>ld_names = zip (map live_name stamps) [0..<length stamps], ld_data = (\<lambda>_. []),
     ld_next = length stamps\<rparr>"

definition ten_stamps :: "str list" where
  "ten_stamps = map (\<lambda>d. ''20250102_03040'' @ [d]) ''0123456789''"

lemma run_stamps_runs_dir:
  assumes "\<forall>t\<in>set stamps. is_stamp t"
  shows "run_stamps (runs_dir stamps) = set stamps"
proof -
  have "hm_contains (ld_names (runs_dir stamps)) n \<longleftrightarrow> n \<in> live_name ` set stamps" for n
    by (simp add: hm_contains_def runs_dir_def hm_get_def map_of_zip_is_None)
  then show ?thesis using assms by (auto simp: run_stamps_def live_name_stamp)
qed

lemma ten_stamps_valid: "\<forall>t\<in>set ten_stamps. is_stamp t"
  by (simp add: ten_stamps_def is_stamp_def is_ascii_digit_def)

lemma ten_stamps_later: "card {u \<in> set ten_stamps. ''20240101_000000'' < u} = 10"
proof -
  have "{u \<in> set ten_stamps. ''20240101_000000'' < u} = set ten_stamps"
    by (auto simp: ten_stamps_def less_char_def)
  moreover have "card (set ten_stamps) = 10"
    by (subst distinct_card) (simp_all add: ten_stamps_def)
  ultimately show ?thesis by simp
qed

text \<open>C21: Pruning deletes every file of the runs older than the newest ten, rotations included,
  and leaves everything else: the newest ten runs and every file that is not a run's.\<close>

theorem pruning_keeps_newest_runs:
  assumes "io_read_dir io = None" and "io_remove io = (\<lambda>_. None)"
  shows "hm_get (ld_names (prune_runs io ld)) name =
    (case run_stamp name of
       None \<Rightarrow> hm_get (ld_names ld) name
     | Some t \<Rightarrow> if card {u \<in> run_stamps ld. t < u} < KEEP_RUNS then hm_get (ld_names ld) name else None)"
  by (rule prune_runs_get [OF assms])

lemma pruning_keeps_newest_runs_witness:
  "hm_get (ld_names (runs_dir (''20240101_000000'' # ten_stamps))) (live_name ''20240101_000000'') = Some 0 \<and>
   hm_get (ld_names (prune_runs no_io_fault (runs_dir (''20240101_000000'' # ten_stamps))))
     (live_name ''20240101_000000'') = None"
proof -
  let ?old = "''20240101_000000''"
  have old: "is_stamp ?old" by (simp add: is_stamp_def is_ascii_digit_def)
  then have "run_stamps (runs_dir (?old # ten_stamps)) = insert ?old (set ten_stamps)"
    using run_stamps_runs_dir [of "?old # ten_stamps"] ten_stamps_valid by simp
  moreover have "{u \<in> insert ?old (set ten_stamps). ?old < u} = {u \<in> set ten_stamps. ?old < u}" by blast
  ultimately have "card {u \<in> run_stamps (runs_dir (?old # ten_stamps)). ?old < u} = 10"
    using ten_stamps_later by simp
  then have "hm_get (ld_names (prune_runs no_io_fault (runs_dir (?old # ten_stamps)))) (live_name ?old) = None"
    using pruning_keeps_newest_runs [of no_io_fault "runs_dir (?old # ten_stamps)" "live_name ?old"]
      live_name_stamp [OF old]
    by (simp add: no_io_fault_def KEEP_RUNS_def)
  moreover have "hm_get (ld_names (runs_dir (?old # ten_stamps))) (live_name ?old) = Some 0"
    by (simp add: runs_dir_def hm_get_def upt_conv_Cons del: upt_Suc)
  ultimately show ?thesis by blast
qed

text \<open>C39: Opening a run's log keeps the announced file exactly when fewer than ten other runs carry
  a later stamp: after the local clock went back past ten runs, the file just opened is pruned.\<close>

theorem opening_may_prune_its_own_run:
  assumes "is_stamp stamp" and "directory \<noteq> []"
    and "io_create_dir io = None" "io_open io = None" "io_read_dir io = None" "io_remove io = (\<lambda>_. None)"
  shows "\<exists>ol ld'. open_run_log io (Some directory) stamp ld = (Inr ol, ld') \<and>
    ol_path ol = live_name stamp \<and> ol_lines ol = 0 \<and>
    hm_get (ld_names ld') (live_name stamp) =
      (if card {u \<in> run_stamps ld. stamp < u} < KEEP_RUNS then Some (ol_file ol) else None)"
proof -
  obtain f ld1 where o: "create_if_missing (live_name stamp) ld = (f, ld1)" by fastforce
  have f: "hm_get (ld_names ld1) (live_name stamp) = Some f"
    and other: "\<And>n. n \<noteq> live_name stamp \<Longrightarrow> hm_get (ld_names ld1) n = hm_get (ld_names ld) n"
    using o by (auto simp: create_if_missing_def Let_def split: option.splits)
  have "hm_contains (ld_names ld1) n \<longleftrightarrow> hm_contains (ld_names ld) n \<or> n = live_name stamp" for n
    using f other [of n] by (cases "n = live_name stamp") (simp_all add: hm_contains_def)
  then have "{u \<in> run_stamps ld1. stamp < u} = {u \<in> run_stamps ld. stamp < u}"
    using live_name_stamp [OF assms(1)] by (auto simp: run_stamps_def)
  then have "hm_get (ld_names (prune_runs io ld1)) (live_name stamp) =
      (if card {u \<in> run_stamps ld. stamp < u} < KEEP_RUNS then Some f else None)"
    using prune_runs_get [OF assms(5,6), of ld1 "live_name stamp"] live_name_stamp [OF assms(1)] f by simp
  then show ?thesis
    using assms(2-4) by (simp add: open_run_log_def open_append_def o)
qed

lemma opening_may_prune_its_own_run_witness:
  "\<exists>ol ld'. open_run_log no_io_fault (Some ''/d'') ''20240101_000000'' (runs_dir ten_stamps) = (Inr ol, ld') \<and>
     ol_path ol = live_name ''20240101_000000'' \<and>
     hm_get (ld_names ld') (live_name ''20240101_000000'') = None"
proof -
  have "is_stamp ''20240101_000000''" by (simp add: is_stamp_def is_ascii_digit_def)
  then show ?thesis
    using opening_may_prune_its_own_run [of "''20240101_000000''" "''/d''" no_io_fault "runs_dir ten_stamps"]
      run_stamps_runs_dir [OF ten_stamps_valid] ten_stamps_later
    by (auto simp: no_io_fault_def KEEP_RUNS_def)
qed

section \<open>Appending and rotating\<close>

text \<open>The file being written is the one under the announced name, and not full; file numbers in use
  are below the next new one.\<close>

definition log_inv :: "open_log \<Rightarrow> log_dir \<Rightarrow> bool" where
  "log_inv ol ld \<longleftrightarrow> ol_path ol = live_name (ol_stamp ol) \<and>
     hm_get (ld_names ld) (ol_path ol) = Some (ol_file ol) \<and> ol_lines ol < ROTATE_AFTER_LINES \<and>
     (\<forall>name f. hm_get (ld_names ld) name = Some f \<longrightarrow> f < ld_next ld)"

lemma live_not_rotated: "live_name stamp \<noteq> rotated_name stamp n"
proof
  assume "live_name stamp = rotated_name stamp n"
  then have "length (live_name stamp) = length (rotated_name stamp n)" by simp
  then show False by (simp add: live_name_def rotated_name_def)
qed

lemma rotate_ok:
  assumes "log_inv ol ld" and "io_rename io = None" "io_create io = None"
  shows "\<exists>ol' ld'. rotate io ol ld = (Inr (), ol', ld') \<and> log_inv ol' ld' \<and> ol_stamp ol' = ol_stamp ol \<and>
    ol_lines ol' = 0 \<and> ol_rotations ol' = ol_rotations ol + 1 \<and> ld_data ld' (ol_file ol') = [] \<and>
    hm_get (ld_names ld') (rotated_name (ol_stamp ol) (unat (ol_rotations ol + 1))) = Some (ol_file ol) \<and>
    ld_data ld' (ol_file ol) = ld_data ld (ol_file ol)"
proof -
  let ?aside = "rotated_name (ol_stamp ol) (unat (ol_rotations ol + 1))"
  have p: "ol_path ol = live_name (ol_stamp ol)" "hm_get (ld_names ld) (ol_path ol) = Some (ol_file ol)"
    and fresh: "\<And>name f. hm_get (ld_names ld) name = Some f \<Longrightarrow> f < ld_next ld"
    using assms(1) by (auto simp: log_inv_def)
  have "ol_file ol \<noteq> ld_next ld" using fresh [OF p(2)] by simp
  moreover have "live_name (ol_stamp ol) \<noteq> ?aside" by (rule live_not_rotated)
  ultimately show ?thesis
    using p fresh assms(2,3)
    by (auto simp: rotate_def fs_rename_def file_create_def create_if_missing_def log_inv_def Let_def
        ROTATE_AFTER_LINES_def intro: less_SucI)
qed


definition demo_log :: open_log where
  "demo_log = \<lparr>ol_file = 0, ol_path = live_name ''20250102_030405'', ol_stamp = ''20250102_030405'',
     ol_lines = 9999, ol_rotations = 0\<rparr>"

definition demo_dir :: log_dir where
  "demo_dir = \<lparr>ld_names = [(live_name ''20250102_030405'', 0)], ld_data = (\<lambda>_. ''x''), ld_next = 1\<rparr>"

lemma demo_log_inv: "log_inv demo_log demo_dir"
  by (simp add: log_inv_def demo_log_def demo_dir_def hm_get_def ROTATE_AFTER_LINES_def)


subsection \<open>Runs of appends\<close>

definition append_step :: "io_fault \<times> bytes \<Rightarrow> open_log \<times> log_dir \<Rightarrow> open_log \<times> log_dir" where
  "append_step i s = snd (append_line (fst i) (snd i) (fst s) (snd s))"

definition path_lost :: "open_log \<times> log_dir \<Rightarrow> bool" where
  "path_lost s \<longleftrightarrow> hm_get (ld_names (snd s)) (ol_path (fst s)) = None"

lemma append_step_path [simp]: "ol_path (fst (append_step i s)) = ol_path (fst s)"
  by (simp add: append_step_def append_line_def rotate_def case_prod_unfold Let_def split: sum.split)

interpretation lost: guarded_machine append_step "\<lambda>_ _. True" path_lost
proof (unfold_locales, goal_cases)
  case (1 s i)
  have names: "ld_names (snd (write_all io f buf ld)) = ld_names ld" for io f buf ld
    by (simp add: write_all_def split: option.split)
  with 1 have "ld_names (snd (append_step i s)) = ld_names (snd s)"
    by (simp add: append_step_def append_line_def rotate_def fs_rename_def path_lost_def case_prod_unfold
        Let_def split: sum.split option.split)
  with 1 show ?case by (simp add: path_lost_def)
qed

lemma lost_path_fold: "ol_path (fst (fold append_step later s)) = ol_path (fst s)"
  by (induction later arbitrary: s) simp_all

lemma lost_guarded: "lost.guarded later s"
  by (induction later arbitrary: s) simp_all

text \<open>C40: When a rotation sets the full file aside but cannot open a new one, the announced path is
  gone for the rest of the run: later appends go on into the file set aside, and no later rotation
  brings the announced name back.\<close>

theorem failed_reopen_loses_the_announced_path:
  assumes "log_inv ol ld" and "io_write io = None" "io_rename io = None" "io_create io = Some e"
    and "ROTATE_AFTER_LINES \<le> ol_lines ol + word_of_nat (newlines buf)"
    and "s1 = append_step (io, buf) (ol, ld)"
  shows "hm_get (ld_names (snd s1)) (rotated_name (ol_stamp ol) (unat (ol_rotations ol + 1))) = Some (ol_file (fst s1)) \<and>
    hm_get (ld_names (snd (fold append_step later s1))) (ol_path ol) = None"
proof -
  let ?aside = "rotated_name (ol_stamp ol) (unat (ol_rotations ol + 1))"
  have p: "ol_path ol = live_name (ol_stamp ol)" "hm_get (ld_names ld) (ol_path ol) = Some (ol_file ol)"
    using assms(1) by (auto simp: log_inv_def)
  have "live_name (ol_stamp ol) \<noteq> ?aside" by (rule live_not_rotated)
  then have "path_lost s1" "hm_get (ld_names (snd s1)) ?aside = Some (ol_file (fst s1))" "ol_path (fst s1) = ol_path ol"
    using p assms(2-5)
    by (simp_all add: assms(6) path_lost_def append_step_def append_line_def write_all_def rotate_def
        fs_rename_def file_create_def Let_def)
  then show ?thesis
    using lost.run_inv [of s1 later] lost_path_fold [of later s1] lost_guarded [of later s1]
    by (simp add: path_lost_def)
qed

lemma failed_reopen_loses_the_announced_path_witness:
  "hm_get (ld_names (snd (fold append_step [(no_io_fault, ''later'')]
     (append_step (no_io_fault\<lparr>io_create := Some ''full''\<rparr>, [newline]) (demo_log, demo_dir)))))
     (live_name ''20250102_030405'') = None"
  using failed_reopen_loses_the_announced_path [OF demo_log_inv, of "no_io_fault\<lparr>io_create := Some ''full''\<rparr>" "''full''"
      "[newline]" _ "[(no_io_fault, ''later'')]", OF _ _ _ _ refl]
  by (simp add: no_io_fault_def demo_log_def newlines_def ROTATE_AFTER_LINES_def)

section \<open>Installing\<close>

text \<open>The first init decides the run's log: its level is the environment's filter when that is
  set and parses, else the requested level when it is one of the five, else info; the announced path
  is set exactly when a file was opened; and later inits change none of it.\<close>

theorem logging_is_installed_once:
  assumes "\<not> lg_installed ls" and "lg_run ls = None"
    and "ls' = install_once fl io rust_log ctx stamp try_init lvl ls"
  shows "install_once fl2 io2 rust_log2 ctx2 stamp2 try_init2 lvl2 ls' = ls' \<and>
    (log_path ls' \<noteq> [] \<longleftrightarrow> (\<exists>ol. lg_run ls' = Some (Some ol))) \<and>
    (is_ok try_init \<longrightarrow> lg_filter ls' = Some
       (case rust_log of
          Some v \<Rightarrow> (if trimmed_empty v then fl_new fl (filter_for (level_or_default lvl))
            else case fl_try_new fl v of Inr f \<Rightarrow> f | Inl _ \<Rightarrow> fl_new fl (filter_for (level_or_default lvl)))
        | None \<Rightarrow> fl_new fl (filter_for (level_or_default lvl))))"
proof -
  obtain r ld where o: "open_run_log io ctx stamp (lg_dir ls) = (r, ld)" by fastforce
  have ol: "ol_path ol \<noteq> []" if "r = Inr ol" for ol
    using o that by (auto simp: open_run_log_def live_name_def STEM_def case_prod_unfold Let_def
        split: option.splits sum.splits)
  have join: "join_path d n \<noteq> []" if "n \<noteq> []" for d n using that by (simp add: join_path_def)
  have flt: "lg_filter ls' = Some (filter_from fl rust_log (level_or_default lvl))" if "is_ok try_init"
    using that assms(1) by (cases try_init) (simp_all add: assms(3) install_once_def o Let_def case_prod_unfold)
  have "lg_installed ls'" "log_path ls' \<noteq> [] \<longleftrightarrow> (\<exists>ol. lg_run ls' = Some (Some ol))"
    using assms(1,2) ol join
    by (cases r; simp add: assms(3) install_once_def o inert_def log_path_def run_log_path_def Let_def case_prod_unfold)+
  moreover have "filter_from fl rust_log l = (case rust_log of
      Some v \<Rightarrow> (if trimmed_empty v then fl_new fl (filter_for l)
        else case fl_try_new fl v of Inr f \<Rightarrow> f | Inl _ \<Rightarrow> fl_new fl (filter_for l))
    | None \<Rightarrow> fl_new fl (filter_for l))" for l
    by (simp add: filter_from_def split: option.split sum.split)
  ultimately show ?thesis using flt by (simp add: install_once_def [of fl2])
qed

definition text_filters :: "str filter_api" where
  "text_filters = \<lparr>fl_try_new = Inr, fl_new = (\<lambda>s. s), fl_text = (\<lambda>s. s)\<rparr>"

definition no_log :: "str log_state" where
  "no_log = \<lparr>lg_installed = False, lg_path = [], lg_run = None, lg_filter = None, lg_stderr = [],
     lg_dir = \<lparr>ld_names = [], ld_data = (\<lambda>_. []), ld_next = 0\<rparr>\<rparr>"

lemma logging_is_installed_once_witness:
  "lg_filter (install_once text_filters no_io_fault None None ''s'' (Inr ()) ''loud'' no_log) =
     Some (filter_for ''info'')"
  using logging_is_installed_once [where ls = no_log and fl = text_filters and io = no_io_fault
      and rust_log = None and ctx = None and stamp = "''s''" and try_init = "Inr ()" and lvl = "''loud''", OF _ _ refl]
  by (simp add: no_log_def text_filters_def level_or_default_def DEFAULT_LEVEL_def)

end
