(* ===== verification/Panic.thy ===== *)
theory Panic
  imports Schedules Logging_Properties
begin

text \<open>
  The panic hook as a thread runs it.  A thread may panic anywhere, whatever locks it and the others
  have taken; the hook asks for the run log's lock with \<open>try_lock\<close> and goes on without it.
\<close>

definition write_line_task ::
  "io_fault \<Rightarrow> str \<Rightarrow> str \<Rightarrow> (lock, 'f log_state) task \<Rightarrow> (lock, 'f log_state) task" where
  "write_line_task io time line k = look (\<lambda>ls. case lg_run ls of
     None \<Rightarrow> k
   | Some _ \<Rightarrow> Try_lock Run_log_lock
       (run (write_line io False time line) (Unlock Run_log_lock k)) k)"

definition panic_hook_task ::
  "io_fault \<Rightarrow> str \<Rightarrow> str \<Rightarrow> (panic_info \<Rightarrow> 'f log_state \<Rightarrow> 'f log_state) \<Rightarrow> panic_info \<Rightarrow>
     (lock, 'f log_state) task" where
  "panic_hook_task io time backtrace previous info =
     (let msg = panic_message info; origin = panic_origin info in
      run (\<lambda>ls. ls\<lparr>lg_stderr := lg_stderr ls @ [''chat_module: panic at '' @ origin @ '': '' @ msg]\<rparr>)
      (write_line_task io time
         (''CRITICAL: chat_module: panic at '' @ origin @ '': '' @ msg @ [newline] @ backtrace)
      (run (previous info) Done)))"

lemma write_line_busy: "lg_run ls = Some log \<Longrightarrow> write_line io True time line ls = ls"
  by (simp add: write_line_def write_stamped_def)

lemma run_schedule_on:
  "run_schedule (replicate n i) p = Some q \<Longrightarrow> run_schedule (replicate m i) q = Some r \<Longrightarrow>
     run_schedule (replicate (n + m) i) p = Some r"
  by (induction n arbitrary: p) (auto split: option.splits)

text \<open>The write ends by the thread's own moves, whether the log is absent, free or taken.\<close>

lemma write_line_moves:
  assumes "i < length ts"
    and "ts ! i = \<lparr>th_started = True, th_held = h, th_task = write_line_task io time line k\<rparr>"
  shows "\<exists>n. run_schedule (replicate n i) \<lparr>po_state = ls, po_threads = ts\<rparr> = Some
    \<lparr>po_state = write_line io (\<not> free Run_log_lock ts) time line ls,
     po_threads = ts[i := \<lparr>th_started = True, th_held = h, th_task = k\<rparr>]\<rparr>"
proof -
  have ts: "ts = ts[i := \<lparr>th_started = True, th_held = h, th_task = write_line_task io time line k\<rparr>]"
    using assms(2) by (metis list_update_id)
  have free: "free Run_log_lock (ts[i := \<lparr>th_started = True, th_held = h, th_task = t\<rparr>]) = free Run_log_lock ts" for t
    using assms by (intro free_same) simp_all
  have run: "run_schedule (replicate n i) \<lparr>po_state = ls, po_threads = ts\<rparr> = run_schedule (replicate n i) \<lparr>po_state = ls,
      po_threads = ts[i := \<lparr>th_started = True, th_held = h, th_task = write_line_task io time line k\<rparr>]\<rparr>" for n
    by (rule arg_cong [OF ts])
  consider "lg_run ls = None" | log where "lg_run ls = Some log" "free Run_log_lock ts"
    | log where "lg_run ls = Some log" "\<not> free Run_log_lock ts" by (cases "lg_run ls") blast+
  then show ?thesis
  proof cases
    case 1
    then show ?thesis
      using assms(1) unfolding run by (intro exI [of _ 1]) (simp add: write_line_task_def write_line_def)
  next
    case 2
    then show ?thesis
      using assms(1) unfolding run by (intro exI [of _ 4]) (simp add: eval_nat_numeral write_line_task_def free)
  next
    case 3
    then show ?thesis
      using assms(1) unfolding run by (intro exI [of _ 2])
        (simp add: eval_nat_numeral write_line_task_def free write_line_busy)
  qed
qed

text \<open>C23: A panic is recorded without waiting.  Wherever a thread panics, and whatever locks it or the
  other threads hold, its own moves alone take the hook to its end: the origin and the message are on
  stderr, the previous hook has run, and the line with the backtrace is in the run's log unless the log
  was being written at that moment, in which case only that line is given up.  The thread's locks are
  as they were.\<close>

theorem panic_is_recorded_without_waiting:
  assumes "i < length ts"
    and "ts ! i = \<lparr>th_started = True, th_held = h, th_task = panic_hook_task io time backtrace previous info\<rparr>"
  shows "\<exists>n. run_schedule (replicate n i) \<lparr>po_state = ls, po_threads = ts\<rparr> = Some
    \<lparr>po_state = panic_hook io (\<not> free Run_log_lock ts) time backtrace previous info ls,
     po_threads = ts[i := \<lparr>th_started = True, th_held = h, th_task = Done\<rparr>]\<rparr>"
proof -
  let ?at = "\<lambda>t. ts[i := \<lparr>th_started = True, th_held = h, th_task = t\<rparr>]"
  let ?what = "''chat_module: panic at '' @ panic_origin info @ '': '' @ panic_message info"
  let ?line = "''CRITICAL: '' @ ?what @ [newline] @ backtrace"
  let ?ls = "ls\<lparr>lg_stderr := lg_stderr ls @ [?what]\<rparr>"
  let ?written = "write_line io (\<not> free Run_log_lock ts) time ?line ?ls"
  let ?rest = "write_line_task io time ?line (run (previous info) Done)"
  have ts: "ts = ?at (panic_hook_task io time backtrace previous info)"
    using assms(2) by (metis list_update_id)
  have busy: "free Run_log_lock (?at ?rest) = free Run_log_lock ts"
    using assms by (intro free_same) simp_all
  have 1: "run_schedule (replicate 1 i) \<lparr>po_state = ls, po_threads = ts\<rparr> = Some \<lparr>po_state = ?ls, po_threads = ?at ?rest\<rparr>"
    using assms(1) by (subst ts) (simp add: panic_hook_task_def Let_def)
  obtain n where 2: "run_schedule (replicate n i) \<lparr>po_state = ?ls, po_threads = ?at ?rest\<rparr> = Some
      \<lparr>po_state = ?written, po_threads = ?at (run (previous info) Done)\<rparr>"
    using write_line_moves [of i "?at ?rest" h io time ?line "run (previous info) Done" ?ls] assms(1) busy by auto
  have 3: "run_schedule (replicate 1 i) \<lparr>po_state = ?written, po_threads = ?at (run (previous info) Done)\<rparr> = Some
      \<lparr>po_state = previous info ?written, po_threads = ?at Done\<rparr>"
    using assms(1) by simp
  have hook: "panic_hook io (\<not> free Run_log_lock ts) time backtrace previous info ls = previous info ?written"
    by (simp add: panic_hook_def Let_def)
  show ?thesis
    unfolding hook using run_schedule_on [OF run_schedule_on [OF 1 2] 3] by (rule exI [where x = "1 + n + 1"])
qed

lemma panic_is_recorded_without_waiting_witness:
  "\<exists>n. run_schedule (replicate n 0)
      \<lparr>po_state = no_log, po_threads = [\<lparr>th_started = True, th_held = [Run_log_lock, Display_lock],
         th_task = panic_hook_task no_io_fault ''now'' ''trace'' (\<lambda>_ ls. ls)
           \<lparr>pi_payload = Str_payload ''boom'', pi_location = None\<rparr>\<rparr>]\<rparr> = Some
      \<lparr>po_state = panic_hook no_io_fault True ''now'' ''trace'' (\<lambda>_ ls. ls)
         \<lparr>pi_payload = Str_payload ''boom'', pi_location = None\<rparr> no_log,
       po_threads = [\<lparr>th_started = True, th_held = [Run_log_lock, Display_lock], th_task = Done\<rparr>]\<rparr>"
proof -
  let ?t = "\<lparr>th_started = True, th_held = [Run_log_lock, Display_lock],
     th_task = panic_hook_task no_io_fault ''now'' ''trace'' (\<lambda>_ ls. ls)
       \<lparr>pi_payload = Str_payload ''boom'', pi_location = None\<rparr>\<rparr> :: (lock, str log_state) thread"
  have "\<not> free Run_log_lock [?t]" by (simp add: free_def)
  with panic_is_recorded_without_waiting [of 0 "[?t]" "[Run_log_lock, Display_lock]" no_io_fault "''now''" "''trace''"
      "\<lambda>_ ls. ls" "\<lparr>pi_payload = Str_payload ''boom'', pi_location = None\<rparr>" no_log]
  show ?thesis by simp
qed

end
