(* ===== verification/Stamps.thy ===== *)
theory Stamps
  imports Logging_Properties
begin

text \<open>
  The stamp in a run's file names.  \<open>prune_runs\<close> takes the runs in the order of their stamps and relies
  on that order being the order in time.  How \<open>chrono\<close> prints a local time is a parameter; what is used
  of it is \<open>prints_stamps\<close>, the documented meaning of the specifiers in \<open>STAMP_FORMAT\<close>.
\<close>

section \<open>Times and fixed-width numbers\<close>

record local_time =
  lt_year :: nat
  lt_month :: nat
  lt_day :: nat
  lt_hour :: nat
  lt_minute :: nat
  lt_second :: nat

definition STAMP_FORMAT :: str where
  "STAMP_FORMAT = ''%Y%m%d_%H%M%S''"

text \<open>A time of the years that have four digits; \<open>%S\<close> reaches 60 in a leap second.\<close>

definition valid_time :: "local_time \<Rightarrow> bool" where
  "valid_time t \<longleftrightarrow> lt_year t < 10000 \<and> 1 \<le> lt_month t \<and> lt_month t \<le> 12 \<and> 1 \<le> lt_day t \<and> lt_day t \<le> 31 \<and>
     lt_hour t < 24 \<and> lt_minute t < 60 \<and> lt_second t \<le> 60"

definition earlier :: "local_time \<Rightarrow> local_time \<Rightarrow> bool" where
  "earlier t u \<longleftrightarrow>
     [lt_year t, lt_month t, lt_day t, lt_hour t, lt_minute t, lt_second t]
     < [lt_year u, lt_month u, lt_day u, lt_hour u, lt_minute u, lt_second u]"

primrec pad :: "nat \<Rightarrow> nat \<Rightarrow> str" where
  "pad 0 n = []"
| "pad (Suc w) n = pad w (n div 10) @ [digit (n mod 10)]"

text \<open>\<open>%Y\<close> prints four digits, \<open>%m\<close>, \<open>%d\<close>, \<open>%H\<close>, \<open>%M\<close> and \<open>%S\<close> two; other characters stand for themselves.\<close>

definition stamp_text :: "local_time \<Rightarrow> str" where
  "stamp_text t = pad 4 (lt_year t) @ pad 2 (lt_month t) @ pad 2 (lt_day t) @ ''_''
     @ pad 2 (lt_hour t) @ pad 2 (lt_minute t) @ pad 2 (lt_second t)"

definition prints_stamps :: "(str \<Rightarrow> local_time \<Rightarrow> str) \<Rightarrow> bool" where
  "prints_stamps format \<longleftrightarrow> (\<forall>t. valid_time t \<longrightarrow> format STAMP_FORMAT t = stamp_text t)"

section \<open>Their order\<close>

lemma length_pad [simp]: "length (pad w n) = w"
  by (induction w arbitrary: n) simp_all

lemma pad_digits: "list_all is_ascii_digit (pad w n)"
  by (induction w arbitrary: n) (simp_all add: digit_ascii)

lemma append_less_iff:
  "length xs = length ys \<Longrightarrow> xs @ us < ys @ vs \<longleftrightarrow> xs < ys \<or> xs = ys \<and> us < vs"
  for xs :: "'a::linorder list"
  by (induction xs ys rule: list_induct2) auto

lemma digit_less: "a < 10 \<Longrightarrow> b < 10 \<Longrightarrow> digit a < digit b \<longleftrightarrow> a < b"
  by (simp add: digit_def less_char_def)

lemma digit_eq: "a < 10 \<Longrightarrow> b < 10 \<Longrightarrow> digit a = digit b \<longleftrightarrow> a = b"
  by (metis digit_less linorder_neqE_nat nless_le order.irrefl)

lemma pad_inject: "m < 10 ^ w \<Longrightarrow> n < 10 ^ w \<Longrightarrow> pad w m = pad w n \<longleftrightarrow> m = n"
proof (induction w arbitrary: m n)
  case (Suc w)
  then have "m div 10 < 10 ^ w" "n div 10 < 10 ^ w" by simp_all
  with Suc.IH show ?case by (auto simp: digit_eq) (metis div_mult_mod_eq)
qed simp

lemma digits_less: "b < 10 \<Longrightarrow> d < 10 \<Longrightarrow> 10 * a + b < 10 * c + d \<longleftrightarrow> a < c \<or> a = c \<and> b < d"
  for a b c d :: nat
  by arith

lemma pad_less: "m < 10 ^ w \<Longrightarrow> n < 10 ^ w \<Longrightarrow> pad w m < pad w n \<longleftrightarrow> m < n"
proof (induction w arbitrary: m n)
  case (Suc w)
  then have "m div 10 < 10 ^ w" "n div 10 < 10 ^ w" by simp_all
  then have "pad (Suc w) m < pad (Suc w) n \<longleftrightarrow> m div 10 < n div 10 \<or> m div 10 = n div 10 \<and> m mod 10 < n mod 10"
    using Suc.IH by (simp add: append_less_iff pad_inject digit_less)
  also have "\<dots> \<longleftrightarrow> 10 * (m div 10) + m mod 10 < 10 * (n div 10) + n mod 10"
    using digits_less [of "m mod 10" "n mod 10" "m div 10" "n div 10"] by simp
  also have "\<dots> \<longleftrightarrow> m < n" by simp
  finally show ?case .
qed simp

text \<open>A stamp sorts lexicographically the way it sorts chronologically.\<close>

lemma stamps_sort_by_time:
  assumes "valid_time t" and "valid_time u"
  shows "stamp_text t < stamp_text u \<longleftrightarrow> earlier t u" and "stamp_text t = stamp_text u \<longleftrightarrow> t = u"
proof -
  have num: "pad 4 (lt_year t) < pad 4 (lt_year u) \<longleftrightarrow> lt_year t < lt_year u"
    "pad 4 (lt_year t) = pad 4 (lt_year u) \<longleftrightarrow> lt_year t = lt_year u"
    using assms by (simp_all add: valid_time_def pad_less pad_inject)
  have two: "pad 2 m < pad 2 n \<longleftrightarrow> m < n" "pad 2 m = pad 2 n \<longleftrightarrow> m = n" if "m < 100" "n < 100" for m n
    using that by (simp_all add: pad_less pad_inject)
  show "stamp_text t < stamp_text u \<longleftrightarrow> earlier t u"
    using assms by (simp add: stamp_text_def append_less_iff num two valid_time_def earlier_def)
  show "stamp_text t = stamp_text u \<longleftrightarrow> t = u"
    using assms by (cases t; cases u) (simp add: stamp_text_def pad_inject two valid_time_def)
qed

lemma stamp_text_is_stamp: "is_stamp (stamp_text t)"
  by (simp add: stamp_text_def is_stamp_def pad_digits nth_append)

section \<open>Pruning goes by age\<close>

text \<open>C24: The runs pruning deletes are the oldest ones.  When the directory holds the runs started at
  the times \<open>T\<close>, the live file of the run started at \<open>t\<close> is kept exactly when fewer than ten of the runs
  started later: the lexicographic order of the stamps that \<open>prune_runs\<close> goes by is the order in
  time.\<close>

theorem pruning_goes_by_age:
  assumes law: "prints_stamps format" and valid: "\<forall>u\<in>T. valid_time u" and t: "t \<in> T"
    and dir: "run_stamps ld = format STAMP_FORMAT ` T"
    and "io_read_dir io = None" and "io_remove io = (\<lambda>_. None)"
  shows "hm_get (ld_names (prune_runs io ld)) (live_name (format STAMP_FORMAT t)) =
    (if card {u \<in> T. earlier t u} < KEEP_RUNS then hm_get (ld_names ld) (live_name (format STAMP_FORMAT t))
     else None)"
proof -
  have f: "format STAMP_FORMAT u = stamp_text u" if "u \<in> T" for u
    using law valid that by (simp add: prints_stamps_def)
  have "{s \<in> run_stamps ld. stamp_text t < s} = stamp_text ` {u \<in> T. earlier t u}"
    using t valid f stamps_sort_by_time(1) by (auto simp: dir)
  moreover have "inj_on stamp_text {u \<in> T. earlier t u}"
    using valid by (intro inj_onI) (simp add: stamps_sort_by_time(2))
  ultimately have "card {s \<in> run_stamps ld. stamp_text t < s} = card {u \<in> T. earlier t u}"
    by (simp add: card_image)
  then show ?thesis
    using prune_runs_get [OF assms(5,6), of ld "live_name (stamp_text t)"] live_name_stamp [OF stamp_text_is_stamp]
    by (simp add: f [OF t])
qed

lemma pruning_goes_by_age_witness:
  "let noon = \<lparr>lt_year = 2026, lt_month = 7, lt_day = 30, lt_hour = 12, lt_minute = 0, lt_second = 0\<rparr>
   in hm_get (ld_names (prune_runs no_io_fault (runs_dir [stamp_text noon]))) (live_name (stamp_text noon)) = Some 0"
proof -
  define noon where "noon = \<lparr>lt_year = 2026, lt_month = 7, lt_day = 30, lt_hour = 12, lt_minute = 0, lt_second = 0\<rparr>"
  have "hm_get (ld_names (prune_runs no_io_fault (runs_dir [stamp_text noon]))) (live_name (stamp_text noon)) =
      (if card {u \<in> {noon}. earlier noon u} < KEEP_RUNS
       then hm_get (ld_names (runs_dir [stamp_text noon])) (live_name (stamp_text noon)) else None)"
    using run_stamps_runs_dir [of "[stamp_text noon]"] stamp_text_is_stamp
    by (intro pruning_goes_by_age [where format = "\<lambda>_. stamp_text"])
      (simp_all add: prints_stamps_def noon_def valid_time_def no_io_fault_def)
  moreover have "card {u \<in> {noon}. earlier noon u} = 0" by (auto simp: earlier_def)
  ultimately have "hm_get (ld_names (prune_runs no_io_fault (runs_dir [stamp_text noon]))) (live_name (stamp_text noon)) =
      hm_get (ld_names (runs_dir [stamp_text noon])) (live_name (stamp_text noon))"
    by (simp only: KEEP_RUNS_def) simp
  then show ?thesis unfolding Let_def noon_def [symmetric]
    by (simp add: runs_dir_def hm_get_def)
qed

end
