(* ===== verification/Test_Chat.thy ===== *)
theory Test_Chat
  imports System_Properties Logging_Properties
begin

text \<open>
  The unit tests of \<open>actions.rs\<close>, \<open>persistence.rs\<close>, \<open>delivery.rs\<close>, \<open>inbound.rs\<close> and \<open>module.rs\<close>, replayed
  on the definitions: each test is the condition it asserts (an \<open>unwrap\<close> that panics makes it false),
  and is shown to hold.  A file reopened after its connection was dropped is a driver that opens the
  tables as they were left; the message store is the list store.  The tests of the SQL schema and of
  SQLCipher are about code that is a parameter here.
\<close>

section \<open>actions.rs\<close>

definition direct_chat :: "str \<Rightarrow> chat_session" where
  "direct_chat chat_id =
     \<lparr>cs_chat_id = chat_id, cs_nickname = None, cs_kind = Direct, cs_name = None, cs_description = None,
      cs_peer = None, cs_messages = [], cs_older_messages = 0, cs_history_only = False\<rparr>"

definition test_db :: "message list connection \<Rightarrow> sql_error + message list connection" where
  "test_db file = open_db (file_driver file) ''chat.db'' ''rust-chat-test''"

definition recorded_messages_read_back_after_a_restart :: bool where
  "recorded_messages_read_back_after_a_restart \<longleftrightarrow>
     (case test_db empty_db of Inl _ \<Rightarrow> False | Inr db \<Rightarrow>
        let d = default_display\<lparr>d_chat_db := Some db\<rparr>;
            d = update_chats (hm_insert ''convo-1'' (direct_chat ''convo-1'')) d;
            (sent, d) = chat_record_message demo_env (chat_message ''convo-1'' Sent 1 ''hi raya'') True d;
            received = (chat_message ''convo-1'' Received 2 ''hi saro'')
              \<lparr>m_sender_account := Some ''raya-account'', m_sender_installation := Some ''raya-device''\<rparr>;
            (recorded, d) = chat_record_message demo_env received False d
        in is_ok sent \<and> is_ok recorded \<and>
           (case d_chat_db d of None \<Rightarrow> False | Some file \<Rightarrow>
              (case and_then (test_db file) (load_state list_store no_fault) of Inl _ \<Rightarrow> False | Inr st \<Rightarrow>
                 map_option (\<lambda>s. map (\<lambda>m. (dm_from_self m, dm_content m, dm_timestamp_ms m, dm_sender m)) (cs_messages s))
                   (hm_get (as_chats st) ''convo-1'') =
                 Some [(True, ''hi raya'', 1, None), (False, ''hi saro'', 2, Some ''raya-account'')])))"

lemma recorded_messages_read_back: recorded_messages_read_back_after_a_restart
  by code_simp

definition a_history_only_group_invited_back_is_live :: bool where
  "a_history_only_group_invited_back_is_live \<longleftrightarrow>
     (let CONVO = ''history-only-group'';
          w = with_display_mut (update_chats (hm_insert CONVO
                ((direct_chat CONVO)\<lparr>cs_kind := Group, cs_history_only := True\<rparr>))) initial_world;
          w = record_conversation_started demo_env CONVO Group w
      in with_display (\<lambda>d. map_option cs_history_only (hm_get (chats d) CONVO)) w = Some False)"

lemma history_only_group_is_live: a_history_only_group_invited_back_is_live
  by code_simp

definition only_a_delivery_that_never_started_is_retried :: "(nat, message list) world \<Rightarrow> bool" where
  "only_a_delivery_that_never_started_is_retried w \<longleftrightarrow>
     (let w = set_delivery_state Error ''createNode failed'' (update_delivery (\<lambda>_. ds_initialising) w);
          (first, w) = claim_delivery_retry w;
          state = with_display (\<lambda>d. ds_state (d_delivery_state d)) w;
          (again, w) = claim_delivery_retry w;
          w = set_delivery_state Error ''connection lost'' (update_delivery (\<lambda>ds. ds\<lparr>ds_started := True\<rparr>) w);
          (started, w) = claim_delivery_retry w
      in first \<and> state = Initialising \<and> \<not> again \<and> \<not> started)"

lemma only_failed_bootstrap_is_retried: "only_a_delivery_that_never_started_is_retried initial_world"
  by code_simp

text \<open>The display of the tests of \<open>record_node_started\<close>, in a world of its own.\<close>

definition display_starting :: "(nat, message list) world" where
  "display_starting = update_delivery (\<lambda>_. ds_initialising\<lparr>ds_starting := True\<rparr>) initial_world"

definition online_comes_with_the_node_started :: bool where
  "online_comes_with_the_node_started \<longleftrightarrow>
     (let ds = delivery_of (record_node_started True [] display_starting)
      in ds_state ds = Online \<and> ds_started ds \<and> \<not> ds_starting ds)"

definition a_failed_start_is_an_error_before_the_node_started :: bool where
  "a_failed_start_is_an_error_before_the_node_started \<longleftrightarrow>
     (let ds = delivery_of (record_node_started False ''relay unavailable'' display_starting)
      in (ds_state ds, ds_detail ds) = (Error, ''delivery_module.start failed: relay unavailable'') \<and>
         \<not> ds_started ds)"

definition a_start_this_init_does_not_wait_for_is_ignored :: bool where
  "a_start_this_init_does_not_wait_for_is_ignored \<longleftrightarrow>
     (let w = update_delivery (\<lambda>_. ds_initialising) (initial_world :: (nat, message list) world);
          w1 = record_node_started True [] w;
          w2 = update_delivery (\<lambda>ds. ds\<lparr>ds_starting := True\<rparr>) w1;
          w3 = record_node_started False ''another consumer's start failed'' (record_node_started True [] w2)
      in ds_state (delivery_of w1) = Initialising \<and> ds_state (delivery_of w3) = Online)"

lemma start_reports: online_comes_with_the_node_started
    a_failed_start_is_an_error_before_the_node_started a_start_this_init_does_not_wait_for_is_ignored
  by code_simp+

section \<open>persistence.rs\<close>

definition chat_of_kind :: "str \<Rightarrow> conversation_kind \<Rightarrow> chat_session" where
  "chat_of_kind chat_id kind = (direct_chat chat_id)\<lparr>cs_kind := kind\<rparr>"

definition test_message :: "str \<Rightarrow> str \<Rightarrow> message" where
  "test_message chat_id content =
     \<lparr>m_chat_id = chat_id, m_convo_id = chat_id, m_direction = Received,
      m_sender_account = Some ''raya-account'', m_sender_installation = Some ''raya-device'',
      m_message_id = None, m_timestamp_ms = 42, m_content = content\<rparr>"

definition state_reads_back_after_a_restart :: bool where
  "state_reads_back_after_a_restart \<longleftrightarrow>
     (let group = (chat_of_kind ''group'' Group)\<lparr>cs_nickname := Some ''club'',
            cs_name := Some ''Book Club'', cs_description := Some ''Weekly reads''\<rparr>;
          direct = (chat_of_kind ''direct'' Direct)\<lparr>cs_peer := Some ''raya-account''\<rparr>;
          file = and_then (test_db empty_db) (\<lambda>conn. and_then (save_chat no_fault conn group) (\<lambda>conn.
             let (r, conn) = record_message list_store no_fault conn (Some direct) (test_message ''direct'' ''hi saro'')
             in and_then r (\<lambda>_. save_installation_name no_fault conn (Some ''saro-laptop''))))
      in case and_then (and_then file test_db) (load_state list_store no_fault) of
           Inl _ \<Rightarrow> False
         | Inr st \<Rightarrow> as_installation_name st = Some ''saro-laptop'' \<and>
             (case (hm_get (as_chats st) ''group'', hm_get (as_chats st) ''direct'') of
                (Some g, Some d) \<Rightarrow> cs_kind g = Group \<and> cs_nickname g = Some ''club'' \<and>
                  cs_name g = Some ''Book Club'' \<and> cs_description g = Some ''Weekly reads'' \<and> cs_messages g = [] \<and>
                  cs_kind d = Direct \<and> cs_peer d = Some ''raya-account'' \<and>
                  map (\<lambda>m. (dm_from_self m, dm_content m, dm_sender m)) (cs_messages d) =
                    [(False, ''hi saro'', Some ''raya-account'')]
              | _ \<Rightarrow> False))"

lemma state_reads_back: state_reads_back_after_a_restart
  by code_simp

definition a_deleted_chat_leaves_only_its_tombstone :: bool where
  "a_deleted_chat_leaves_only_its_tombstone \<longleftrightarrow>
     (case test_db empty_db of Inl _ \<Rightarrow> False | Inr conn \<Rightarrow>
        let (r, conn) = record_message list_store no_fault conn (Some (chat_of_kind ''direct'' Direct))
              (test_message ''direct'' ''hi saro'');
            (deleted, conn) = delete_chat list_store no_fault conn ''direct''
        in is_ok r \<and> is_ok deleted \<and>
           (case load_state list_store no_fault conn of Inl _ \<Rightarrow> False | Inr st \<Rightarrow>
              as_chats st = [] \<and> ''direct'' \<in> as_deleted st \<and>
              st_messages list_store (t_messages conn) ''direct'' 10 = Inr []))"

definition a_cleared_installation_name_falls_back :: bool where
  "a_cleared_installation_name_falls_back \<longleftrightarrow>
     map_ok as_installation_name (and_then (test_db empty_db) (\<lambda>conn.
       and_then (save_installation_name no_fault conn (Some ''saro-laptop'')) (\<lambda>conn.
       and_then (save_installation_name no_fault conn None) (load_state list_store no_fault)))) = Inr None"

lemma deletions_read_back: a_deleted_chat_leaves_only_its_tombstone a_cleared_installation_name_falls_back
  by code_simp+

definition long_chat :: "message list" where
  "long_chat = map (\<lambda>i. test_message ''direct'' (''m'' @ dec i)) [0..<Suc LOADED_PER_CHAT]"

definition a_long_chat_loads_its_newest_page_and_counts_the_rest :: bool where
  "a_long_chat_loads_its_newest_page_and_counts_the_rest \<longleftrightarrow>
     (let file = and_then (save_chat no_fault empty_db (chat_of_kind ''direct'' Direct)) (\<lambda>tx.
            and_then (foldl (\<lambda>ms m. and_then ms (st_record list_store m)) (Inr (t_messages tx)) long_chat)
              (\<lambda>ms. Inr (tx\<lparr>t_messages := ms\<rparr>)))
      in case and_then file (load_state list_store no_fault) of Inl _ \<Rightarrow> False | Inr st \<Rightarrow>
           (case hm_get (as_chats st) ''direct'' of None \<Rightarrow> False | Some d \<Rightarrow>
              length (cs_messages d) = LOADED_PER_CHAT \<and> dm_content (cs_messages d ! 0) = ''m1'' \<and>
              cs_older_messages d = 1))"

lemma record_all: "foldl (\<lambda>ms m. and_then ms (st_record list_store m)) (Inr ms) xs = Inr (ms @ xs)"
  by (induction xs arbitrary: ms) (simp_all add: list_store_def)

lemma long_chat_loads_its_newest_page: a_long_chat_loads_its_newest_page_and_counts_the_rest
proof -
  have chat: "of_chat ''direct'' long_chat = long_chat"
    by (auto simp: of_chat_def long_chat_def test_message_def)
  have newest: "last_n LOADED_PER_CHAT long_chat = map (\<lambda>i. test_message ''direct'' (''m'' @ dec i)) [1..<501]"
    by (simp add: last_n_def long_chat_def LOADED_PER_CHAT_def drop_map del: upt_Suc)
  have utf: "from_utf8_lossy ''m1'' = ''m1''"
    by (intro from_utf8_lossy_valid ascii_utf8) (simp add: ascii_def byte_def)
  have row: "session_of_row ''direct'' (row_of_session (chat_of_kind ''direct'' Direct)) = Inr (chat_of_kind ''direct'' Direct)"
    by (simp add: session_of_row_def row_of_session_def kind_to_sql_def kind_column_result_def chat_of_kind_def direct_chat_def)
  have api: "st_messages list_store ms c n = Inr (last_n n (of_chat c ms))"
    "st_count list_store ms c = Inr (len_usize (of_chat c ms))" for ms c n by (simp_all add: list_store_def)
  have one: "dec 1 = ''1''" by code_simp
  have id: "cs_chat_id (chat_of_kind ''direct'' Direct) = ''direct''" by (simp add: chat_of_kind_def direct_chat_def)
  show ?thesis
    unfolding a_long_chat_loads_its_newest_page_and_counts_the_rest_def
    by (simp add: save_chat_def record_all empty_db_def load_state_def row id api chat newest
        hm_insert_def Let_def hm_get_def)
      (simp add: LOADED_PER_CHAT_def len_usize_def long_chat_def display_message_def test_message_def
        one [simplified] utf)
qed

section \<open>Strings on the wire\<close>

definition conversation_kind_uses_contract_strings :: bool where
  "conversation_kind_uses_contract_strings \<longleftrightarrow> kind_as_str Direct = ''direct'' \<and> kind_as_str Group = ''group''"

definition delivery_state_kind_is_lowercase_on_the_wire :: bool where
  "delivery_state_kind_is_lowercase_on_the_wire \<longleftrightarrow>
     state_as_str Initialising = ''initialising'' \<and> state_as_str Online = ''online'' \<and>
     state_as_str Error = ''error'' \<and> state_as_str Stopped = ''stopped''"

lemma wire_strings: conversation_kind_uses_contract_strings delivery_state_kind_is_lowercase_on_the_wire
  by code_simp+

section \<open>delivery.rs\<close>

definition result_envelope :: "bool \<Rightarrow> json \<Rightarrow> json \<Rightarrow> str + json" where
  "result_envelope success val err =
     Inr (JObj [(''success'', JBool success), (''value'', val), (''error'', err)])"

definition a_successful_result_yields_its_value :: "(json \<Rightarrow> str) \<Rightarrow> bool" where
  "a_successful_result_yields_its_value render \<longleftrightarrow>
     delivery_outcome render (result_envelope True (JStr ''enr:-abc'') JNull) = Inr (JStr ''enr:-abc'')"

definition a_refused_call_fails_with_delivery_modules_reason :: "(json \<Rightarrow> str) \<Rightarrow> bool" where
  "a_refused_call_fails_with_delivery_modules_reason render \<longleftrightarrow>
     delivery_outcome render (result_envelope False JNull (JStr ''Context not initialized'')) =
       Inl ''Context not initialized''"

definition a_refusal_without_a_reason_still_fails :: "(json \<Rightarrow> str) \<Rightarrow> bool" where
  "a_refusal_without_a_reason_still_fails render \<longleftrightarrow> list_all (\<lambda>err.
     delivery_outcome render (result_envelope False JNull err) = Inl ''no reason given'') [JNull, JStr []]"

text \<open>\<open>failed\<close> is the text of the SDK's error.\<close>

definition a_call_that_never_arrived_keeps_its_error :: "(json \<Rightarrow> str) \<Rightarrow> str \<Rightarrow> bool" where
  "a_call_that_never_arrived_keeps_its_error render failed \<longleftrightarrow>
     (case delivery_outcome render (Inl failed) of
        Inl e \<Rightarrow> sublist ''no such module'' e | Inr _ \<Rightarrow> False)"

definition a_value_with_no_envelope_fails :: "(json \<Rightarrow> str) \<Rightarrow> bool" where
  "a_value_with_no_envelope_fails render \<longleftrightarrow> \<not> is_ok (delivery_outcome render (Inr (JBool True)))"

lemma delivery_verdicts:
  "a_successful_result_yields_its_value render" "a_refused_call_fails_with_delivery_modules_reason render"
  "a_refusal_without_a_reason_still_fails render" "a_value_with_no_envelope_fails render"
  "sublist ''no such module'' failed \<Longrightarrow> a_call_that_never_arrived_keeps_its_error render failed"
  by (simp_all add: a_successful_result_yields_its_value_def a_refused_call_fails_with_delivery_modules_reason_def
      a_refusal_without_a_reason_still_fails_def a_value_with_no_envelope_fails_def
      a_call_that_never_arrived_keeps_its_error_def delivery_outcome_def result_envelope_def)

section \<open>inbound.rs\<close>

text \<open>The decoders are generated; \<open>encode\<close> is the SDK's encoding of byte strings.\<close>

definition message_event :: "(bytes \<Rightarrow> str) \<Rightarrow> event_data" where
  "message_event encode = \<lparr>ev_name = ''messageReceived'', ev_args = JArr [JStr ''hash'',
     JStr ''/logos-chat/1/alice/proto'', JStr (encode ''chat invite''), JStr ''live'', JNum 42]\<rparr>"

definition forwards_delivery_message_with_source_field :: "decoders \<Rightarrow> (bytes \<Rightarrow> str) \<Rightarrow> bool" where
  "forwards_delivery_message_with_source_field dcs encode \<longleftrightarrow>
     (let (b, w) = forward_message dcs (message_event encode) demo_bridge (initial_world :: (nat, message list) world)
      in ch_queue (b_inbound_tx b) = [''chat invite''])"

lemma forwards_message:
  assumes "dc_message_received dcs (message_event encode) = Some \<lparr>rm_message_hash = ''hash'',
      rm_content_topic = ''/logos-chat/1/alice/proto'', rm_payload = ''chat invite'', rm_source = ''live''\<rparr>"
  shows "forwards_delivery_message_with_source_field dcs encode"
  using assms by (simp add: forwards_delivery_message_with_source_field_def forward_message_def TOPIC_PREFIX_def
      demo_bridge_def spawn_bridge_def first_sighting_def seen_default_def channel_send_def unbounded_def Let_def
      SEEN_CAPACITY_def)

definition a_message_is_forwarded_once :: bool where
  "a_message_is_forwarded_once \<longleftrightarrow>
     (let (a, seen) = first_sighting ''0xa'' seen_default;
          (b, seen) = first_sighting ''0xb'' seen;
          (again, seen) = first_sighting ''0xa'' seen
      in a \<and> b \<and> \<not> again)"

lemma message_forwarded_once: a_message_is_forwarded_once
  by (simp add: a_message_is_forwarded_once_def first_sighting_def seen_default_def SEEN_CAPACITY_def)

definition the_oldest_hash_is_forgotten_at_capacity :: bool where
  "the_oldest_hash_is_forgotten_at_capacity \<longleftrightarrow>
     (let hashes = map dec [0..<SEEN_CAPACITY];
          seen = seen.after hashes seen_default;
          (one_more, seen) = first_sighting ''one more'' seen;
          (oldest, seen) = first_sighting ''0'' seen;
          (newest, seen) = first_sighting (dec (SEEN_CAPACITY - 1)) seen
      in seen.passed hashes seen_default = hashes \<and> one_more \<and> oldest \<and> \<not> newest)"

lemma fresh_hashes_pass:
  assumes "seen_inv s" and "distinct (sm_order s @ hs)" and "length (sm_order s) + length hs \<le> SEEN_CAPACITY"
  shows "seen.passed hs s = hs \<and> sm_order (seen.after hs s) = sm_order s @ hs"
  using assms
proof (induction hs arbitrary: s)
  case (Cons h hs)
  let ?s = "snd (first_sighting h s)"
  have h: "fst (first_sighting h s)" "sm_order ?s = sm_order s @ [h]"
    using seen.sight_verdict [OF Cons.prems(1)] seen.sight_first [OF Cons.prems(1)] Cons.prems(2,3) by auto
  have "seen.passed hs ?s = hs \<and> sm_order (seen.after hs ?s) = sm_order ?s @ hs"
    using Cons.prems h seen_inv_first_sighting by (intro Cons.IH) auto
  then show ?case using h by (simp add: case_prod_unfold)
qed simp

lemma undec_dec: "foldl (\<lambda>n c. 10 * n + (of_char c - 48)) 0 (dec n) = n"
proof (induction n rule: dec.induct)
  case (1 n)
  then show ?case by (subst dec.simps) (simp add: digit_def of_char_of)
qed

lemma dec_inject [simp]: "dec m = dec n \<longleftrightarrow> m = n"
  by (metis undec_dec)

lemma oldest_hash_is_forgotten: the_oldest_hash_is_forgotten_at_capacity
proof -
  define hashes where "hashes = map dec [0..<SEEN_CAPACITY]"
  have d: "distinct hashes" by (simp add: hashes_def distinct_map inj_on_def dec_inject)
  have len: "length hashes = SEEN_CAPACITY" by (simp add: hashes_def)
  have run: "seen.passed hashes seen_default = hashes" "sm_order (seen.after hashes seen_default) = hashes"
    using fresh_hashes_pass [OF seen_inv_default, of hashes] d len by (simp_all add: seen_default_def)
  have inv: "seen_inv (seen.after hashes seen_default)" by (intro seen.inv_after) simp
  define rest where "rest = map dec [2..<SEEN_CAPACITY]"
  have "[0..<n] = 0 # 1 # [2..<n]" if "2 \<le> n" for n
    using that by (simp add: upt_conv_Cons numeral_2_eq_2)
  moreover have "2 \<le> SEEN_CAPACITY" by (simp add: SEEN_CAPACITY_def)
  ultimately have hs: "hashes = dec 0 # dec 1 # rest" by (simp add: hashes_def rest_def)
  have zero: "dec 0 = ''0''" by code_simp
  have "\<not> list_all is_ascii_digit ''one more''" by code_simp
  then have "dec x \<noteq> ''one more''" for x using dec_digits [of x] by metis
  then have more_new: "''one more'' \<notin> set hashes" by (metis (no_types, lifting) ex_map_conv hashes_def)
  let ?s0 = "seen.after hashes seen_default"
  let ?s1 = "snd (first_sighting ''one more'' ?s0)" and ?s2 = "\<lambda>s. snd (first_sighting ''0'' s)"
  have inv1: "seen_inv ?s1" and inv2: "seen_inv (?s2 ?s1)" using inv by (auto intro: seen_inv_first_sighting)
  have s1: "fst (first_sighting ''one more'' ?s0)" "sm_order ?s1 = dec 1 # rest @ [''one more'']"
    using seen.sight_verdict [OF inv] seen.sight_first [OF inv] more_new run(2) len hs by simp_all
  have new0: "''0'' \<notin> set (sm_order ?s1)" using d more_new hs s1(2) zero by auto
  then have s2: "fst (first_sighting ''0'' ?s1)" "sm_order (?s2 ?s1) = rest @ [''one more'', ''0'']"
    using seen.sight_verdict [OF inv1] seen.sight_first [OF inv1] s1(2) len hs by simp_all
  have "SEEN_CAPACITY - 1 \<in> {2..<SEEN_CAPACITY}" by (simp add: SEEN_CAPACITY_def)
  then have "dec (SEEN_CAPACITY - 1) \<in> set rest" by (simp only: rest_def set_map set_upt imageI)
  then have "\<not> fst (first_sighting (dec (SEEN_CAPACITY - 1)) (?s2 ?s1))"
    using seen.sight_verdict [OF inv2] s2(2) by simp
  then show ?thesis
    using run(1) s1(1) s2(1)
    by (simp add: the_oldest_hash_is_forgotten_at_capacity_def hashes_def [symmetric] case_prod_unfold Let_def)
qed

definition connection_status_maps_each_upstream_variant :: bool where
  "connection_status_maps_each_upstream_variant \<longleftrightarrow> map_connection_status ''Connected'' = Online \<and>
     map_connection_status ''PartiallyConnected'' = Online \<and> map_connection_status ''Disconnected'' = Error"

definition connection_status_unknown_maps_to_error :: bool where
  "connection_status_unknown_maps_to_error \<longleftrightarrow>
     map_connection_status [] = Error \<and> map_connection_status ''Reconnecting'' = Error"

definition connectivity_ignored_until_started :: bool where
  "connectivity_ignored_until_started \<longleftrightarrow>
     connection_transition False ''Connected'' = None \<and> connection_transition False ''Disconnected'' = None"

definition connectivity_drives_state_once_started :: bool where
  "connectivity_drives_state_once_started \<longleftrightarrow>
     connection_transition True ''Disconnected'' = Some Error \<and> connection_transition True ''Connected'' = Some Online"

definition class_maps_to_contract_kind :: bool where
  "class_maps_to_contract_kind \<longleftrightarrow> kind_for_class Class_Dm = Direct \<and> kind_for_class Class_Group = Group"

lemma connectivity_and_classes: connection_status_maps_each_upstream_variant connection_status_unknown_maps_to_error
    connectivity_ignored_until_started connectivity_drives_state_once_started class_maps_to_contract_kind
  by code_simp+

end
