(* ===== verification/Test_Logging.thy ===== *)
theory Test_Logging
  imports Logging_Properties "HOL-Library.Multiset"
begin

text \<open>
  The unit tests of \<open>logging.rs\<close>, replayed on the definitions: each test is the condition it asserts,
  and is shown to hold.  Temporary directories are \<open>log_dir\<close>s, the time a line leads with is given as
  text.  \<open>EnvFilter\<close> is the parameter \<open>fl\<close>; that it keeps the directives it is given, in an order of its
  own, is the hypothesis \<open>keeps_directives\<close>.  That \<open>chrono\<close> reads a time back is not modelled.
\<close>

section \<open>What a subscriber writes\<close>

text \<open>\<open>Captured\<close>: a sink that takes everything, and whose clone is the same sink.\<close>

definition captured_write :: "bytes \<Rightarrow> bytes \<Rightarrow> (str + nat) \<times> bytes" where
  "captured_write buf sink = (Inr (length buf), sink @ buf)"

definition captured_flush :: "bytes \<Rightarrow> (str + unit) \<times> bytes" where
  "captured_flush sink = (Inr (), sink)"

definition captured_writer :: "bytes \<Rightarrow> bytes" where
  "captured_writer sink = sink"

text \<open>The line an event leaves in the sink, read back as text; \<open>None\<close> is the panic on other bytes.\<close>

definition read_back :: "bytes \<Rightarrow> str option" where
  "read_back line = (let (_, written) = captured_write line (captured_writer []) in
     if utf8 written then Some written else None)"

definition line_for :: "level \<Rightarrow> str \<Rightarrow> str \<Rightarrow> str option" where
  "line_for lvl target formatted = read_back (host_line lvl target formatted)"

definition stamped_line_for :: "str \<Rightarrow> level \<Rightarrow> str \<Rightarrow> str \<Rightarrow> str option" where
  "stamped_line_for time lvl target formatted = read_back (stamped_line time lvl target formatted)"

section \<open>Filters as sets of directives\<close>

text \<open>\<open>str::split\<close> at a character and \<open>str::trim\<close>.\<close>

fun split_on :: "char \<Rightarrow> str \<Rightarrow> str list" where
  "split_on c [] = [[]]"
| "split_on c (x # xs) = (if x = c then [] # split_on c xs
     else (case split_on c xs of [] \<Rightarrow> [[x]] | part # parts \<Rightarrow> (x # part) # parts))"

definition trim :: "str \<Rightarrow> str" where
  "trim s = (let blank = (\<lambda>c. c \<in> set whitespace_chars)
     in concat (rev (dropWhile blank (rev (dropWhile blank (chars s))))))"

definition directives :: "'f filter_api \<Rightarrow> 'f \<Rightarrow> str list" where
  "directives fl flt = sort (map trim (split_on (CHR '','') (fl_text fl flt)))"

definition keeps_directives :: "'f filter_api \<Rightarrow> bool" where
  "keeps_directives fl \<longleftrightarrow> (\<forall>lvl \<in> {''error'', ''warn'', ''info'', ''debug'', ''trace''}.
     mset (split_on (CHR '','') (fl_text fl (fl_new fl (filter_for lvl)))) =
     mset (split_on (CHR '','') (filter_for lvl)))"

definition every_default_directive_parses :: "'f filter_api \<Rightarrow> bool" where
  "every_default_directive_parses fl \<longleftrightarrow>
     directives fl (fl_new fl (filter_for DEFAULT_LEVEL)) =
       [''chat_module=info'', ''libchat=info'', ''logos_generic_chat=info'', ''warn'']"

definition every_level_applies_to_the_chat_core_and_nothing_else :: "'f filter_api \<Rightarrow> bool" where
  "every_level_applies_to_the_chat_core_and_nothing_else fl \<longleftrightarrow>
     list_all (\<lambda>lvl. directives fl (filter_from fl None (level_or_default lvl)) =
         [''chat_module='' @ lvl, ''libchat='' @ lvl, ''logos_generic_chat='' @ lvl, ''warn''])
       [''error'', ''warn'', ''info'', ''debug'', ''trace'']"

lemma ascii_whitespace: "byte c < 128 \<Longrightarrow> [c] \<in> set whitespace_chars \<longleftrightarrow> byte c \<in> {9, 10, 11, 12, 13, 32}"
proof -
  have "c = char_of n \<longleftrightarrow> byte c = n" if "n < 256" for n :: nat
    using that by (auto simp: byte_def)
  then show ?thesis by (simp add: whitespace_chars_def)
qed

lemma ascii_blank: "ascii s \<Longrightarrow> trimmed_empty s \<longleftrightarrow> (\<forall>c\<in>set s. byte c \<in> {9, 10, 11, 12, 13, 32})"
  by (auto simp: trimmed_empty_def ascii_chars ascii_def ascii_whitespace)

lemma trim_plain: "ascii s \<Longrightarrow> \<forall>c\<in>set s. byte c \<notin> {9, 10, 11, 12, 13, 32} \<Longrightarrow> trim s = s"
proof -
  assume a: "ascii s" "\<forall>c\<in>set s. byte c \<notin> {9, 10, 11, 12, 13, 32}"
  have d: "dropWhile P xs = xs" if "\<forall>x\<in>set xs. \<not> P x" for P and xs :: "bytes list"
    using that by (cases xs) simp_all
  have "\<forall>c \<in> set (map (\<lambda>c. [c]) s). c \<notin> set whitespace_chars"
    using a by (auto simp: ascii_def ascii_whitespace)
  then have "dropWhile (\<lambda>c. c \<in> set whitespace_chars) (map (\<lambda>c. [c]) s) = map (\<lambda>c. [c]) s"
    "dropWhile (\<lambda>c. c \<in> set whitespace_chars) (rev (map (\<lambda>c. [c]) s)) = rev (map (\<lambda>c. [c]) s)"
    by (intro d; simp)+
  then show ?thesis by (simp add: trim_def ascii_chars [OF a(1)] Let_def)
qed

lemma directives_kept:
  assumes "keeps_directives fl" and "lvl \<in> {''error'', ''warn'', ''info'', ''debug'', ''trace''}"
  shows "directives fl (fl_new fl (filter_for lvl)) = sort (map trim (split_on (CHR '','') (filter_for lvl)))"
proof -
  let ?kept = "split_on (CHR '','') (fl_text fl (fl_new fl (filter_for lvl)))" and ?given = "split_on (CHR '','') (filter_for lvl)"
  have "mset ?kept = mset ?given" using assms unfolding keeps_directives_def by (rule bspec)
  then have "mset (map trim ?kept) = mset (map trim ?given)" by (simp only: mset_map)
  then have "sort (map trim ?kept) = sort (map trim ?given)" by (metis sorted_list_of_multiset_mset)
  then show ?thesis by (simp only: directives_def)
qed

lemma default_directives:
  assumes "lvl \<in> {''error'', ''warn'', ''info'', ''debug'', ''trace''}"
  shows "sort (map trim (split_on (CHR '','') (filter_for lvl))) =
      [''chat_module='' @ lvl, ''libchat='' @ lvl, ''logos_generic_chat='' @ lvl, ''warn'']"
    and "level_or_default lvl = lvl"
proof -
  have "split_on (CHR '','') (filter_for lvl) =
      [''warn'', ''chat_module='' @ lvl, ''libchat='' @ lvl, ''logos_generic_chat='' @ lvl]"
    using assms by (auto simp: filter_for_def)
  moreover have "trim s = s" if "s \<in> {''warn'', ''chat_module='' @ lvl, ''libchat='' @ lvl, ''logos_generic_chat='' @ lvl}" for s
    using that assms by (intro trim_plain) (auto simp: ascii_def byte_def)
  ultimately show "sort (map trim (split_on (CHR '','') (filter_for lvl))) =
      [''chat_module='' @ lvl, ''libchat='' @ lvl, ''logos_generic_chat='' @ lvl, ''warn'']"
    by (simp add: less_char_def)
  show "level_or_default lvl = lvl" using assms by (simp only: level_or_default_def if_True)
qed

lemma filters_keep_their_directives:
  assumes "keeps_directives fl"
  shows "every_default_directive_parses fl" "every_level_applies_to_the_chat_core_and_nothing_else fl"
proof -
  have d: "directives fl (fl_new fl (filter_for lvl)) =
      [''chat_module='' @ lvl, ''libchat='' @ lvl, ''logos_generic_chat='' @ lvl, ''warn''] \<and> level_or_default lvl = lvl"
    if "lvl \<in> {''error'', ''warn'', ''info'', ''debug'', ''trace''}" for lvl
    using directives_kept [OF assms that] default_directives [OF that] by simp
  show "every_default_directive_parses fl"
    using d [of "''info''"] by (simp add: every_default_directive_parses_def DEFAULT_LEVEL_def)
  have "filter_from fl None lvl = fl_new fl (filter_for lvl)" for lvl by (simp add: filter_from_def)
  then show "every_level_applies_to_the_chat_core_and_nothing_else fl"
    using d by (simp add: every_level_applies_to_the_chat_core_and_nothing_else_def)
qed

section \<open>Levels and lines\<close>

definition an_unusable_level_is_the_default_one :: bool where
  "an_unusable_level_is_the_default_one \<longleftrightarrow>
     list_all (\<lambda>requested. level_or_default requested = DEFAULT_LEVEL) [[], ''verbose'', ''INFO'', ''9'']"

definition rust_log_wins_over_the_clients_level :: "'f filter_api \<Rightarrow> bool" where
  "rust_log_wins_over_the_clients_level fl \<longleftrightarrow>
     directives fl (filter_from fl (Some ''libchat=trace'') ''error'') = [''libchat=trace'']"

definition an_empty_or_unusable_rust_log_is_no_choice_at_all :: "'f filter_api \<Rightarrow> bool" where
  "an_empty_or_unusable_rust_log_is_no_choice_at_all fl \<longleftrightarrow>
     list_all (\<lambda>env. directives fl (filter_from fl (Some env) ''debug'') =
         directives fl (fl_new fl (filter_for ''debug'')))
       [[], ''   '', ''libchat=nonsense'']"

definition every_level_names_itself_the_way_a_host_reads_it :: bool where
  "every_level_names_itself_the_way_a_host_reads_it \<longleftrightarrow>
     severity ERROR = ''ERROR'' \<and> severity WARN = ''WARNING'' \<and> severity INFO = ''INFO'' \<and>
     severity DEBUG = ''DEBUG'' \<and> severity TRACE = ''TRACE''"

definition a_line_leads_with_its_severity_then_its_target :: bool where
  "a_line_leads_with_its_severity_then_its_target \<longleftrightarrow>
     line_for WARN ''chat_module::logging::tests'' ''wakeup failed convo=3f2a'' =
       Some (''WARNING: chat_module::logging::tests: wakeup failed convo=3f2a'' @ [newline])"

definition a_file_line_leads_with_the_time :: "str \<Rightarrow> bool" where
  "a_file_line_leads_with_the_time time \<longleftrightarrow>
     Option.bind (stamped_line_for time WARN ''chat_module::logging::tests'' ''wakeup failed'')
       (split_once (CHR '' '')) = Some (time, ''WARNING: chat_module::logging::tests: wakeup failed'' @ [newline])"

lemma split_once_space: "CHR '' '' \<notin> set s \<Longrightarrow> split_once (CHR '' '') (s @ '' '' @ t) = Some (s, t)"
  by (induction s) (auto simp: split_once_def)

lemma levels_and_lines: an_unusable_level_is_the_default_one every_level_names_itself_the_way_a_host_reads_it
    a_line_leads_with_its_severity_then_its_target
    "fl_try_new fl ''libchat=trace'' = Inr chosen \<Longrightarrow> directives fl chosen = [''libchat=trace''] \<Longrightarrow>
       rust_log_wins_over_the_clients_level fl"
    "fl_try_new fl ''libchat=nonsense'' = Inl e \<Longrightarrow> an_empty_or_unusable_rust_log_is_no_choice_at_all fl"
    "CHR '' '' \<notin> set time \<Longrightarrow> utf8 time \<Longrightarrow> a_file_line_leads_with_the_time time"
proof -
  show an_unusable_level_is_the_default_one every_level_names_itself_the_way_a_host_reads_it
    a_line_leads_with_its_severity_then_its_target by code_simp+
  have blank: "trimmed_empty []" "trimmed_empty ''   ''" "\<not> trimmed_empty ''libchat=trace''"
    "\<not> trimmed_empty ''libchat=nonsense''"
    by (subst ascii_blank; simp add: ascii_def byte_def)+
  then show "fl_try_new fl ''libchat=trace'' = Inr chosen \<Longrightarrow> directives fl chosen = [''libchat=trace''] \<Longrightarrow>
      rust_log_wins_over_the_clients_level fl"
    "fl_try_new fl ''libchat=nonsense'' = Inl e \<Longrightarrow> an_empty_or_unusable_rust_log_is_no_choice_at_all fl"
    by (simp_all add: rust_log_wins_over_the_clients_level_def filter_from_def
        an_empty_or_unusable_rust_log_is_no_choice_at_all_def)
  have "utf8 ('' WARNING: chat_module::logging::tests: wakeup failed'' @ [newline])" by code_simp
  then show "CHR '' '' \<notin> set time \<Longrightarrow> utf8 time \<Longrightarrow> a_file_line_leads_with_the_time time"
    using split_once_space [of time] utf8_append [of time]
    by (simp add: a_file_line_leads_with_the_time_def stamped_line_for_def read_back_def captured_write_def
        captured_writer_def stamped_line_def host_line_def severity_def)
qed

section \<open>The run's file\<close>

definition empty_dir :: log_dir where
  "empty_dir = \<lparr>ld_names = [], ld_data = (\<lambda>_. []), ld_next = 0\<rparr>"

text \<open>A log open under a fixed stamp; a file's text by its name.\<close>

definition test_log_at :: "log_dir \<Rightarrow> str \<Rightarrow> run_log \<times> log_dir" where
  "test_log_at ld stamp =
     (case open_append no_io_fault (live_name stamp) ld of
        (Inl _, ld) \<Rightarrow> (inert, ld)
      | (Inr f, ld) \<Rightarrow> (Some \<lparr>ol_file = f, ol_path = live_name stamp, ol_stamp = stamp, ol_lines = 0,
                            ol_rotations = 0\<rparr>, ld))"

definition read_to_string :: "str \<Rightarrow> log_dir \<Rightarrow> bytes option" where
  "read_to_string name ld = map_option (ld_data ld) (hm_get (ld_names ld) name)"

fun write_lines :: "nat \<Rightarrow> run_log \<times> log_dir \<Rightarrow> (run_log \<times> log_dir) option" where
  "write_lines 0 s = Some s"
| "write_lines (Suc n) s =
     (case log_write no_io_fault (''INFO: libchat: something happened'' @ [newline]) (fst s) (snd s) of
        (Inl _, _) \<Rightarrow> None
      | (Inr _, s) \<Rightarrow> write_lines n s)"

definition file_names :: "log_dir \<Rightarrow> str list" where
  "file_names ld = sort (map fst (ld_names ld))"

definition a_line_written_outside_tracing_is_stamped_like_the_rest :: bool where
  "a_line_written_outside_tracing_is_stamped_like_the_rest \<longleftrightarrow>
     (let time = ''2026-07-30T12:00:00.000'';
          line = ''CRITICAL: chat_module: panic at group_v1.rs:340:14: boom'';
          (log, ld) = test_log_at empty_dir ''20260730_120000'';
          (log, ld) = write_stamped no_io_fault False time line log ld
      in case Option.bind (read_to_string ''chat_module_20260730_120000.log'' ld) (split_once (CHR '' '')) of
           Some (stamp, rest) \<Rightarrow> stamp = time \<and> rest = line @ [newline]
         | None \<Rightarrow> False)"

definition a_busy_file_costs_the_line_and_not_the_process :: bool where
  "a_busy_file_costs_the_line_and_not_the_process \<longleftrightarrow>
     (let (log, ld) = test_log_at empty_dir ''20260730_120000'';
          (log, ld) = write_stamped no_io_fault True ''2026-07-30T12:00:00.000''
            ''CRITICAL: chat_module: panic while holding the file'' log ld
      in read_to_string ''chat_module_20260730_120000.log'' ld = Some [])"

definition a_log_with_nowhere_to_write_swallows_its_lines :: bool where
  "a_log_with_nowhere_to_write_swallows_its_lines \<longleftrightarrow>
     (case write_lines 3 (inert, empty_dir) of
        None \<Rightarrow> False
      | Some (log, ld) \<Rightarrow> run_log_path ''/tmp'' log = [] \<and> file_names ld = [])"

lemma lines_outside_tracing: a_line_written_outside_tracing_is_stamped_like_the_rest
    a_busy_file_costs_the_line_and_not_the_process a_log_with_nowhere_to_write_swallows_its_lines
  by code_simp+

definition a_full_file_is_moved_aside_and_the_announced_path_reopened :: bool where
  "a_full_file_is_moved_aside_and_the_announced_path_reopened \<longleftrightarrow>
     (let (log, ld) = test_log_at empty_dir ''20260730_142811'';
          announced = run_log_path ''/tmp'' log
      in case write_lines (unat ROTATE_AFTER_LINES) (log, ld) of
           None \<Rightarrow> False
         | Some (log, ld) \<Rightarrow> run_log_path ''/tmp'' log = announced \<and>
             file_names ld = [''chat_module_20260730_142811.001.log'', ''chat_module_20260730_142811.log''] \<and>
             map_option length (read_to_string ''chat_module_20260730_142811.log'' ld) = Some 0)"

text \<open>As long as the file is not full, a line is appended and counted.\<close>

lemma write_lines_below:
  assumes "unat (ol_lines ol) + n < 10000"
  shows "\<exists>data. write_lines n (Some ol, ld) =
    Some (Some (ol\<lparr>ol_lines := ol_lines ol + word_of_nat n\<rparr>), ld\<lparr>ld_data := data\<rparr>)"
  using assms
proof (induction n arbitrary: ol ld)
  case 0
  show ?case by (intro exI [of _ "ld_data ld"]) simp
next
  case (Suc n)
  let ?line = "''INFO: libchat: something happened'' @ [newline]"
  let ?ol = "ol\<lparr>ol_lines := ol_lines ol + 1\<rparr>"
  let ?ld = "ld\<lparr>ld_data := (ld_data ld)(ol_file ol := ld_data ld (ol_file ol) @ ?line)\<rparr>"
  have count: "newlines ?line = 1" by code_simp
  have lines: "unat (ol_lines ol + 1) = Suc (unat (ol_lines ol))"
    using Suc.prems by (subst unat_add_lem [THEN iffD1]) simp_all
  then have "\<not> ROTATE_AFTER_LINES \<le> ol_lines ol + 1"
    using Suc.prems by (simp add: word_le_nat_alt ROTATE_AFTER_LINES_def)
  then have "log_write no_io_fault ?line (Some ol) ld = (Inr (length ?line), Some ?ol, ?ld)"
    using count by (simp add: log_write_def append_line_def write_all_def no_io_fault_def del: append_Cons)
  then show ?case
    using Suc.IH [of ?ol ?ld] Suc.prems lines by (auto simp: algebra_simps)
qed

lemma full_file_is_moved_aside: a_full_file_is_moved_aside_and_the_announced_path_reopened
proof -
  let ?stamp = "''20260730_142811''"
  let ?ol = "\<lparr>ol_file = 0, ol_path = live_name ?stamp, ol_stamp = ?stamp, ol_lines = 0, ol_rotations = 0\<rparr>"
  let ?ld = "\<lparr>ld_names = [(live_name ?stamp, 0)], ld_data = (\<lambda>_. []), ld_next = 1\<rparr>"
  have start: "test_log_at empty_dir ?stamp = (Some ?ol, ?ld)"
    by (simp add: test_log_at_def open_append_def create_if_missing_def empty_dir_def no_io_fault_def hm_insert_def
        fun_eq_iff)
  have split: "write_lines (m + n) s = (case write_lines m s of None \<Rightarrow> None | Some s \<Rightarrow> write_lines n s)" for m n s
    by (induction m arbitrary: s) (simp_all split: prod.split sum.split)
  obtain data where "write_lines 9999 (Some ?ol, ?ld) =
      Some (Some (?ol\<lparr>ol_lines := 9999\<rparr>), ?ld\<lparr>ld_data := data\<rparr>)"
    using write_lines_below [of ?ol 9999 ?ld] by auto
  then have "write_lines 10000 (Some ?ol, ?ld) = write_lines 1 (Some (?ol\<lparr>ol_lines := 9999\<rparr>), ?ld\<lparr>ld_data := data\<rparr>)"
    using split [of 9999 1 "(Some ?ol, ?ld)"] by simp
  moreover have names: "live_name ?stamp = ''chat_module_20260730_142811.log''"
    "rotated_name ?stamp 1 = ''chat_module_20260730_142811.001.log''" by code_simp+
  moreover have line: "newlines (''INFO: libchat: something happened'' @ [newline]) = 1" by code_simp
  moreover have all: "unat ROTATE_AFTER_LINES = 10000" by (simp add: ROTATE_AFTER_LINES_def)
  moreover have "write_lines 1 (Some (?ol\<lparr>ol_lines := 9999\<rparr>), ?ld\<lparr>ld_data := data\<rparr>) = Some
      (Some (?ol\<lparr>ol_rotations := 1, ol_file := 1\<rparr>), \<lparr>ld_names = [(rotated_name ?stamp 1, 0), (live_name ?stamp, 1)],
        ld_data = (data(0 := data 0 @ ''INFO: libchat: something happened'' @ [newline]))(1 := []), ld_next = 2\<rparr>)"
    using line live_not_rotated [of ?stamp 1]
    by (simp add: log_write_def append_line_def write_all_def no_io_fault_def rotate_def fs_rename_def file_create_def
        create_if_missing_def hm_insert_def hm_remove_def hm_get_def Let_def ROTATE_AFTER_LINES_def del: append_Cons)
  ultimately show ?thesis
    unfolding a_full_file_is_moved_aside_and_the_announced_path_reopened_def start all
    by (simp add: run_log_path_def file_names_def read_to_string_def hm_get_def less_char_def)
qed

section \<open>Runs and their names\<close>

definition only_this_modules_run_files_carry_a_stamp :: bool where
  "only_this_modules_run_files_carry_a_stamp \<longleftrightarrow>
     stamp_of ''chat_module_20260730_142811.log'' = Some ''20260730_142811'' \<and>
     stamp_of ''chat_module_20260730_142811.007.log'' = Some ''20260730_142811'' \<and>
     list_all (\<lambda>stranger. stamp_of stranger = None)
       [''chat_ui_20260730_142811.log'', ''chat_module_20260730_142811.log.bak'',
        ''chat_module_2026073_142811.log'', ''chat_module_20260730_14281x.log'',
        ''chat_module_20260730_142811.7.log'', ''chat_module.log'']"

lemma only_run_files_carry_a_stamp: only_this_modules_run_files_carry_a_stamp
  by code_simp

definition dec2 :: "nat \<Rightarrow> str" where
  "dec2 n = replicate (2 - length (dec n)) (CHR ''0'') @ dec n"

definition twelve_runs :: log_dir where
  "twelve_runs =
     (let names = concat (map (\<lambda>day. let stamp = ''202607'' @ dec2 day @ ''_120000'' in
            [live_name stamp, rotated_name stamp 1]) [1..<13])
          @ [''chat_ui_20260701_120000.log'', ''chat_module_notastamp.log'']
      in \<lparr>ld_names = zip names [0..<length names], ld_data = (\<lambda>_. []), ld_next = length names\<rparr>)"

definition pruning_keeps_ten_runs_and_counts_a_runs_rotations_as_one :: bool where
  "pruning_keeps_ten_runs_and_counts_a_runs_rotations_as_one \<longleftrightarrow>
     (let kept = file_names (prune_runs no_io_fault twelve_runs);
          stamps = remdups_adj (List.map_filter stamp_of kept)
      in length kept = 10 * 2 + 2 \<and> ''chat_ui_20260701_120000.log'' \<in> set kept \<and>
         ''chat_module_notastamp.log'' \<in> set kept \<and> length stamps = KEEP_RUNS \<and>
         hd stamps = ''20260703_120000'')"

lemma pruning_keeps_ten_runs: pruning_keeps_ten_runs_and_counts_a_runs_rotations_as_one
  by code_simp

end
