(* ===== verification/Spec2Isabelle.thy ===== *)
theory Spec2Isabelle
  imports Chat_Properties Followers System_Properties Delivery_Properties Two_Modules Lock_Text Announcements
    Panic Stamps Test_Chat Test_Logging
begin

text \<open>
  A verification of the chat module (\<open>rust-lib/src\<close>): a plugin that wraps libchat's client
  behind an RPC contract (\<open>chat_module.lidl\<close>), keeps the conversations and messages it shows in
  \<open>chat.db\<close>, and carries the client's traffic over delivery_module.

  \<^bold>\<open>The program.\<close>  The host calls the contract's methods (\<open>lib.rs\<close>), which run the operations of
  \<open>actions.rs\<close>.  Two locks guard the state (\<open>module.rs\<close>): the client lock holds the session with
  libchat's client, the display lock holds what the getters show, the delivery state and the open
  \<open>chat.db\<close> (\<open>persistence.rs\<close>).  \<open>init\<close> reads the file back, builds the client over the transport
  of \<open>delivery.rs\<close>, starts two workers (\<open>inbound.rs\<close>) and bootstraps delivery_module's node by
  asynchronous calls.  The bridge worker forwards received payloads to the client, follows the
  node's state and hands queued subscriptions over; the event consumer records what the client
  reports.  \<open>logging.rs\<close> and \<open>panic_hook.rs\<close> write the run's log.

  \<^bold>\<open>Theories.\<close>
  \<^item> Prelude, Utf8, Containers, Runs: the vocabulary.  A Rust string is a byte list that is valid
    UTF-8; \<open>u64\<close>, \<open>i64\<close> and \<open>usize\<close> are 64-bit words; \<open>Result\<close> is a sum with the error on the
    left; hash maps and keyed tables are association lists behind the locale \<open>keyed_table\<close>.  Runs
    has the locales for runs of inputs (\<open>guarded_machine\<close>) and for interleavings
    (\<open>transition_system\<close>).
  \<^item> Persistence (\<open>persistence.rs\<close>): the tables, every statement and transaction with its failure,
    \<open>load_state\<close>; \<open>persisted\<close> says what the file holds of the state in memory, \<open>reload\<close> what a
    restart makes of a session.
  \<^item> Delivery (\<open>delivery.rs\<close>), with the trait \<open>DeliveryService\<close> as the locale \<open>delivery_service\<close>,
    interpreted for both implementors; Inbound_State, the bridge's state and its duplicate filter,
    whose contract is the locale \<open>duplicate_filter\<close>.
  \<^item> Module_State (\<open>module.rs\<close>): the record \<open>world\<close> has both lock-guarded states, the calls handed
    to delivery_module whose callback has not run, the emitted events and the log lines.
  \<^item> Actions and Lifecycle (\<open>actions.rs\<close>), Inbound (\<open>inbound.rs\<close>), Logging (\<open>logging.rs\<close>) and
    Chat_Module (\<open>lib.rs\<close>, \<open>panic_hook.rs\<close>): one definition per function, closures under a lock
    as functions on what it guards, callbacks of asynchronous calls as functions of their own.
  \<^item> Chat_Sync and Restart: every request and client event keeps the display in step with the file
    (\<open>in_sync\<close>), over runs, and the next init reads it back.
  \<^item> Followers: the contract's events as a specification.  A \<open>follower\<close> holds what the getters returned
    when they were read and takes each event as the contract describes it; \<open>agrees\<close> compares it with
    the display, operation by operation.
  \<^item> System: the host, the two workers and delivery_module's callbacks interleaved as a step relation on
    sessions, with the lemmas on the bridge and on emptied channels that hold of any condition.
    Delivery_Watch: the locale \<open>delivery_watch\<close> has what every operation does to the delivery state,
    given what the single writers keep, and \<open>delivery_life\<close> carries that over the steps of a session;
    they are interpreted on the invariant of the delivery state (\<open>sound\<close>) and on the events telling the
    state (\<open>told\<close>).  Examples has the instances of the parameters the witnesses run on.
  \<^item> Two_Modules: what one module's client publishes and another's receives, over a network that
    reorders, repeats and adds.
  \<^item> Tasks: threads as tasks over locks, their pools and steps; disciplined threads always get on, every
    run ends, and the locale \<open>guarded_data\<close> has what a lock protects.  Lock_Programs: every operation
    again, as the task a thread runs, with the seven locks of the process where the code takes them;
    \<open>process_pool\<close> is the host with its calls, the workers and the callbacks.  Lock_Safety relates the
    tasks to the operations and shows their lock discipline.  Lock_Guards has the locale \<open>chat_guard\<close>: a
    condition on the sessions and \<open>chat.db\<close> that the closures under the display lock keep holds whenever
    that lock is free; it is interpreted on everything shown being stored (Lock_Storage) and on everything
    shown being text (Lock_Text).  Schedules: runs of one thread left alone, and schedules as lists of
    places that can be evaluated.  Send_Races: two schedules of a send and a receive, evaluated.
  \<^item> Accounts: the locale \<open>accounts\<close>, for what threads change under a lock and report later, given what they
    may rely on the others to keep.  Announcement_Accounts interprets it on the messages of a conversation,
    shown by the closures and reported by the events, with the rules of the requests; Announcements has
    the event consumer, the other threads and the process.
  \<^item> Panic: the panic hook among the threads.  Stamps: the stamps of the run files and their order.
  \<^item> Test_Chat and Test_Logging: the repository's unit tests, replayed on the definitions.
  \<^item> Chat_Properties, Followers, System_Properties, Delivery_Watch, Delivery_Properties, Two_Modules,
    Logging_Properties, Lock_Properties, Lock_Text, Announcements, Send_Races, Panic, Stamps and this theory: the
    properties.

  \<^bold>\<open>Parameters.\<close>  libchat's client, the message_store crate, the SQL driver, the account server, the
  generated event decoders, \<open>EnvFilter\<close>, the printing of JSON and of times, the previous panic hook,
  the clock and the failing statements or file operations are arguments (\<open>env\<close>, \<open>init_env\<close>,
  \<open>decoders\<close>, \<open>log_env\<close>, \<open>fault\<close>, \<open>io_fault\<close>).  \<open>store_laws\<close> and \<open>store_up\<close> are what is assumed of the message store,
  \<open>fresh_id\<close> that libchat names a conversation it creates by an id not in use here, \<open>prints_stamps\<close>
  what the specifiers of the stamp's format print.

  \<^bold>\<open>Granularity and bounds.\<close>  The operations are given twice.  In Actions to System a method of the
  contract and a client event are each one step, and most properties are about these.  In
  Lock_Programs they are split where the code takes and releases its locks, so that the window between
  a call on the client and the display update that follows it is there; for a thread that is not
  interfered with the two are shown to agree.  The methods take \<open>&mut self\<close>, so the host's calls
  come one after the other.  In a pool the bridge makes as many turns as its worker is given and the
  consumer gets a list of events; both are arbitrary, so no bound is lost.  \<open>drain\<close> is a recursion on the
  waiting events, \<open>run_bridge\<close> runs over a list of what happens between its turns.  Subtraction and
  addition of counts wrap at 64 bits as in a release build.

  \<^bold>\<open>What is shown.\<close>  The file: restart, runs, success on disk, atomic writes.  Conversations and
  messages: deletion is final, sent and received messages read back, listings, previews, rosters,
  refusals, what is logged; a consumer that lists once and follows the events shows what the getters
  return.  Delivery: the node's states over all interleavings, the bootstrap's
  paths, retries, duplicate suppression, the order of payloads, sends and subscriptions, verdicts; the
  last event announced is the state \<open>delivery_status\<close> returns; published traffic reaches the peer's
  client once.
  Threads: no deadlock, every schedule ends, what is shown is stored and is text whenever the display
  can be read, what is shown and what is announced are the same messages once the threads have come to
  rest, readers do not wait for the client, a panic is recorded without waiting.  The log:
  names, their order in time, pruning, rotation, installation.  Some theorems state behaviour the
  comments or the contract do not expect: a nickname shown although its write failed, an error
  reported after shutdown, an adoption flag that outlives its attempt, a run that prunes its own log, a
  rotation that loses the announced path, a message hidden because its conversation was being created,
  a message lost because it came before the display was seeded, a sent message announced or stamped
  in another order than it is shown.

  \<^bold>\<open>Not modelled.\<close>  The generated scaffold and the install hook, the poll interval's time, the abort
  that follows a panic, \<open>tracing\<close>'s dispatch, the tests of foreign code (the SQL schema, SQLCipher, that a
  printed time parses;
  \<open>EnvFilter\<close>'s tests are replayed under the condition \<open>keeps_directives\<close>), and the repository's documentation and end-to-end test tooling.
\<close>


section \<open>The file and the display\<close>

text \<open>C1: An init over the file that the display was in step with lists the same conversations, each
  with its count, last activity and preview, history only unless libchat still holds it; it shows
  each conversation's newest 500 messages, the same tombstones and the same chosen name.\<close>

theorem restart_shows_history:
  assumes "chat_inv env log w" and "d_chat_db (w_display w) = Some db"
    and "store_up (e_store env)" and "e_fault env = no_fault"
    and "mh_inner (w_module w1) = None"
    and "\<forall>path key. open_db (ie_driver ie) path key = Inr db"
    and "init_world env ie preset w1 = (Inr j, w2)"
  shows "\<exists>ms live. mh_inner (w_module w2) = Some ms \<and>
    ca_list_all_conversations (e_client env) (ms_client ms) = Inr live \<and> chat_inv env log w2 \<and>
    set (list_conversations w2) =
      (\<lambda>c. c\<lparr>cv_history_only := cv_convo_id c \<notin> set live\<rparr>) ` set (list_conversations w) \<and>
    (\<forall>cid. get_messages cid w2 = last_n LOADED_PER_CHAT (get_messages cid w)) \<and>
    as_deleted (d_state (w_display w2)) = as_deleted (d_state (w_display w)) \<and>
    as_installation_name (d_state (w_display w2)) = as_installation_name (d_state (w_display w))"
proof -
  from assms(1,2) have laws: "store_laws (e_store env) log"
    and p: "persisted log db (d_state (w_display w))"
    by (auto simp: chat_inv_def in_sync_def)
  obtain live where inv: "chat_inv env log w2"
    and g: "\<forall>cid. hm_get (chats (w_display w2)) cid =
      map_option (\<lambda>s. (reload s)\<lparr>cs_history_only := cid \<notin> set live\<rparr>) (hm_get (chats (w_display w)) cid)"
    and rest: "as_deleted (d_state (w_display w2)) = as_deleted (d_state (w_display w))"
      "as_installation_name (d_state (w_display w2)) = as_installation_name (d_state (w_display w))"
    and ms: "\<exists>ms. mh_inner (w_module w2) = Some ms \<and>
      ca_list_all_conversations (e_client env) (ms_client ms) = Inr live"
    by (rule init_reads_back [OF laws assms(3,4) p assms(5,6,7)])
  from inv obtain db2 where p2: "persisted log db2 (d_state (w_display w2))"
    by (auto simp: chat_inv_def in_sync_def)
  have conv: "conversation_of ((reload s)\<lparr>cs_history_only := cid \<notin> set live\<rparr>) =
      (conversation_of s)\<lparr>cv_history_only := cv_convo_id (conversation_of s) \<notin> set live\<rparr>"
    if "hm_get (chats (w_display w)) cid = Some s" for cid s
    using persistedD(5) [OF p that] unfolding conversation_of_reload by (simp add: conversation_of_def)
  have "set (list_conversations w2) = {conversation_of ((reload s)\<lparr>cs_history_only := cid \<notin> set live\<rparr>)
      | cid s. hm_get (chats (w_display w)) cid = Some s}"
    unfolding set_list_conversations [OF persistedD(3) [OF p2]] spec [OF g] by blast
  also have "\<dots> = (\<lambda>c. c\<lparr>cv_history_only := cv_convo_id c \<notin> set live\<rparr>) ` set (list_conversations w)"
    unfolding set_list_conversations [OF persistedD(3) [OF p]] using conv by (auto simp: image_iff) metis+
  finally have "set (list_conversations w2) =
      (\<lambda>c. c\<lparr>cv_history_only := cv_convo_id c \<notin> set live\<rparr>) ` set (list_conversations w)" .
  moreover have "get_messages cid w2 = last_n LOADED_PER_CHAT (get_messages cid w)" for cid
    by (cases "hm_get (chats (w_display w)) cid")
      (simp_all add: get_messages_def with_display_def spec [OF g] last_n_map reload_def Let_def, simp_all add: last_n_def)
  ultimately show ?thesis using inv ms rest by auto
qed

lemma restart_shows_history_witness:
  "\<exists>w2 live. init_world demo_env (demo_ie chat_file) ''logos.test'' initial_world = (Inr JNull, w2) \<and>
     set (list_conversations w2) =
       (\<lambda>c. c\<lparr>cv_history_only := cv_convo_id c \<notin> set live\<rparr>) ` set (list_conversations chat_world) \<and>
     get_messages ''dm'' w2 = last_n LOADED_PER_CHAT (get_messages ''dm'' chat_world)"
proof -
  obtain w2 where w2: "init_world demo_env (demo_ie chat_file) ''logos.test'' initial_world = (Inr JNull, w2)"
    using chat_file_init by (metis prod.collapse)
  have inst: "mh_inner (w_module (initial_world :: (nat, message list) world)) = None"
    by (simp add: initial_world_def module_handle_new_def)
  have driver: "\<forall>path key. open_db (ie_driver (demo_ie chat_file)) path key = Inr chat_file"
    by (simp add: open_db_def demo_ie_def file_driver_def)
  show ?thesis
    using restart_shows_history [OF chat_world_inv chat_world_simps(3) demo_env_up(2,4) inst driver w2] w2
    by blast
qed



text \<open>C3: A request that reports success has its effect in chat.db, whichever statements fail: the
  display it leaves is in step with the file.\<close>

theorem success_is_on_disk:
  assumes "store_laws (e_store env) log" and "in_sync log (w_display w)" and "fresh_id env req w"
    and "fst (serve env req w) = Inr j"
  shows "in_sync log (w_display (snd (serve env req w)))"
  using assms by (intro serve_sync) auto

lemma success_is_on_disk_witness:
  "in_sync (\<lambda>s. s) (w_display (snd (serve demo_env (Delete_conversation ''dm'') chat_world)))"
  by (rule success_is_on_disk [where j = JNull])
    (simp_all add: demo_deletes)

end
